(* ===== verification/Moth_Prelude.thy ===== *)
theory Moth_Prelude
  imports Main "HOL-Library.Word" "HOL-Library.Monad_Syntax" "HOL-Library.Extended_Nat"
begin

text \<open>
  Shared vocabulary of the mothbus development: the machine integers the headers use, the
  collections of rewrite rules the component proofs draw on, and generic facts about big-endian
  byte pairs, lists and the option monad.

  A partial result \<open>None\<close> of type \<open>'a option\<close> stands for an execution the C++ text gives no
  meaning to: an access outside an array, the use of an indeterminate value, or a failing
  \<^verbatim>\<open>assert\<close>. Error codes are ordinary values and never \<open>None\<close>.
\<close>

unbundle bit_operations_syntax

type_synonym u8 = "8 word"
type_synonym u16 = "16 word"

text \<open>Collections of facts: definitions of constants of the protocol, and closed forms of the
  reading and the writing functions.\<close>

named_theorems protocol_consts \<open>numeric constants of the protocol\<close>
named_theorems write_forms \<open>writing functions as one sequence of puts\<close>
named_theorems read_forms \<open>reading functions on a list of pending bytes\<close>
named_theorems encodings \<open>byte sequences the writers put\<close>

section \<open>Big-endian pairs\<close>

text \<open>\<^verbatim>\<open>(v >> 8) & 0xff\<close> and \<^verbatim>\<open>v & 0xff\<close>, converted to one byte, and the byte pair put
  together again.\<close>

definition hi8 :: "u16 \<Rightarrow> u8" where
  "hi8 v = ucast (drop_bit 8 v AND 0xff)"

definition lo8 :: "u16 \<Rightarrow> u8" where
  "lo8 v = ucast (v AND 0xff)"

definition be16 :: "u8 \<Rightarrow> u8 \<Rightarrow> u16" where
  "be16 h l = push_bit 8 (ucast h) OR ucast l"

lemma unat_of_nat_u16 [simp]: "n < 65536 \<Longrightarrow> unat (of_nat n :: u16) = n"
  by (simp add: unat_of_nat take_bit_nat_eq_self)

lemma unat_of_nat_u8 [simp]: "n < 256 \<Longrightarrow> unat (of_nat n :: u8) = n"
  by (simp add: unat_of_nat take_bit_nat_eq_self)

lemma and_255: "(x :: 'a::len word) AND 0xff = take_bit 8 x"
  by (simp add: take_bit_eq_mask mask_eq_exp_minus_1)

lemmas byte_pair_defs = be16_def hi8_def lo8_def and_255

lemma be16_hi8_lo8 [simp]: "be16 (hi8 v) (lo8 v) = v"
  by (rule bit_word_eqI) (auto simp: byte_pair_defs bit_simps dest: bit_imp_le_length)

lemma hi8_be16 [simp]: "hi8 (be16 h l) = h"
  by (rule bit_word_eqI) (auto simp: byte_pair_defs bit_simps dest: bit_imp_le_length)

lemma lo8_be16 [simp]: "lo8 (be16 h l) = l"
  by (rule bit_word_eqI) (auto simp: byte_pair_defs bit_simps dest: bit_imp_le_length)

lemma be16_inject [simp]: "be16 h l = be16 h' l' \<longleftrightarrow> h = h' \<and> l = l'"
  by (metis hi8_be16 lo8_be16)

lemma be16_add: "be16 h l = push_bit 8 (ucast h) + ucast l"
  unfolding be16_def
  by (rule disjunctive_add [symmetric]) (auto simp: bit_simps dest: bit_imp_le_length)

section \<open>Lists\<close>

lemma overwrite_nth:
  "i < length xs \<Longrightarrow> xs[i := x] = take i xs @ [x] @ drop (Suc i) xs"
  by (simp add: upd_conv_take_nth_drop)

definition overwrite :: "nat \<Rightarrow> 'a list \<Rightarrow> 'a list \<Rightarrow> 'a list" where
  "overwrite i ys xs = take i xs @ ys @ drop (i + length ys) xs"

lemma length_overwrite [simp]:
  "i + length ys \<le> length xs \<Longrightarrow> length (overwrite i ys xs) = length xs"
  by (simp add: overwrite_def)

lemma overwrite_Nil [simp]: "overwrite i [] xs = xs"
  by (simp add: overwrite_def)

lemma take_overwrite:
  "i + length ys \<le> length xs \<Longrightarrow> take (i + length ys) (overwrite i ys xs) = take i xs @ ys"
  by (simp add: overwrite_def)

lemma take_overwrite_ge:
  "i + length ys \<le> length xs \<Longrightarrow> i + length ys \<le> n \<Longrightarrow>
   take n (overwrite i ys xs) = overwrite i ys (take n xs)"
  by (simp add: overwrite_def take_drop)

lemma take_drop_rejoin: "k \<le> m \<Longrightarrow> take (m - k) (drop k xs) @ drop m xs = drop k xs"
  by (metis append_take_drop_id drop_drop le_add_diff_inverse2)

lemma overwrite_update:
  "i + length ys < length xs \<Longrightarrow>
   (overwrite i ys xs)[i + length ys := y] = overwrite i (ys @ [y]) xs"
  by (simp add: overwrite_def list_update_append Cons_nth_drop_Suc [symmetric])

text \<open>\<^verbatim>\<open>std::vector::resize(n, x)\<close>.\<close>

definition vector_resize :: "nat \<Rightarrow> 'a \<Rightarrow> 'a list \<Rightarrow> 'a list" where
  "vector_resize n x xs = take n xs @ replicate (n - length xs) x"

lemma length_vector_resize [simp]: "length (vector_resize n x xs) = n"
  by (simp add: vector_resize_def)

end
