(* ===== verification/Moth_Error.thy ===== *)
theory Moth_Error
  imports Moth_Prelude
begin

text \<open>
  Model of \<^verbatim>\<open>include/mothbus/error.h\<close>: the exception codes of the protocol and of the library,
  the error category and error codes. The enumeration has the underlying type \<^verbatim>\<open>int\<close> and is cast
  from every byte that arrives on the wire, so it is an integer here with one constant per
  enumerator. An error code is a value together with its category, as \<^verbatim>\<open>boost::system::error_code\<close>
  is; the test \<^verbatim>\<open>!!ec\<close> of the sources asks whether the value is non-zero.
\<close>

type_synonym modbus_exception_code = int

section \<open>Enumerators\<close>

definition success :: modbus_exception_code where
  [protocol_consts]: "success = 0"

definition illegal_function :: modbus_exception_code where
  [protocol_consts]: "illegal_function = 1"

definition illegal_data_address :: modbus_exception_code where
  [protocol_consts]: "illegal_data_address = 2"

definition illegal_data_value :: modbus_exception_code where
  [protocol_consts]: "illegal_data_value = 3"

definition slave_device_failure :: modbus_exception_code where
  [protocol_consts]: "slave_device_failure = 4"

definition acknowledge :: modbus_exception_code where
  [protocol_consts]: "acknowledge = 5"

definition slave_device_busy :: modbus_exception_code where
  [protocol_consts]: "slave_device_busy = 6"

definition negative_acknowledge :: modbus_exception_code where
  [protocol_consts]: "negative_acknowledge = 7"

definition memory_parity_error :: modbus_exception_code where
  [protocol_consts]: "memory_parity_error = 8"

definition gateway_path_unavailable :: modbus_exception_code where
  [protocol_consts]: "gateway_path_unavailable = 0x0a"

definition gateway_target_device_failed_to_respond :: modbus_exception_code where
  [protocol_consts]: "gateway_target_device_failed_to_respond = 0x0b"

definition invalid_response :: modbus_exception_code where
  [protocol_consts]: "invalid_response = 0x0c"

definition too_many_bytes_received :: modbus_exception_code where
  [protocol_consts]: "too_many_bytes_received = 0x0d"

definition transaction_id_invalid :: modbus_exception_code where
  [protocol_consts]: "transaction_id_invalid = 0x0e"

definition illegal_protocol :: modbus_exception_code where
  [protocol_consts]: "illegal_protocol = 0x0f"

definition slave_id_invalid :: modbus_exception_code where
  [protocol_consts]: "slave_id_invalid = 0x10"

definition request_too_big :: modbus_exception_code where
  [protocol_consts]: "request_too_big = 0x11"

section \<open>Error codes and categories\<close>

datatype error_category =
    modbus_category
  | system_category
  | generic_category
  | other_category

record error_code =
  ec_value :: int
  ec_category :: error_category

text \<open>The default constructed code, \<^verbatim>\<open>return{}\<close> and \<^verbatim>\<open>ec.clear()\<close>.\<close>

definition no_error :: error_code where
  "no_error = \<lparr>ec_value = 0, ec_category = system_category\<rparr>"

text \<open>The conversion to \<^verbatim>\<open>bool\<close> behind \<^verbatim>\<open>!!ec\<close>.\<close>

definition failed :: "error_code \<Rightarrow> bool" where
  "failed ec \<longleftrightarrow> ec_value ec \<noteq> 0"

definition make_error_code :: "modbus_exception_code \<Rightarrow> error_code" where
  "make_error_code c = \<lparr>ec_value = c, ec_category = modbus_category\<rparr>"

definition category_name :: "error_category \<Rightarrow> string option" where
  "category_name c = (if c = modbus_category then Some ''modbus error'' else None)"

definition message :: "int \<Rightarrow> string" where
  "message ev =
     (if ev = success then ''no error''
      else if ev = illegal_function then ''The function code received in the request is not an authorized action for the slave.''
      else if ev = illegal_data_address then ''The data address received by the slave is not an authorized address for the slave.''
      else if ev = illegal_data_value then ''The value in the request data field is not an authorized value for the slave.''
      else if ev = slave_device_failure then ''The slave fails to perform a requested action because of an unrecoverable error.''
      else if ev = acknowledge then ''The slave accepts the request but needs a long time to process it.''
      else if ev = slave_device_busy then ''The slave is busy processing another command.''
      else if ev = negative_acknowledge then ''The slave cannot perform the programming request sent by the master.''
      else if ev = memory_parity_error then ''The slave detects a parity error in the memory when attempting to read extended memory.''
      else if ev = gateway_path_unavailable then ''The gateway is overloaded or not correctly configured.''
      else if ev = gateway_target_device_failed_to_respond then ''The slave is not present on the network.''
      else ''(unrecognized error)'')"

lemma failed_no_error [simp]: "\<not> failed no_error"
  by (simp add: failed_def no_error_def)

lemma failed_make_error_code [simp]: "failed (make_error_code c) \<longleftrightarrow> c \<noteq> success"
  by (simp add: failed_def make_error_code_def success_def)

lemma make_error_code_inject [simp]: "make_error_code c = make_error_code d \<longleftrightarrow> c = d"
  by (simp add: make_error_code_def)

lemma make_error_code_not_no_error [simp]:
  "make_error_code c \<noteq> no_error" "no_error \<noteq> make_error_code c"
  by (simp_all add: make_error_code_def no_error_def)

text \<open>The library's own codes are errors, and pairwise different.\<close>

lemma library_codes_failed [simp]:
  "illegal_function \<noteq> success" "illegal_data_value \<noteq> success" "invalid_response \<noteq> success"
  "too_many_bytes_received \<noteq> success" "transaction_id_invalid \<noteq> success"
  "illegal_protocol \<noteq> success" "slave_id_invalid \<noteq> success" "request_too_big \<noteq> success"
  by (simp_all add: protocol_consts)

section \<open>Messages\<close>

text \<open>Every exception code the protocol defines has a message of its own, while all codes the
  library adds share the message for an unknown error.\<close>

lemma message_distinguishes:
  "distinct (map message [success, illegal_function, illegal_data_address, illegal_data_value,
     slave_device_failure, acknowledge, slave_device_busy, negative_acknowledge, memory_parity_error,
     gateway_path_unavailable, gateway_target_device_failed_to_respond, invalid_response])
   \<and> map message [too_many_bytes_received, transaction_id_invalid, illegal_protocol, slave_id_invalid,
       request_too_big] = replicate 5 (message invalid_response)"
  by (simp add: message_def protocol_consts numeral_eq_Suc)

end
