(* ===== verification/Moth_Util.thy ===== *)
theory Moth_Util
  imports Moth_Prelude
begin

text \<open>
  Model of \<^verbatim>\<open>util::memcpy_msb\<close> of \<^verbatim>\<open>include/mothbus/mothbus.h\<close> and of \<^verbatim>\<open>make_uint16\<close> of
  \<^verbatim>\<open>include/mothbus/adu/master.h\<close>: the two conversions between register values and their
  most-significant-byte-first form. The byte order of the machine is an argument, so the results
  hold for both.
\<close>

datatype endian = little | big

text \<open>The object representation of a \<^verbatim>\<open>uint16_t\<close>, what \<^verbatim>\<open>std::memcpy\<close> copies.\<close>

fun native_bytes :: "endian \<Rightarrow> u16 \<Rightarrow> u8 list" where
  "native_bytes little v = [lo8 v, hi8 v]"
| "native_bytes big v = [hi8 v, lo8 v]"

text \<open>The loop that swaps \<^verbatim>\<open>dst[i]\<close> and \<^verbatim>\<open>dst[i + 1]\<close> for \<^verbatim>\<open>i = 0, 2, 4, ...\<close>.\<close>

fun swap_pairs :: "u8 list \<Rightarrow> u8 list" where
  "swap_pairs (a # b # bs) = b # a # swap_pairs bs"
| "swap_pairs bs = bs"

definition memcpy_msb :: "endian \<Rightarrow> u8 list \<Rightarrow> u16 list \<Rightarrow> u8 list option" where
  "memcpy_msb native dst src =
     (if length src * 2 = length dst
      then let dst = concat (map (native_bytes native) src)
           in Some (if native = little then swap_pairs dst else dst)
      else None)"

definition make_uint16 :: "u8 \<Rightarrow> u8 \<Rightarrow> u16" where
  "make_uint16 b1 b2 = push_bit 8 (ucast b1) + ucast b2"

text \<open>The loop \<^verbatim>\<open>out[i] = make_uint16(buffer[2 * i + 0], buffer[2 * i + 1])\<close> of the master.\<close>

definition decode_registers :: "u8 list \<Rightarrow> nat \<Rightarrow> u16 list" where
  "decode_registers buf n = map (\<lambda>i. make_uint16 (buf ! (2 * i)) (buf ! (2 * i + 1))) [0..<n]"

section \<open>Big-endian form of register values\<close>

definition be_bytes :: "u16 list \<Rightarrow> u8 list" where
  "be_bytes vs = concat (map (\<lambda>v. [hi8 v, lo8 v]) vs)"

lemma be_bytes_simps [simp]:
  "be_bytes [] = []"
  "be_bytes (v # vs) = hi8 v # lo8 v # be_bytes vs"
  by (simp_all add: be_bytes_def)

lemma length_be_bytes [simp]: "length (be_bytes vs) = 2 * length vs"
  by (induction vs) auto

lemma make_uint16_be16: "make_uint16 h l = be16 h l"
  by (simp add: make_uint16_def be16_add)

lemma swap_pairs_native: "swap_pairs (concat (map (native_bytes little) vs)) = be_bytes vs"
  by (induction vs) auto

lemma native_big: "concat (map (native_bytes big) vs) = be_bytes vs"
  by (induction vs) auto

lemma memcpy_msb_be_bytes:
  "memcpy_msb native dst src = (if length src * 2 = length dst then Some (be_bytes src) else None)"
  by (cases native) (simp_all add: memcpy_msb_def swap_pairs_native native_big)

lemma decode_registers_Suc:
  "decode_registers (h # l # bs) (Suc n) = make_uint16 h l # decode_registers bs n"
  by (simp add: decode_registers_def upt_conv_Cons map_Suc_upt [symmetric] comp_def del: upt_Suc)

lemma decode_registers_0 [simp]: "decode_registers bs 0 = []"
  by (simp add: decode_registers_def)

lemma length_decode_registers [simp]: "length (decode_registers bs n) = n"
  by (simp add: decode_registers_def)

lemma decode_be_bytes: "decode_registers (be_bytes vs @ rest) (length vs) = vs"
  by (induction vs) (simp_all add: decode_registers_Suc make_uint16_be16)

lemma be_bytes_decode: "length bs = 2 * n \<Longrightarrow> be_bytes (decode_registers bs n) = bs"
proof (induction n arbitrary: bs)
  case 0
  then show ?case by simp
next
  case (Suc n)
  then obtain h l bs' where "bs = h # l # bs'" "length bs' = 2 * n"
    by (auto simp: length_Suc_conv)
  with Suc.IH show ?case
    by (simp add: decode_registers_Suc make_uint16_be16)
qed

section \<open>Round trip\<close>

text \<open>Register values that \<^verbatim>\<open>memcpy_msb\<close> lays out for the wire, on a host of either byte order, are
  the values \<^verbatim>\<open>make_uint16\<close> recovers from the bytes.\<close>

lemma memcpy_msb_make_uint16:
  "memcpy_msb native dst src = Some bs \<Longrightarrow> decode_registers bs (length src) = src"
  using decode_be_bytes [of src "[]"] by (auto simp: memcpy_msb_be_bytes split: if_splits)

end
