(* ===== verification/Reader_Writer.thy ===== *)
theory Reader_Writer
  imports Moth_Error Moth_Util
begin

text \<open>
  Model of \<^verbatim>\<open>include/mothbus/pdu/reader.h\<close> and \<^verbatim>\<open>include/mothbus/pdu/writer.h\<close>.

  The C++ functions are templates over a \<^verbatim>\<open>Reader\<close> and a \<^verbatim>\<open>Sink\<close>; the model's functions take the
  one operation they use of it as an argument. For a reader this is the function that overload
  resolution picks for \<^verbatim>\<open>read(reader, b)\<close> with a \<^verbatim>\<open>uint8_t& b\<close>: it gets the reader and the old
  value of \<^verbatim>\<open>b\<close> and returns an error code, the new value of \<^verbatim>\<open>b\<close> and the reader. For a sink it is
  \<^verbatim>\<open>put\<close>. Every out parameter is returned as it is when the function returns, on errors too.

  The interfaces are the locales \<open>byte_source\<close> and \<open>byte_sink\<close> at the end: a source is seen as the
  list of its pending bytes, a sink as the list of bytes it has taken.
\<close>

type_synonym ('r, 'v) read_result = "(error_code \<times> 'v \<times> 'r) option"
type_synonym 'r read8 = "'r \<Rightarrow> u8 \<Rightarrow> ('r, u8) read_result"
type_synonym 's put8 = "'s \<Rightarrow> u8 \<Rightarrow> 's option"

section \<open>Reading\<close>

text \<open>The primary template for one byte calls \<^verbatim>\<open>reader.get(v)\<close> and drops its error code. For
  \<^verbatim>\<open>adu::buffer\<close> it loses against the non-template \<^verbatim>\<open>adu::read\<close> of \<^verbatim>\<open>buffer.h\<close>, which is found by
  argument dependent lookup and keeps the code.\<close>

definition read_uint8 :: "'r read8 \<Rightarrow> 'r \<Rightarrow> u8 \<Rightarrow> ('r, u8) read_result" where
  "read_uint8 get r v = do { (_, v, r) \<leftarrow> get r v; Some (no_error, v, r) }"

definition read_uint16 :: "'r read8 \<Rightarrow> 'r \<Rightarrow> u16 \<Rightarrow> ('r, u16) read_result" where
  "read_uint16 rd r v = do {
     (ec, b, r) \<leftarrow> rd r 0;
     if failed ec then Some (ec, v, r) else do {
       let v = push_bit 8 (ucast b);
       (ec, b, r) \<leftarrow> rd r b;
       if failed ec then Some (ec, v, r) else Some (no_error, v OR ucast b, r)
     }
   }"

text \<open>The range-based loops over the elements of a span.\<close>

fun read_bytes :: "'r read8 \<Rightarrow> 'r \<Rightarrow> u8 list \<Rightarrow> ('r, u8 list) read_result" where
  "read_bytes rd r [] = Some (no_error, [], r)"
| "read_bytes rd r (b # bs) = do {
     (ec, temp, r) \<leftarrow> rd r 0;
     if failed ec then Some (ec, b # bs, r) else do {
       (ec, bs, r) \<leftarrow> read_bytes rd r bs;
       Some (ec, temp # bs, r)
     }
   }"

fun read_uint16s :: "'r read8 \<Rightarrow> 'r \<Rightarrow> u16 list \<Rightarrow> ('r, u16 list) read_result" where
  "read_uint16s rd r [] = Some (no_error, [], r)"
| "read_uint16s rd r (u # us) = do {
     (ec, u, r) \<leftarrow> read_uint16 rd r u;
     if failed ec then Some (ec, u # us, r) else do {
       (ec, us, r) \<leftarrow> read_uint16s rd r us;
       Some (ec, u # us, r)
     }
   }"

definition read_modbus_exception_code ::
    "'r read8 \<Rightarrow> 'r \<Rightarrow> modbus_exception_code \<Rightarrow> ('r, modbus_exception_code) read_result" where
  "read_modbus_exception_code rd r v = do {
     (ec, h, r) \<leftarrow> rd r 0;
     if failed ec then Some (ec, v, r) else Some (no_error, uint h, r)
   }"

text \<open>A span of bytes into an array of the caller: the whole array and the number of its leading
  elements the span shows. The library only takes spans of whole arrays and prefixes of them.\<close>

record byte_span =
  span_array :: "u8 list"
  span_size :: nat

definition whole_span :: "u8 list \<Rightarrow> byte_span" where
  "whole_span xs = \<lparr>span_array = xs, span_size = length xs\<rparr>"

definition subspan0 :: "byte_span \<Rightarrow> nat \<Rightarrow> byte_span" where
  "subspan0 s n = s\<lparr>span_size := n\<rparr>"

definition span_elems :: "byte_span \<Rightarrow> u8 list" where
  "span_elems s = take (span_size s) (span_array s)"

definition read_span :: "'r read8 \<Rightarrow> 'r \<Rightarrow> byte_span \<Rightarrow> ('r, byte_span) read_result" where
  "read_span rd r s = do {
     (ec, xs, r) \<leftarrow> read_bytes rd r (span_elems s);
     Some (ec, s\<lparr>span_array := xs @ drop (span_size s) (span_array s)\<rparr>, r)
   }"

section \<open>Writing\<close>

definition writer_write_uint16 :: "'s put8 \<Rightarrow> u16 \<Rightarrow> 's \<Rightarrow> 's option" where
  "writer_write_uint16 put v s = do {
     s \<leftarrow> put s (ucast (drop_bit 8 v AND 0xff));
     put s (ucast (v AND 0xff))
   }"

definition writer_write_uint8 :: "'s put8 \<Rightarrow> u8 \<Rightarrow> 's \<Rightarrow> 's option" where
  "writer_write_uint8 put v s = put s v"

definition writer_write_byte :: "'s put8 \<Rightarrow> u8 \<Rightarrow> 's \<Rightarrow> 's option" where
  "writer_write_byte put v s = put s v"

definition write_uint8 :: "'s put8 \<Rightarrow> u8 \<Rightarrow> 's \<Rightarrow> 's option" where
  "write_uint8 put v s = writer_write_uint8 put v s"

definition write_uint16 :: "'s put8 \<Rightarrow> u16 \<Rightarrow> 's \<Rightarrow> 's option" where
  "write_uint16 put v s = writer_write_uint16 put v s"

fun write_bytes :: "'s put8 \<Rightarrow> u8 list \<Rightarrow> 's \<Rightarrow> 's option" where
  "write_bytes put [] s = Some s"
| "write_bytes put (b # bs) s = do { s \<leftarrow> writer_write_uint8 put b s; write_bytes put bs s }"

fun write_uint16s :: "'s put8 \<Rightarrow> u16 list \<Rightarrow> 's \<Rightarrow> 's option" where
  "write_uint16s put [] s = Some s"
| "write_uint16s put (u # us) s = do { s \<leftarrow> writer_write_uint16 put u s; write_uint16s put us s }"

definition write_span :: "'s put8 \<Rightarrow> byte_span \<Rightarrow> 's \<Rightarrow> 's option" where
  "write_span put v s = write_bytes put (span_elems v) s"

definition write_modbus_exception_code :: "'s put8 \<Rightarrow> modbus_exception_code \<Rightarrow> 's \<Rightarrow> 's option" where
  "write_modbus_exception_code put v s = write_uint8 put (word_of_int v) s"

section \<open>Writing functions as one sequence of puts\<close>

fun put_all :: "'s put8 \<Rightarrow> u8 list \<Rightarrow> 's \<Rightarrow> 's option" where
  "put_all put [] s = Some s"
| "put_all put (b # bs) s = do { s \<leftarrow> put s b; put_all put bs s }"

lemma put_all_Nil [simp]: "put_all put [] = Some"
  by (rule ext) simp

lemma put_all_Cons: "put_all put (b # bs) = (\<lambda>s. put s b \<bind> put_all put bs)"
  by (rule ext) simp

lemma put_all_append [simp]:
  "put_all put (xs @ ys) s = put_all put xs s \<bind> put_all put ys"
  by (induction xs arbitrary: s) (auto split: bind_splits)

lemma put_all_append_fun: "put_all put (xs @ ys) = (\<lambda>s. put_all put xs s \<bind> put_all put ys)"
  by (rule ext) simp

lemmas put_all_unfold = put_all_Cons put_all_append_fun

lemma writer_write_uint8_form [write_forms]: "writer_write_uint8 put v = put_all put [v]"
  by (rule ext) (simp add: writer_write_uint8_def)

lemma write_uint8_form [write_forms]: "write_uint8 put v = put_all put [v]"
  by (rule ext) (simp add: write_uint8_def writer_write_uint8_def)

lemma writer_write_byte_form [write_forms]: "writer_write_byte put v = put_all put [v]"
  by (rule ext) (simp add: writer_write_byte_def)

lemma writer_write_uint16_form [write_forms]:
  "writer_write_uint16 put v = put_all put [hi8 v, lo8 v]"
  by (rule ext) (simp add: writer_write_uint16_def hi8_def lo8_def put_all_unfold)

lemma write_uint16_form [write_forms]: "write_uint16 put v = put_all put [hi8 v, lo8 v]"
  by (rule ext) (simp add: write_uint16_def writer_write_uint16_form)

lemma write_bytes_form [write_forms]: "write_bytes put bs = put_all put bs"
  by (induction bs; rule ext) (simp_all add: writer_write_uint8_def put_all_unfold)

lemma write_uint16s_form [write_forms]: "write_uint16s put us = put_all put (be_bytes us)"
  by (induction us; rule ext) (simp_all add: writer_write_uint16_form put_all_unfold)

lemma write_span_form [write_forms]: "write_span put v = put_all put (span_elems v)"
  by (rule ext) (simp add: write_span_def write_bytes_form)

lemma write_modbus_exception_code_form [write_forms]:
  "write_modbus_exception_code put v = put_all put [word_of_int v]"
  by (rule ext) (simp add: write_modbus_exception_code_def write_uint8_form)

section \<open>The sink interface\<close>

text \<open>What the writers rely on: a sink takes a byte at its end as long as it has room. The
  library's message buffer has bounded room and no defined behaviour beyond it.\<close>

locale byte_sink =
  fixes put :: "'s put8"
    and taken :: "'s \<Rightarrow> u8 list"
    and room :: "'s \<Rightarrow> enat"
    and sink_ok :: "'s \<Rightarrow> bool"
  assumes put_room: "sink_ok s \<Longrightarrow> room s \<noteq> 0 \<Longrightarrow>
      \<exists>s'. put s b = Some s' \<and> sink_ok s' \<and> taken s' = taken s @ [b] \<and> room s = eSuc (room s')"
    and put_full: "sink_ok s \<Longrightarrow> room s = 0 \<Longrightarrow> put s b = None"
begin

lemma put_all_room:
  "sink_ok s \<Longrightarrow> enat (length bs) \<le> room s \<Longrightarrow>
   \<exists>s'. put_all put bs s = Some s' \<and> sink_ok s' \<and> taken s' = taken s @ bs
      \<and> room s = enat (length bs) + room s'"
proof (induction bs arbitrary: s)
  case Nil
  then show ?case by (simp add: enat_0)
next
  case (Cons b bs)
  from Cons.prems have "room s \<noteq> 0"
    by (auto simp: enat_0_iff)
  with Cons.prems(1) obtain s1 where s1: "put s b = Some s1" "sink_ok s1"
      "taken s1 = taken s @ [b]" "room s = eSuc (room s1)"
    using put_room by blast
  from Cons.prems(2) s1(4) have "enat (length bs) \<le> room s1"
    by (simp add: eSuc_enat [symmetric])
  with Cons.IH [OF s1(2)] obtain s2 where "put_all put bs s1 = Some s2" "sink_ok s2"
      "taken s2 = taken s1 @ bs" "room s1 = enat (length bs) + room s2"
    by blast
  with s1 show ?case
    by (simp add: eSuc_enat [symmetric] eSuc_plus_1 add.assoc add.commute add.left_commute)
qed

lemma put_all_full:
  "sink_ok s \<Longrightarrow> room s < enat (length bs) \<Longrightarrow> put_all put bs s = None"
proof (induction bs arbitrary: s)
  case Nil
  then show ?case by (simp add: enat_0)
next
  case (Cons b bs)
  show ?case
  proof (cases "room s = 0")
    case True
    with Cons.prems(1) show ?thesis by (simp add: put_full)
  next
    case False
    with Cons.prems(1) obtain s1 where s1: "put s b = Some s1" "sink_ok s1"
        "room s = eSuc (room s1)"
      using put_room by blast
    from Cons.prems(2) s1(3) have "room s1 < enat (length bs)"
      by (simp add: eSuc_enat [symmetric])
    with Cons.IH s1 show ?thesis by simp
  qed
qed

lemma put_all_eq_None_iff:
  "sink_ok s \<Longrightarrow> put_all put bs s = None \<longleftrightarrow> room s < enat (length bs)"
  using put_all_room put_all_full by (metis not_le option.distinct(1))

end

section \<open>The source interface\<close>

text \<open>A source seen as the list of its pending bytes. What a read at the end does is a parameter of
  the list reader: the message buffer reports an error, an unchecked iterator has no defined
  behaviour.\<close>

fun list_read :: "(u8 \<Rightarrow> (error_code \<times> u8) option) \<Rightarrow> u8 list read8" where
  "list_read at_end (b # bs) v = Some (no_error, b, bs)"
| "list_read at_end [] v = (case at_end v of None \<Rightarrow> None | Some (ec, v) \<Rightarrow> Some (ec, v, []))"

definition checked_end :: "u8 \<Rightarrow> (error_code \<times> u8) option" where
  "checked_end v = Some (make_error_code too_many_bytes_received, v)"

abbreviation checked_read :: "u8 list read8" where
  "checked_read \<equiv> list_read checked_end"

abbreviation short_read :: error_code where
  "short_read \<equiv> make_error_code too_many_bytes_received"

text \<open>The simulation between a reading function on a source and on the list of pending bytes.\<close>

definition read_sim ::
    "('r \<Rightarrow> u8 list) \<Rightarrow> ('r \<Rightarrow> bool) \<Rightarrow> ('r, 'v) read_result \<Rightarrow> (u8 list, 'v) read_result \<Rightarrow> bool" where
  "read_sim pending ok m n \<longleftrightarrow>
     (case m of None \<Rightarrow> n = None | Some (ec, v, r) \<Rightarrow> ok r \<and> n = Some (ec, v, pending r))"

named_theorems sim_rules \<open>introduction rules of the simulation\<close>

lemma read_sim_Some [sim_rules]:
  "ok r \<Longrightarrow> read_sim pending ok (Some (ec, v, r)) (Some (ec, v, pending r))"
  by (simp add: read_sim_def)

lemma read_sim_None [sim_rules]: "read_sim pending ok None None"
  by (simp add: read_sim_def)

lemma read_sim_if [sim_rules]:
  "(c \<Longrightarrow> read_sim pending ok a a') \<Longrightarrow> (\<not> c \<Longrightarrow> read_sim pending ok b b') \<Longrightarrow>
   read_sim pending ok (if c then a else b) (if c then a' else b')"
  by simp

lemma read_sim_Let [sim_rules]:
  "(\<And>x. read_sim pending ok (f x) (g x)) \<Longrightarrow> read_sim pending ok (Let e f) (Let e g)"
  by (simp add: Let_def)

lemma read_sim_bind [sim_rules]:
  assumes "read_sim pending ok m n"
    and "\<And>ec v r. ok r \<Longrightarrow> read_sim pending ok (f (ec, v, r)) (g (ec, v, pending r))"
  shows "read_sim pending ok (m \<bind> f) (n \<bind> g)"
proof (cases m)
  case None
  with assms(1) show ?thesis by (simp add: read_sim_def)
next
  case (Some t)
  obtain ec v r where t: "t = (ec, v, r)" by (cases t)
  with Some assms(1) have "ok r" "n = Some (ec, v, pending r)"
    by (simp_all add: read_sim_def)
  with Some t assms(2) show ?thesis by simp
qed

lemma read_sim_case_prod [sim_rules]:
  "read_sim pending ok (f ec v r) (g ec v r') \<Longrightarrow>
   read_sim pending ok (case (ec, v, r) of (ec, v, r) \<Rightarrow> f ec v r)
     (case (ec, v, r') of (ec, v, r') \<Rightarrow> g ec v r')"
  by simp

lemma read_simD:
  "read_sim pending ok m (Some (ec, v, bs)) \<Longrightarrow> \<exists>r. m = Some (ec, v, r) \<and> ok r \<and> pending r = bs"
  by (auto simp: read_sim_def split: option.splits)

locale byte_source =
  fixes rd :: "'r read8"
    and pending :: "'r \<Rightarrow> u8 list"
    and source_ok :: "'r \<Rightarrow> bool"
    and at_end :: "u8 \<Rightarrow> (error_code \<times> u8) option"
  assumes rd_sim: "source_ok r \<Longrightarrow>
      read_sim pending source_ok (rd r v) (list_read at_end (pending r) v)"
begin

abbreviation sim :: "('r, 'v) read_result \<Rightarrow> (u8 list, 'v) read_result \<Rightarrow> bool" where
  "sim \<equiv> read_sim pending source_ok"

lemma sim_uint16:
  "source_ok r \<Longrightarrow> sim (read_uint16 rd r v) (read_uint16 (list_read at_end) (pending r) v)"
  unfolding read_uint16_def by (intro sim_rules rd_sim)

lemma sim_bytes:
  "source_ok r \<Longrightarrow> sim (read_bytes rd r bs) (read_bytes (list_read at_end) (pending r) bs)"
  by (induction bs arbitrary: r) (auto intro!: sim_rules rd_sim)

lemma sim_uint16s:
  "source_ok r \<Longrightarrow> sim (read_uint16s rd r us) (read_uint16s (list_read at_end) (pending r) us)"
  by (induction us arbitrary: r) (auto intro!: sim_rules sim_uint16)

lemma sim_span:
  "source_ok r \<Longrightarrow> sim (read_span rd r s) (read_span (list_read at_end) (pending r) s)"
  unfolding read_span_def by (intro sim_rules sim_bytes)

lemma sim_modbus_exception_code:
  "source_ok r \<Longrightarrow> sim (read_modbus_exception_code rd r v)
     (read_modbus_exception_code (list_read at_end) (pending r) v)"
  unfolding read_modbus_exception_code_def by (intro sim_rules rd_sim)

lemmas sim_primitives = rd_sim sim_uint16 sim_bytes sim_uint16s sim_span sim_modbus_exception_code

end

section \<open>Reading from a list of pending bytes\<close>

lemma read_uint16_ok [read_forms]:
  "read_uint16 (list_read e) (h # l # bs) v = Some (no_error, be16 h l, bs)"
  by (simp add: read_uint16_def be16_def)

lemma read_uint16_short [read_forms]:
  "read_uint16 checked_read [h] v = Some (short_read, be16 h 0, [])"
  "read_uint16 checked_read [] v = Some (short_read, v, [])"
  by (simp_all add: read_uint16_def checked_end_def be16_def)

lemma read_modbus_exception_code_forms [read_forms]:
  "read_modbus_exception_code (list_read e) (b # bs) v = Some (no_error, uint b, bs)"
  "read_modbus_exception_code checked_read [] v = Some (short_read, v, [])"
  by (simp_all add: read_modbus_exception_code_def checked_end_def)

lemma read_bytes_ok:
  "length xs \<le> length bs \<Longrightarrow>
   read_bytes (list_read e) bs xs = Some (no_error, take (length xs) bs, drop (length xs) bs)"
proof (induction xs arbitrary: bs)
  case Nil
  then show ?case by simp
next
  case (Cons x xs)
  then show ?case by (cases bs) auto
qed

lemma read_bytes_short:
  "length bs < length xs \<Longrightarrow>
   read_bytes checked_read bs xs = Some (short_read, bs @ drop (length bs) xs, [])"
proof (induction xs arbitrary: bs)
  case Nil
  then show ?case by simp
next
  case (Cons x xs)
  then show ?case by (cases bs) (auto simp: checked_end_def)
qed

lemma read_uint16s_ok:
  "2 * length us \<le> length bs \<Longrightarrow>
   read_uint16s (list_read e) bs us
     = Some (no_error, decode_registers bs (length us), drop (2 * length us) bs)"
proof (induction us arbitrary: bs)
  case Nil
  then show ?case by simp
next
  case (Cons u us)
  then obtain h l bs' where "bs = h # l # bs'"
    by (auto simp: Suc_le_length_iff)
  with Cons show ?case
    by (simp add: read_uint16_ok decode_registers_Suc make_uint16_be16)
qed

lemma read_uint16s_short:
  "length bs < 2 * length us \<Longrightarrow>
   \<exists>us'. read_uint16s checked_read bs us = Some (short_read, us', []) \<and> length us' = length us"
proof (induction us arbitrary: bs)
  case Nil
  then show ?case by simp
next
  case (Cons u us)
  consider "bs = []" | b where "bs = [b]" | h l bs' where "bs = h # l # bs'"
    by (metis neq_Nil_conv)
  then show ?case
  proof cases
    case 3
    with Cons.prems have "length bs' < 2 * length us" by simp
    with Cons.IH 3 show ?thesis by (fastforce simp: read_forms)
  qed (simp_all add: read_forms)
qed

lemma read_uint16_cases:
  "read_uint16 checked_read bs v =
     (case bs of [] \<Rightarrow> Some (short_read, v, [])
      | h # bs' \<Rightarrow> (case bs' of [] \<Rightarrow> Some (short_read, be16 h 0, [])
                   | l # rest \<Rightarrow> Some (no_error, be16 h l, rest)))"
  by (simp add: read_forms split: list.splits)

lemma read_bytes_cases:
  "read_bytes checked_read bs xs =
     (if length xs \<le> length bs then Some (no_error, take (length xs) bs, drop (length xs) bs)
      else Some (short_read, bs @ drop (length bs) xs, []))"
  by (simp add: read_bytes_ok read_bytes_short)

lemma read_uint16s_cases:
  obtains (ok) "2 * length us \<le> length bs"
      "read_uint16s checked_read bs us
         = Some (no_error, decode_registers bs (length us), drop (2 * length us) bs)"
    | (short) us' where "read_uint16s checked_read bs us = Some (short_read, us', [])"
  using read_uint16s_ok [of us bs checked_end] read_uint16s_short [of bs us] by (metis not_le)

end
