(* ===== verification/Pdu_Base.thy ===== *)
theory Pdu_Base
  imports Reader_Writer
begin

text \<open>
  The part of \<^verbatim>\<open>include/mothbus/pdu.h\<close> the request and response headers build on: function codes
  and the macro \<^verbatim>\<open>MOTH_CHECKED_RETURN\<close>. The enumeration of function codes has the underlying type
  \<^verbatim>\<open>uint8_t\<close> and is cast from every received byte, so it is a byte with one constant per
  enumerator.
\<close>

type_synonym function_code = u8

definition fc_read_coils :: function_code where
  [protocol_consts]: "fc_read_coils = 0x01"

definition fc_read_discrete_inputs :: function_code where
  [protocol_consts]: "fc_read_discrete_inputs = 0x02"

definition fc_read_holding_registers :: function_code where
  [protocol_consts]: "fc_read_holding_registers = 0x03"

definition fc_read_input_registers :: function_code where
  [protocol_consts]: "fc_read_input_registers = 0x04"

definition fc_write_single_coil :: function_code where
  [protocol_consts]: "fc_write_single_coil = 0x05"

definition fc_write_single_register :: function_code where
  [protocol_consts]: "fc_write_single_register = 0x06"

definition fc_write_multiple_coils :: function_code where
  [protocol_consts]: "fc_write_multiple_coils = 0x0F"

definition fc_write_multiple_registers :: function_code where
  [protocol_consts]: "fc_write_multiple_registers = 0x10"

definition fc_read_write_multiple_registers :: function_code where
  [protocol_consts]: "fc_read_write_multiple_registers = 0x17"

text \<open>\<^verbatim>\<open>{ auto ec = expr; if (!!ec) return ec; }\<close> after a read that left the out parameter \<open>v\<close> and
  the reader \<open>r\<close>: return early, or go on.\<close>

definition moth_checked_return ::
    "error_code \<Rightarrow> 'v \<Rightarrow> 'r \<Rightarrow> ('v \<Rightarrow> 'r \<Rightarrow> ('r, 'v) read_result) \<Rightarrow> ('r, 'v) read_result" where
  "moth_checked_return ec v r k = (if failed ec then Some (ec, v, r) else k v r)"

definition read_function_code :: "'r read8 \<Rightarrow> 'r \<Rightarrow> function_code \<Rightarrow> ('r, function_code) read_result" where
  "read_function_code rd r v = do {
     (ec, h, r) \<leftarrow> rd r 0;
     if failed ec then Some (ec, v, r) else Some (no_error, h, r)
   }"

definition write_function_code :: "'s put8 \<Rightarrow> function_code \<Rightarrow> 's \<Rightarrow> 's option" where
  "write_function_code put fc s = writer_write_uint8 put fc s"

lemma write_function_code_form [write_forms]: "write_function_code put fc = put_all put [fc]"
  by (rule ext) (simp add: write_function_code_def writer_write_uint8_form)

lemma moth_checked_return_simps [simp]:
  "moth_checked_return no_error v r k = k v r"
  "c \<noteq> success \<Longrightarrow> moth_checked_return (make_error_code c) v r k = Some (make_error_code c, v, r)"
  by (simp_all add: moth_checked_return_def)

lemma read_function_code_forms [read_forms]:
  "read_function_code (list_read e) (b # bs) v = Some (no_error, b, bs)"
  "read_function_code checked_read [] v = Some (short_read, v, [])"
  by (simp_all add: read_function_code_def checked_end_def)

lemma read_sim_checked_return [sim_rules]:
  "ok r \<Longrightarrow> (\<And>v r. ok r \<Longrightarrow> read_sim pending ok (k v r) (k' v (pending r))) \<Longrightarrow>
   read_sim pending ok (moth_checked_return ec v r k) (moth_checked_return ec v (pending r) k')"
  by (simp add: moth_checked_return_def read_sim_Some)

context byte_source
begin

lemma sim_function_code:
  "source_ok r \<Longrightarrow>
   sim (read_function_code rd r v) (read_function_code (list_read at_end) (pending r) v)"
  unfolding read_function_code_def by (intro sim_rules rd_sim)

end

end
