(* ===== verification/Pdu_Requests.thy ===== *)
theory Pdu_Requests
  imports Pdu_Base
begin

text \<open>
  Model of the nine request headers \<^verbatim>\<open>include/mothbus/pdu/req_*.h\<close>. Each request class is a record
  (fields carry a short prefix, since the classes share field names), with its default constructed
  value, its \<^verbatim>\<open>read\<close> and its \<^verbatim>\<open>write\<close>. \<open>read\<close> fills the fields in order and returns at the first
  error with the fields read so far; the function code has already been read by the caller.
  \<open>write\<close> puts the function code and the fields.

  For each request, \<open>body_...\<close> lists the bytes after the function code, and the locale
  \<open>request_codec\<close> states what reading and writing promise each other.
\<close>

section \<open>req reading coils\<close>

record read_coils_pdu_req =
  rc_starting_address :: u16
  rc_quantity_of_coils :: u16

definition read_coils_pdu_req_init :: read_coils_pdu_req where
  "read_coils_pdu_req_init = \<lparr>rc_starting_address = 0, rc_quantity_of_coils = 0\<rparr>"

definition read_coils_pdu_req_read ::
    "'r read8 \<Rightarrow> 'r \<Rightarrow> read_coils_pdu_req \<Rightarrow> ('r, read_coils_pdu_req) read_result" where
  "read_coils_pdu_req_read rd r req = do {
     (ec, x, r) \<leftarrow> read_uint16 rd r (rc_starting_address req);
     moth_checked_return ec (req\<lparr>rc_starting_address := x\<rparr>) r (\<lambda>req r. do {
     (ec, x, r) \<leftarrow> read_uint16 rd r (rc_quantity_of_coils req);
     moth_checked_return ec (req\<lparr>rc_quantity_of_coils := x\<rparr>) r (\<lambda>req r. do {
     Some (no_error, req, r) }) }) }"

definition read_coils_pdu_req_write ::
    "'s put8 \<Rightarrow> read_coils_pdu_req \<Rightarrow> 's \<Rightarrow> 's option" where
  "read_coils_pdu_req_write put v s = do {
     s \<leftarrow> write_function_code put fc_read_coils s;
     s \<leftarrow> writer_write_uint16 put (rc_starting_address v) s;
     writer_write_uint16 put (rc_quantity_of_coils v) s }"

section \<open>req reading discrete inputs\<close>

record read_discrete_inputs_pdu_req =
  rdi_starting_address :: u16
  rdi_quantity_of_discrete_inputs :: u16

definition read_discrete_inputs_pdu_req_init :: read_discrete_inputs_pdu_req where
  "read_discrete_inputs_pdu_req_init = \<lparr>rdi_starting_address = 0, rdi_quantity_of_discrete_inputs = 0\<rparr>"

definition read_discrete_inputs_pdu_req_read ::
    "'r read8 \<Rightarrow> 'r \<Rightarrow> read_discrete_inputs_pdu_req \<Rightarrow> ('r, read_discrete_inputs_pdu_req) read_result" where
  "read_discrete_inputs_pdu_req_read rd r req = do {
     (ec, x, r) \<leftarrow> read_uint16 rd r (rdi_starting_address req);
     moth_checked_return ec (req\<lparr>rdi_starting_address := x\<rparr>) r (\<lambda>req r. do {
     (ec, x, r) \<leftarrow> read_uint16 rd r (rdi_quantity_of_discrete_inputs req);
     moth_checked_return ec (req\<lparr>rdi_quantity_of_discrete_inputs := x\<rparr>) r (\<lambda>req r. do {
     Some (no_error, req, r) }) }) }"

definition read_discrete_inputs_pdu_req_write ::
    "'s put8 \<Rightarrow> read_discrete_inputs_pdu_req \<Rightarrow> 's \<Rightarrow> 's option" where
  "read_discrete_inputs_pdu_req_write put v s = do {
     s \<leftarrow> write_function_code put fc_read_discrete_inputs s;
     s \<leftarrow> writer_write_uint16 put (rdi_starting_address v) s;
     writer_write_uint16 put (rdi_quantity_of_discrete_inputs v) s }"

section \<open>req reading register\<close>

record read_holding_pdu_req =
  rh_starting_address :: u16
  rh_quantity_of_registers :: u16

definition read_holding_pdu_req_init :: read_holding_pdu_req where
  "read_holding_pdu_req_init = \<lparr>rh_starting_address = 0, rh_quantity_of_registers = 0\<rparr>"

definition read_holding_pdu_req_read ::
    "'r read8 \<Rightarrow> 'r \<Rightarrow> read_holding_pdu_req \<Rightarrow> ('r, read_holding_pdu_req) read_result" where
  "read_holding_pdu_req_read rd r req = do {
     (ec, x, r) \<leftarrow> read_uint16 rd r (rh_starting_address req);
     moth_checked_return ec (req\<lparr>rh_starting_address := x\<rparr>) r (\<lambda>req r. do {
     (ec, x, r) \<leftarrow> read_uint16 rd r (rh_quantity_of_registers req);
     moth_checked_return ec (req\<lparr>rh_quantity_of_registers := x\<rparr>) r (\<lambda>req r. do {
     Some (no_error, req, r) }) }) }"

definition read_holding_pdu_req_write ::
    "'s put8 \<Rightarrow> read_holding_pdu_req \<Rightarrow> 's \<Rightarrow> 's option" where
  "read_holding_pdu_req_write put v s = do {
     s \<leftarrow> write_function_code put fc_read_holding_registers s;
     s \<leftarrow> writer_write_uint16 put (rh_starting_address v) s;
     writer_write_uint16 put (rh_quantity_of_registers v) s }"

section \<open>req reading input register\<close>

record read_input_pdu_req =
  ri_starting_address :: u16
  ri_quantity_of_registers :: u16

definition read_input_pdu_req_init :: read_input_pdu_req where
  "read_input_pdu_req_init = \<lparr>ri_starting_address = 0, ri_quantity_of_registers = 0\<rparr>"

definition read_input_pdu_req_read ::
    "'r read8 \<Rightarrow> 'r \<Rightarrow> read_input_pdu_req \<Rightarrow> ('r, read_input_pdu_req) read_result" where
  "read_input_pdu_req_read rd r req = do {
     (ec, x, r) \<leftarrow> read_uint16 rd r (ri_starting_address req);
     moth_checked_return ec (req\<lparr>ri_starting_address := x\<rparr>) r (\<lambda>req r. do {
     (ec, x, r) \<leftarrow> read_uint16 rd r (ri_quantity_of_registers req);
     moth_checked_return ec (req\<lparr>ri_quantity_of_registers := x\<rparr>) r (\<lambda>req r. do {
     Some (no_error, req, r) }) }) }"

definition read_input_pdu_req_write ::
    "'s put8 \<Rightarrow> read_input_pdu_req \<Rightarrow> 's \<Rightarrow> 's option" where
  "read_input_pdu_req_write put v s = do {
     s \<leftarrow> write_function_code put fc_read_input_registers s;
     s \<leftarrow> writer_write_uint16 put (ri_starting_address v) s;
     writer_write_uint16 put (ri_quantity_of_registers v) s }"

section \<open>req writing single coil\<close>

record write_single_coil_pdu_req =
  wsc_address :: u16
  wsc_value :: u16

definition write_single_coil_pdu_req_init :: write_single_coil_pdu_req where
  "write_single_coil_pdu_req_init = \<lparr>wsc_address = 0, wsc_value = 0\<rparr>"

definition write_single_coil_pdu_req_read ::
    "'r read8 \<Rightarrow> 'r \<Rightarrow> write_single_coil_pdu_req \<Rightarrow> ('r, write_single_coil_pdu_req) read_result" where
  "write_single_coil_pdu_req_read rd r req = do {
     (ec, x, r) \<leftarrow> read_uint16 rd r (wsc_address req);
     moth_checked_return ec (req\<lparr>wsc_address := x\<rparr>) r (\<lambda>req r. do {
     (ec, x, r) \<leftarrow> read_uint16 rd r (wsc_value req);
     moth_checked_return ec (req\<lparr>wsc_value := x\<rparr>) r (\<lambda>req r. do {
     Some (no_error, req, r) }) }) }"

definition write_single_coil_pdu_req_write ::
    "'s put8 \<Rightarrow> write_single_coil_pdu_req \<Rightarrow> 's \<Rightarrow> 's option" where
  "write_single_coil_pdu_req_write put v s = 
    (if wsc_value v = 0x0000 \<or> wsc_value v = 0xFF00 then do {
     s \<leftarrow> write_function_code put fc_write_single_coil s;
     s \<leftarrow> writer_write_uint16 put (wsc_address v) s;
     writer_write_uint16 put (wsc_value v) s }
     else None)"

section \<open>req writing single register\<close>

record write_single_register_pdu_req =
  wsr_address :: u16
  wsr_value :: u16

definition write_single_register_pdu_req_init :: write_single_register_pdu_req where
  "write_single_register_pdu_req_init = \<lparr>wsr_address = 0, wsr_value = 0\<rparr>"

definition write_single_register_pdu_req_read ::
    "'r read8 \<Rightarrow> 'r \<Rightarrow> write_single_register_pdu_req \<Rightarrow> ('r, write_single_register_pdu_req) read_result" where
  "write_single_register_pdu_req_read rd r req = do {
     (ec, x, r) \<leftarrow> read_uint16 rd r (wsr_address req);
     moth_checked_return ec (req\<lparr>wsr_address := x\<rparr>) r (\<lambda>req r. do {
     (ec, x, r) \<leftarrow> read_uint16 rd r (wsr_value req);
     moth_checked_return ec (req\<lparr>wsr_value := x\<rparr>) r (\<lambda>req r. do {
     Some (no_error, req, r) }) }) }"

definition write_single_register_pdu_req_write ::
    "'s put8 \<Rightarrow> write_single_register_pdu_req \<Rightarrow> 's \<Rightarrow> 's option" where
  "write_single_register_pdu_req_write put v s = do {
     s \<leftarrow> write_function_code put fc_write_single_register s;
     s \<leftarrow> writer_write_uint16 put (wsr_address v) s;
     writer_write_uint16 put (wsr_value v) s }"

section \<open>Loops over a vector of values\<close>

text \<open>\<^verbatim>\<open>for (auto b : v.values) writer.write(b)\<close>, once for bytes and once for registers.\<close>

fun write_each_byte :: "'s put8 \<Rightarrow> u8 list \<Rightarrow> 's \<Rightarrow> 's option" where
  "write_each_byte put [] s = Some s"
| "write_each_byte put (b # bs) s = do { s \<leftarrow> writer_write_byte put b s; write_each_byte put bs s }"

fun write_each_register :: "'s put8 \<Rightarrow> u16 list \<Rightarrow> 's \<Rightarrow> 's option" where
  "write_each_register put [] s = Some s"
| "write_each_register put (u # us) s =
     do { s \<leftarrow> writer_write_uint16 put u s; write_each_register put us s }"

section \<open>req writing multiple coils\<close>

record write_multiple_coils_pdu_req =
  wmc_starting_address :: u16
  wmc_quantity_of_coils :: u16
  wmc_byte_count :: u8
  wmc_values :: "u8 list"

definition write_multiple_coils_pdu_req_init :: write_multiple_coils_pdu_req where
  "write_multiple_coils_pdu_req_init =
     \<lparr>wmc_starting_address = 0, wmc_quantity_of_coils = 0, wmc_byte_count = 0,
      wmc_values = []\<rparr>"

definition write_multiple_coils_pdu_req_read ::
    "'r read8 \<Rightarrow> 'r \<Rightarrow> write_multiple_coils_pdu_req \<Rightarrow> ('r, write_multiple_coils_pdu_req) read_result" where
  "write_multiple_coils_pdu_req_read rd r req = do {
     (ec, x, r) \<leftarrow> read_uint16 rd r (wmc_starting_address req);
     moth_checked_return ec (req\<lparr>wmc_starting_address := x\<rparr>) r (\<lambda>req r. do {
     (ec, x, r) \<leftarrow> read_uint16 rd r (wmc_quantity_of_coils req);
     moth_checked_return ec (req\<lparr>wmc_quantity_of_coils := x\<rparr>) r (\<lambda>req r. do {
     (ec, x, r) \<leftarrow> rd r (wmc_byte_count req);
     moth_checked_return ec (req\<lparr>wmc_byte_count := x\<rparr>) r (\<lambda>req r. do {
     let req = req\<lparr>wmc_values := vector_resize (unat (wmc_byte_count req)) 0 (wmc_values req)\<rparr>;
     (ec, x, r) \<leftarrow> read_bytes rd r (wmc_values req);
     moth_checked_return ec (req\<lparr>wmc_values := x\<rparr>) r (\<lambda>req r. do {
     Some (no_error, req, r) }) }) }) }) }"

definition write_multiple_coils_pdu_req_write ::
    "'s put8 \<Rightarrow> write_multiple_coils_pdu_req \<Rightarrow> 's \<Rightarrow> 's option" where
  "write_multiple_coils_pdu_req_write put v s = do {
     s \<leftarrow> write_function_code put fc_write_multiple_coils s;
     s \<leftarrow> writer_write_uint16 put (wmc_starting_address v) s;
     s \<leftarrow> writer_write_uint16 put (wmc_quantity_of_coils v) s;
     s \<leftarrow> writer_write_uint8 put (wmc_byte_count v) s;
     write_each_byte put (wmc_values v) s }"

section \<open>req writing multiple registers\<close>

record write_multiple_registers_pdu_req =
  wmr_starting_address :: u16
  wmr_quantity_of_registers :: u16
  wmr_byte_count :: u8
  wmr_values :: "u16 list"

definition write_multiple_registers_pdu_req_init :: write_multiple_registers_pdu_req where
  "write_multiple_registers_pdu_req_init =
     \<lparr>wmr_starting_address = 0, wmr_quantity_of_registers = 0, wmr_byte_count = 0,
      wmr_values = []\<rparr>"

definition write_multiple_registers_pdu_req_read ::
    "'r read8 \<Rightarrow> 'r \<Rightarrow> write_multiple_registers_pdu_req \<Rightarrow> ('r, write_multiple_registers_pdu_req) read_result" where
  "write_multiple_registers_pdu_req_read rd r req = do {
     (ec, x, r) \<leftarrow> read_uint16 rd r (wmr_starting_address req);
     moth_checked_return ec (req\<lparr>wmr_starting_address := x\<rparr>) r (\<lambda>req r. do {
     (ec, x, r) \<leftarrow> read_uint16 rd r (wmr_quantity_of_registers req);
     moth_checked_return ec (req\<lparr>wmr_quantity_of_registers := x\<rparr>) r (\<lambda>req r. do {
     (ec, x, r) \<leftarrow> rd r (wmr_byte_count req);
     moth_checked_return ec (req\<lparr>wmr_byte_count := x\<rparr>) r (\<lambda>req r. do {
     let req = req\<lparr>wmr_values := vector_resize (unat (wmr_byte_count req) div 2) 0 (wmr_values req)\<rparr>;
     (ec, x, r) \<leftarrow> read_uint16s rd r (wmr_values req);
     moth_checked_return ec (req\<lparr>wmr_values := x\<rparr>) r (\<lambda>req r. do {
     Some (no_error, req, r) }) }) }) }) }"

definition write_multiple_registers_pdu_req_write ::
    "'s put8 \<Rightarrow> write_multiple_registers_pdu_req \<Rightarrow> 's \<Rightarrow> 's option" where
  "write_multiple_registers_pdu_req_write put v s = do {
     s \<leftarrow> write_function_code put fc_write_multiple_registers s;
     s \<leftarrow> writer_write_uint16 put (wmr_starting_address v) s;
     s \<leftarrow> writer_write_uint16 put (wmr_quantity_of_registers v) s;
     s \<leftarrow> writer_write_uint8 put (wmr_byte_count v) s;
     write_each_register put (wmr_values v) s }"

section \<open>req reading writing multiple registers\<close>

record read_write_multiple_registers_pdu_req =
  rwm_read_starting_address :: u16
  rwm_read_quantity_of_registers :: u16
  rwm_write_starting_address :: u16
  rwm_write_quantity_of_registers :: u16
  rwm_write_byte_count :: u8
  rwm_values :: "u16 list"

definition read_write_multiple_registers_pdu_req_init ::
    read_write_multiple_registers_pdu_req where
  "read_write_multiple_registers_pdu_req_init =
     \<lparr>rwm_read_starting_address = 0, rwm_read_quantity_of_registers = 0,
      rwm_write_starting_address = 0, rwm_write_quantity_of_registers = 0,
      rwm_write_byte_count = 0, rwm_values = []\<rparr>"

definition read_write_multiple_registers_pdu_req_read ::
    "'r read8 \<Rightarrow> 'r \<Rightarrow> read_write_multiple_registers_pdu_req \<Rightarrow> ('r, read_write_multiple_registers_pdu_req) read_result" where
  "read_write_multiple_registers_pdu_req_read rd r req = do {
     (ec, x, r) \<leftarrow> read_uint16 rd r (rwm_read_starting_address req);
     moth_checked_return ec (req\<lparr>rwm_read_starting_address := x\<rparr>) r (\<lambda>req r. do {
     (ec, x, r) \<leftarrow> read_uint16 rd r (rwm_read_quantity_of_registers req);
     moth_checked_return ec (req\<lparr>rwm_read_quantity_of_registers := x\<rparr>) r (\<lambda>req r. do {
     (ec, x, r) \<leftarrow> read_uint16 rd r (rwm_write_starting_address req);
     moth_checked_return ec (req\<lparr>rwm_write_starting_address := x\<rparr>) r (\<lambda>req r. do {
     (ec, x, r) \<leftarrow> read_uint16 rd r (rwm_write_quantity_of_registers req);
     moth_checked_return ec (req\<lparr>rwm_write_quantity_of_registers := x\<rparr>) r (\<lambda>req r. do {
     (ec, x, r) \<leftarrow> rd r (rwm_write_byte_count req);
     moth_checked_return ec (req\<lparr>rwm_write_byte_count := x\<rparr>) r (\<lambda>req r. do {
     let req = req\<lparr>rwm_values := vector_resize (unat (rwm_write_byte_count req) div 2) 0 (rwm_values req)\<rparr>;
     (ec, x, r) \<leftarrow> read_uint16s rd r (rwm_values req);
     moth_checked_return ec (req\<lparr>rwm_values := x\<rparr>) r (\<lambda>req r. do {
     Some (no_error, req, r) }) }) }) }) }) }) }"

definition read_write_multiple_registers_pdu_req_write ::
    "'s put8 \<Rightarrow> read_write_multiple_registers_pdu_req \<Rightarrow> 's \<Rightarrow> 's option" where
  "read_write_multiple_registers_pdu_req_write put v s = do {
     s \<leftarrow> write_function_code put fc_read_write_multiple_registers s;
     s \<leftarrow> writer_write_uint16 put (rwm_read_starting_address v) s;
     s \<leftarrow> writer_write_uint16 put (rwm_read_quantity_of_registers v) s;
     s \<leftarrow> writer_write_uint16 put (rwm_write_starting_address v) s;
     s \<leftarrow> writer_write_uint16 put (rwm_write_quantity_of_registers v) s;
     s \<leftarrow> writer_write_uint8 put (rwm_write_byte_count v) s;
     write_each_register put (rwm_values v) s }"

section \<open>Bytes the requests put\<close>

definition read_coils_pdu_req_body :: "read_coils_pdu_req \<Rightarrow> u8 list" where
  [encodings]: "read_coils_pdu_req_body v =
     [hi8 (rc_starting_address v), lo8 (rc_starting_address v), hi8 (rc_quantity_of_coils v),
      lo8 (rc_quantity_of_coils v)]"

definition read_discrete_inputs_pdu_req_body ::
    "read_discrete_inputs_pdu_req \<Rightarrow> u8 list" where
  [encodings]: "read_discrete_inputs_pdu_req_body v =
     [hi8 (rdi_starting_address v), lo8 (rdi_starting_address v),
      hi8 (rdi_quantity_of_discrete_inputs v), lo8 (rdi_quantity_of_discrete_inputs v)]"

definition read_holding_pdu_req_body :: "read_holding_pdu_req \<Rightarrow> u8 list" where
  [encodings]: "read_holding_pdu_req_body v =
     [hi8 (rh_starting_address v), lo8 (rh_starting_address v),
      hi8 (rh_quantity_of_registers v), lo8 (rh_quantity_of_registers v)]"

definition read_input_pdu_req_body :: "read_input_pdu_req \<Rightarrow> u8 list" where
  [encodings]: "read_input_pdu_req_body v =
     [hi8 (ri_starting_address v), lo8 (ri_starting_address v),
      hi8 (ri_quantity_of_registers v), lo8 (ri_quantity_of_registers v)]"

definition write_single_coil_pdu_req_body ::
    "write_single_coil_pdu_req \<Rightarrow> u8 list" where
  [encodings]: "write_single_coil_pdu_req_body v =
     [hi8 (wsc_address v), lo8 (wsc_address v), hi8 (wsc_value v), lo8 (wsc_value v)]"

definition write_single_register_pdu_req_body ::
    "write_single_register_pdu_req \<Rightarrow> u8 list" where
  [encodings]: "write_single_register_pdu_req_body v =
     [hi8 (wsr_address v), lo8 (wsr_address v), hi8 (wsr_value v), lo8 (wsr_value v)]"

definition write_multiple_coils_pdu_req_body ::
    "write_multiple_coils_pdu_req \<Rightarrow> u8 list" where
  [encodings]: "write_multiple_coils_pdu_req_body v =
     [hi8 (wmc_starting_address v), lo8 (wmc_starting_address v),
      hi8 (wmc_quantity_of_coils v), lo8 (wmc_quantity_of_coils v),
      wmc_byte_count v] @ wmc_values v"

definition write_multiple_registers_pdu_req_body ::
    "write_multiple_registers_pdu_req \<Rightarrow> u8 list" where
  [encodings]: "write_multiple_registers_pdu_req_body v =
     [hi8 (wmr_starting_address v), lo8 (wmr_starting_address v),
      hi8 (wmr_quantity_of_registers v), lo8 (wmr_quantity_of_registers v),
      wmr_byte_count v] @ be_bytes (wmr_values v)"

definition read_write_multiple_registers_pdu_req_body ::
    "read_write_multiple_registers_pdu_req \<Rightarrow> u8 list" where
  [encodings]: "read_write_multiple_registers_pdu_req_body v =
     [hi8 (rwm_read_starting_address v), lo8 (rwm_read_starting_address v),
      hi8 (rwm_read_quantity_of_registers v), lo8 (rwm_read_quantity_of_registers v),
      hi8 (rwm_write_starting_address v), lo8 (rwm_write_starting_address v),
      hi8 (rwm_write_quantity_of_registers v), lo8 (rwm_write_quantity_of_registers v),
      rwm_write_byte_count v] @ be_bytes (rwm_values v)"

lemma write_each_byte_form [write_forms]: "write_each_byte put bs = put_all put bs"
  by (induction bs; rule ext) (simp_all add: writer_write_byte_def put_all_unfold)

lemma write_each_register_form [write_forms]: "write_each_register put us = put_all put (be_bytes us)"
  by (induction us; rule ext) (simp_all add: writer_write_uint16_form put_all_unfold)

lemma read_coils_pdu_req_write_form [write_forms]:
  "read_coils_pdu_req_write put v = put_all put (fc_read_coils # read_coils_pdu_req_body v)"
  by (rule ext) (simp add: read_coils_pdu_req_write_def encodings write_forms put_all_unfold)

lemma read_discrete_inputs_pdu_req_write_form [write_forms]:
  "read_discrete_inputs_pdu_req_write put v = put_all put (fc_read_discrete_inputs # read_discrete_inputs_pdu_req_body v)"
  by (rule ext) (simp add: read_discrete_inputs_pdu_req_write_def encodings write_forms put_all_unfold)

lemma read_holding_pdu_req_write_form [write_forms]:
  "read_holding_pdu_req_write put v = put_all put (fc_read_holding_registers # read_holding_pdu_req_body v)"
  by (rule ext) (simp add: read_holding_pdu_req_write_def encodings write_forms put_all_unfold)

lemma read_input_pdu_req_write_form [write_forms]:
  "read_input_pdu_req_write put v = put_all put (fc_read_input_registers # read_input_pdu_req_body v)"
  by (rule ext) (simp add: read_input_pdu_req_write_def encodings write_forms put_all_unfold)

lemma write_single_coil_pdu_req_write_form [write_forms]:
  "write_single_coil_pdu_req_write put v =
     (\<lambda>s. if wsc_value v = 0x0000 \<or> wsc_value v = 0xFF00
          then put_all put (fc_write_single_coil # write_single_coil_pdu_req_body v) s else None)"
  by (rule ext) (simp add: write_single_coil_pdu_req_write_def encodings write_forms put_all_unfold)

lemma write_single_register_pdu_req_write_form [write_forms]:
  "write_single_register_pdu_req_write put v = put_all put (fc_write_single_register # write_single_register_pdu_req_body v)"
  by (rule ext) (simp add: write_single_register_pdu_req_write_def encodings write_forms put_all_unfold)

lemma write_multiple_coils_pdu_req_write_form [write_forms]:
  "write_multiple_coils_pdu_req_write put v = put_all put (fc_write_multiple_coils # write_multiple_coils_pdu_req_body v)"
  by (rule ext) (simp add: write_multiple_coils_pdu_req_write_def encodings write_forms put_all_unfold)

lemma write_multiple_registers_pdu_req_write_form [write_forms]:
  "write_multiple_registers_pdu_req_write put v = put_all put (fc_write_multiple_registers # write_multiple_registers_pdu_req_body v)"
  by (rule ext) (simp add: write_multiple_registers_pdu_req_write_def encodings write_forms put_all_unfold)

lemma read_write_multiple_registers_pdu_req_write_form [write_forms]:
  "read_write_multiple_registers_pdu_req_write put v = put_all put (fc_read_write_multiple_registers # read_write_multiple_registers_pdu_req_body v)"
  by (rule ext) (simp add: read_write_multiple_registers_pdu_req_write_def encodings write_forms put_all_unfold)

end
