(* ===== verification/Pdu_Request_Laws.thy ===== *)
theory Pdu_Request_Laws
  imports Pdu_Requests "HOL-Library.Sublist"
begin

text \<open>
  What reading and writing of a request promise each other, as the locale \<open>request_codec\<close>, and its
  interpretation for the nine request classes. Reading is done on the list of pending bytes; the
  simulation lemmas in \<open>byte_source\<close> carry the results to any source, the message buffer among
  them.
\<close>

section \<open>Contract\<close>

text \<open>A decoder that inverts an encoding \<open>body\<close> of the well-formed values and accepts nothing else.\<close>

locale pdu_decoder =
  fixes rdv :: "u8 list read8 \<Rightarrow> u8 list \<Rightarrow> 'v \<Rightarrow> (u8 list, 'v) read_result"
    and body :: "'v \<Rightarrow> u8 list"
    and wf :: "'v \<Rightarrow> bool"
  assumes read_body: "wf v \<Longrightarrow> rdv (list_read e) (body v @ rest) v0 = Some (no_error, v, rest)"
    and read_sound: "rdv checked_read bs v0 = Some (no_error, v, rest) \<Longrightarrow> wf v \<and> bs = body v @ rest"
begin

lemma body_unique:
  assumes "wf v" "wf v'" "body v @ rest = body v' @ rest'"
  shows "v = v' \<and> rest = rest'"
proof -
  have "rdv checked_read (body v @ rest) v = Some (no_error, v, rest)"
    by (rule read_body [OF assms(1)])
  moreover have "rdv checked_read (body v @ rest) v = Some (no_error, v', rest')"
    unfolding assms(3) by (rule read_body [OF assms(2)])
  ultimately show ?thesis by simp
qed

lemma read_success_iff:
  "rdv checked_read bs v0 = Some (no_error, v, rest) \<longleftrightarrow> wf v \<and> bs = body v @ rest"
  using read_body [of v checked_end rest v0] read_sound [of bs v0 v rest] by blast

end

text \<open>A request whose only other outcome is that the bytes ran out.\<close>

locale request_codec = pdu_decoder +
  assumes read_total: "(\<exists>v rest. rdv checked_read bs v0 = Some (no_error, v, rest))
      \<or> (\<exists>v. rdv checked_read bs v0 = Some (short_read, v, []))"
begin

lemma read_truncated:
  assumes "wf v" "strict_prefix p (body v)"
  shows "\<exists>v'. rdv checked_read p v0 = Some (short_read, v', [])"
proof (rule ccontr)
  assume "\<nexists>v'. rdv checked_read p v0 = Some (short_read, v', [])"
  then obtain v' rest where "rdv checked_read p v0 = Some (no_error, v', rest)"
    using read_total by blast
  then have v': "wf v'" "p = body v' @ rest"
    using read_sound by blast+
  obtain q where q: "body v = p @ q" "q \<noteq> []"
    using assms(2) by (auto simp: strict_prefix_def prefix_def)
  with v' have "body v @ [] = body v' @ (rest @ q)"
    by simp
  then have "[] = rest @ q"
    using body_unique [OF assms(1) v'(1)] by blast
  with q(2) show False by simp
qed

end

section \<open>Simulation\<close>

context byte_source
begin

lemma sim_read_coils_pdu_req:
  "source_ok r \<Longrightarrow> sim (read_coils_pdu_req_read rd r v)
     (read_coils_pdu_req_read (list_read at_end) (pending r) v)"
  unfolding read_coils_pdu_req_read_def by (intro sim_rules sim_primitives)

lemma sim_read_discrete_inputs_pdu_req:
  "source_ok r \<Longrightarrow> sim (read_discrete_inputs_pdu_req_read rd r v)
     (read_discrete_inputs_pdu_req_read (list_read at_end) (pending r) v)"
  unfolding read_discrete_inputs_pdu_req_read_def by (intro sim_rules sim_primitives)

lemma sim_read_holding_pdu_req:
  "source_ok r \<Longrightarrow> sim (read_holding_pdu_req_read rd r v)
     (read_holding_pdu_req_read (list_read at_end) (pending r) v)"
  unfolding read_holding_pdu_req_read_def by (intro sim_rules sim_primitives)

lemma sim_read_input_pdu_req:
  "source_ok r \<Longrightarrow> sim (read_input_pdu_req_read rd r v)
     (read_input_pdu_req_read (list_read at_end) (pending r) v)"
  unfolding read_input_pdu_req_read_def by (intro sim_rules sim_primitives)

lemma sim_write_single_coil_pdu_req:
  "source_ok r \<Longrightarrow> sim (write_single_coil_pdu_req_read rd r v)
     (write_single_coil_pdu_req_read (list_read at_end) (pending r) v)"
  unfolding write_single_coil_pdu_req_read_def by (intro sim_rules sim_primitives)

lemma sim_write_single_register_pdu_req:
  "source_ok r \<Longrightarrow> sim (write_single_register_pdu_req_read rd r v)
     (write_single_register_pdu_req_read (list_read at_end) (pending r) v)"
  unfolding write_single_register_pdu_req_read_def by (intro sim_rules sim_primitives)

lemma sim_write_multiple_coils_pdu_req:
  "source_ok r \<Longrightarrow> sim (write_multiple_coils_pdu_req_read rd r v)
     (write_multiple_coils_pdu_req_read (list_read at_end) (pending r) v)"
  unfolding write_multiple_coils_pdu_req_read_def by (intro sim_rules sim_primitives)

lemma sim_write_multiple_registers_pdu_req:
  "source_ok r \<Longrightarrow> sim (write_multiple_registers_pdu_req_read rd r v)
     (write_multiple_registers_pdu_req_read (list_read at_end) (pending r) v)"
  unfolding write_multiple_registers_pdu_req_read_def by (intro sim_rules sim_primitives)

lemma sim_read_write_multiple_registers_pdu_req:
  "source_ok r \<Longrightarrow> sim (read_write_multiple_registers_pdu_req_read rd r v)
     (read_write_multiple_registers_pdu_req_read (list_read at_end) (pending r) v)"
  unfolding read_write_multiple_registers_pdu_req_read_def by (intro sim_rules sim_primitives)

lemmas sim_requests =
  sim_read_coils_pdu_req
  sim_read_discrete_inputs_pdu_req
  sim_read_holding_pdu_req
  sim_read_input_pdu_req
  sim_write_single_coil_pdu_req
  sim_write_single_register_pdu_req
  sim_write_multiple_coils_pdu_req
  sim_write_multiple_registers_pdu_req
  sim_read_write_multiple_registers_pdu_req

end

section \<open>Interpretations\<close>

interpretation rc: request_codec read_coils_pdu_req_read read_coils_pdu_req_body "\<lambda>_. True"
  by unfold_locales
    (auto simp: read_coils_pdu_req_read_def encodings read_uint16_ok read_uint16_cases split: list.splits)

interpretation rdi: request_codec read_discrete_inputs_pdu_req_read read_discrete_inputs_pdu_req_body "\<lambda>_. True"
  by unfold_locales
    (auto simp: read_discrete_inputs_pdu_req_read_def encodings read_uint16_ok read_uint16_cases split: list.splits)

interpretation rh: request_codec read_holding_pdu_req_read read_holding_pdu_req_body "\<lambda>_. True"
  by unfold_locales
    (auto simp: read_holding_pdu_req_read_def encodings read_uint16_ok read_uint16_cases split: list.splits)

interpretation ri: request_codec read_input_pdu_req_read read_input_pdu_req_body "\<lambda>_. True"
  by unfold_locales
    (auto simp: read_input_pdu_req_read_def encodings read_uint16_ok read_uint16_cases split: list.splits)

interpretation wsc: request_codec write_single_coil_pdu_req_read write_single_coil_pdu_req_body "\<lambda>_. True"
  by unfold_locales
    (auto simp: write_single_coil_pdu_req_read_def encodings read_uint16_ok read_uint16_cases split: list.splits)

interpretation wsr: request_codec write_single_register_pdu_req_read write_single_register_pdu_req_body "\<lambda>_. True"
  by unfold_locales
    (auto simp: write_single_register_pdu_req_read_def encodings read_uint16_ok read_uint16_cases split: list.splits)

text \<open>The requests that carry values: the number of values is what the byte count says.\<close>

definition write_multiple_coils_pdu_req_wf :: "write_multiple_coils_pdu_req \<Rightarrow> bool" where
  "write_multiple_coils_pdu_req_wf v \<longleftrightarrow> length (wmc_values v) = unat (wmc_byte_count v)"

definition write_multiple_registers_pdu_req_wf :: "write_multiple_registers_pdu_req \<Rightarrow> bool" where
  "write_multiple_registers_pdu_req_wf v \<longleftrightarrow>
     length (wmr_values v) = unat (wmr_byte_count v) div 2"

definition read_write_multiple_registers_pdu_req_wf ::
    "read_write_multiple_registers_pdu_req \<Rightarrow> bool" where
  "read_write_multiple_registers_pdu_req_wf v \<longleftrightarrow>
     length (rwm_values v) = unat (rwm_write_byte_count v) div 2"

lemmas request_wf_defs =
  write_multiple_coils_pdu_req_wf_def
  write_multiple_registers_pdu_req_wf_def
  read_write_multiple_registers_pdu_req_wf_def

lemma be_bytes_decode_append:
  "2 * n \<le> length bs \<Longrightarrow> be_bytes (decode_registers bs n) @ drop (2 * n) bs = bs"
proof -
  assume "2 * n \<le> length bs"
  then have "be_bytes (decode_registers (take (2 * n) bs) n) = take (2 * n) bs"
    by (intro be_bytes_decode) simp
  moreover have "decode_registers (take (2 * n) bs) n = decode_registers bs n"
    using \<open>2 * n \<le> length bs\<close> by (simp add: decode_registers_def)
  ultimately show ?thesis by simp
qed

lemma write_multiple_coils_pdu_req_read_forms:
  "write_multiple_coils_pdu_req_read (list_read e) (a # b # c # d # n # bs) v0 =
     (case read_bytes (list_read e) bs (vector_resize (unat n) 0 (wmc_values v0)) of
        None \<Rightarrow> None
      | Some (ec, x, r) \<Rightarrow> moth_checked_return ec
          \<lparr>wmc_starting_address = be16 a b, wmc_quantity_of_coils = be16 c d, wmc_byte_count = n,
           wmc_values = x\<rparr> r (\<lambda>req r. Some (no_error, req, r)))"
  by (cases v0) (simp add: write_multiple_coils_pdu_req_read_def read_uint16_ok Let_def
      split: option.splits)

lemma write_multiple_coils_pdu_req_read_short:
  "length bs < 5 \<Longrightarrow>
   \<exists>v. write_multiple_coils_pdu_req_read checked_read bs v0 = Some (short_read, v, [])"
  by (auto simp: write_multiple_coils_pdu_req_read_def read_uint16_cases checked_end_def
      split: list.splits)

interpretation wmc: request_codec write_multiple_coils_pdu_req_read
    write_multiple_coils_pdu_req_body write_multiple_coils_pdu_req_wf
proof unfold_locales
  fix v e rest v0
  assume "write_multiple_coils_pdu_req_wf v"
  then show "write_multiple_coils_pdu_req_read (list_read e)
      (write_multiple_coils_pdu_req_body v @ rest) v0 = Some (no_error, v, rest)"
    by (simp add: request_wf_defs encodings write_multiple_coils_pdu_req_read_forms read_bytes_ok)
next
  fix bs v0 v rest
  assume ok: "write_multiple_coils_pdu_req_read checked_read bs v0 = Some (no_error, v, rest)"
  then have "5 \<le> length bs"
    using write_multiple_coils_pdu_req_read_short [of bs v0] by (fastforce simp: not_le [symmetric])
  then obtain a b c d n bs' where "bs = a # b # c # d # n # bs'"
    by (auto simp: Suc_le_length_iff numeral_eq_Suc)
  with ok show "write_multiple_coils_pdu_req_wf v \<and>
      bs = write_multiple_coils_pdu_req_body v @ rest"
    by (auto simp: write_multiple_coils_pdu_req_read_forms read_bytes_cases request_wf_defs
        encodings split: if_splits)
next
  fix bs v0
  show "(\<exists>v rest. write_multiple_coils_pdu_req_read checked_read bs v0 = Some (no_error, v, rest))
      \<or> (\<exists>v. write_multiple_coils_pdu_req_read checked_read bs v0 = Some (short_read, v, []))"
  proof (cases "length bs < 5")
    case False
    then obtain a b c d n bs' where "bs = a # b # c # d # n # bs'"
      by (auto simp: Suc_le_length_iff numeral_eq_Suc not_less)
    then show ?thesis
      by (simp add: write_multiple_coils_pdu_req_read_forms read_bytes_cases)
  qed (use write_multiple_coils_pdu_req_read_short in blast)
qed

lemma write_multiple_registers_pdu_req_read_forms:
  "write_multiple_registers_pdu_req_read (list_read e) (a # b # c # d # n # bs) v0 =
     (case read_uint16s (list_read e) bs (vector_resize (unat n div 2) 0 (wmr_values v0)) of
        None \<Rightarrow> None
      | Some (ec, x, r) \<Rightarrow> moth_checked_return ec
          \<lparr>wmr_starting_address = be16 a b, wmr_quantity_of_registers = be16 c d, wmr_byte_count = n,
           wmr_values = x\<rparr> r (\<lambda>req r. Some (no_error, req, r)))"
  by (cases v0) (simp add: write_multiple_registers_pdu_req_read_def read_uint16_ok Let_def
      split: option.splits)

lemma write_multiple_registers_pdu_req_read_short:
  "length bs < 5 \<Longrightarrow>
   \<exists>v. write_multiple_registers_pdu_req_read checked_read bs v0 = Some (short_read, v, [])"
  by (auto simp: write_multiple_registers_pdu_req_read_def read_uint16_cases checked_end_def
      split: list.splits)

interpretation wmr: request_codec write_multiple_registers_pdu_req_read
    write_multiple_registers_pdu_req_body write_multiple_registers_pdu_req_wf
proof unfold_locales
  fix v e rest v0
  assume "write_multiple_registers_pdu_req_wf v"
  then show "write_multiple_registers_pdu_req_read (list_read e)
      (write_multiple_registers_pdu_req_body v @ rest) v0 = Some (no_error, v, rest)"
    using decode_be_bytes [of "wmr_values v" rest]
    by (simp add: request_wf_defs encodings write_multiple_registers_pdu_req_read_forms
        read_uint16s_ok)
next
  fix bs v0 v rest
  assume ok: "write_multiple_registers_pdu_req_read checked_read bs v0 = Some (no_error, v, rest)"
  then have "5 \<le> length bs"
    using write_multiple_registers_pdu_req_read_short [of bs v0]
    by (fastforce simp: not_le [symmetric])
  then obtain a b c d n bs' where bs: "bs = a # b # c # d # n # bs'"
    by (auto simp: Suc_le_length_iff numeral_eq_Suc)
  show "write_multiple_registers_pdu_req_wf v \<and>
      bs = write_multiple_registers_pdu_req_body v @ rest"
    using ok
    by (cases rule: read_uint16s_cases [of "vector_resize (unat n div 2) 0 (wmr_values v0)" bs'])
      (auto simp: bs write_multiple_registers_pdu_req_read_forms request_wf_defs encodings
        be_bytes_decode_append)
next
  fix bs v0
  show "(\<exists>v rest. write_multiple_registers_pdu_req_read checked_read bs v0
        = Some (no_error, v, rest))
      \<or> (\<exists>v. write_multiple_registers_pdu_req_read checked_read bs v0
        = Some (short_read, v, []))"
  proof (cases "length bs < 5")
    case False
    then obtain a b c d n bs' where bs: "bs = a # b # c # d # n # bs'"
      by (auto simp: Suc_le_length_iff numeral_eq_Suc not_less)
    show ?thesis
      by (cases rule: read_uint16s_cases [of "vector_resize (unat n div 2) 0 (wmr_values v0)" bs'])
        (auto simp: bs write_multiple_registers_pdu_req_read_forms)
  qed (use write_multiple_registers_pdu_req_read_short in blast)
qed

lemma read_write_multiple_registers_pdu_req_read_forms:
  "read_write_multiple_registers_pdu_req_read (list_read e) (a # b # c # d # e1 # e2 # f1 # f2 # n # bs) v0 =
     (case read_uint16s (list_read e) bs (vector_resize (unat n div 2) 0 (rwm_values v0)) of
        None \<Rightarrow> None
      | Some (ec, x, r) \<Rightarrow> moth_checked_return ec
          \<lparr>rwm_read_starting_address = be16 a b, rwm_read_quantity_of_registers = be16 c d,
           rwm_write_starting_address = be16 e1 e2, rwm_write_quantity_of_registers = be16 f1 f2,
           rwm_write_byte_count = n,
           rwm_values = x\<rparr> r (\<lambda>req r. Some (no_error, req, r)))"
  by (cases v0) (simp add: read_write_multiple_registers_pdu_req_read_def read_uint16_ok Let_def
      split: option.splits)

lemma read_write_multiple_registers_pdu_req_read_short:
  "length bs < 9 \<Longrightarrow>
   \<exists>v. read_write_multiple_registers_pdu_req_read checked_read bs v0 = Some (short_read, v, [])"
  by (auto simp: read_write_multiple_registers_pdu_req_read_def read_uint16_cases checked_end_def
      split: list.splits)

interpretation rwm: request_codec read_write_multiple_registers_pdu_req_read
    read_write_multiple_registers_pdu_req_body read_write_multiple_registers_pdu_req_wf
proof unfold_locales
  fix v e rest v0
  assume "read_write_multiple_registers_pdu_req_wf v"
  then show "read_write_multiple_registers_pdu_req_read (list_read e)
      (read_write_multiple_registers_pdu_req_body v @ rest) v0 = Some (no_error, v, rest)"
    using decode_be_bytes [of "rwm_values v" rest]
    by (simp add: request_wf_defs encodings read_write_multiple_registers_pdu_req_read_forms
        read_uint16s_ok)
next
  fix bs v0 v rest
  assume ok: "read_write_multiple_registers_pdu_req_read checked_read bs v0 = Some (no_error, v, rest)"
  then have "9 \<le> length bs"
    using read_write_multiple_registers_pdu_req_read_short [of bs v0]
    by (fastforce simp: not_le [symmetric])
  then obtain a b c d e1 e2 f1 f2 n bs' where bs: "bs = a # b # c # d # e1 # e2 # f1 # f2 # n # bs'"
    by (auto simp: Suc_le_length_iff numeral_eq_Suc)
  show "read_write_multiple_registers_pdu_req_wf v \<and>
      bs = read_write_multiple_registers_pdu_req_body v @ rest"
    using ok
    by (cases rule: read_uint16s_cases [of "vector_resize (unat n div 2) 0 (rwm_values v0)" bs'])
      (auto simp: bs read_write_multiple_registers_pdu_req_read_forms request_wf_defs encodings
        be_bytes_decode_append)
next
  fix bs v0
  show "(\<exists>v rest. read_write_multiple_registers_pdu_req_read checked_read bs v0
        = Some (no_error, v, rest))
      \<or> (\<exists>v. read_write_multiple_registers_pdu_req_read checked_read bs v0
        = Some (short_read, v, []))"
  proof (cases "length bs < 9")
    case False
    then obtain a b c d e1 e2 f1 f2 n bs' where bs: "bs = a # b # c # d # e1 # e2 # f1 # f2 # n # bs'"
      by (auto simp: Suc_le_length_iff numeral_eq_Suc not_less)
    show ?thesis
      by (cases rule: read_uint16s_cases [of "vector_resize (unat n div 2) 0 (rwm_values v0)" bs'])
        (auto simp: bs read_write_multiple_registers_pdu_req_read_forms)
  qed (use read_write_multiple_registers_pdu_req_read_short in blast)
qed

end
