(* ===== verification/Pdu_Responses.thy ===== *)
theory Pdu_Responses
  imports Pdu_Base
begin

text \<open>
  Model of the nine response headers \<^verbatim>\<open>include/mothbus/pdu/resp_*.h\<close>. Five classes carry a byte
  count and a span of values into an array of the caller and have the same fields, so they share a
  record; each has its own constructor, \<^verbatim>\<open>read\<close> and \<^verbatim>\<open>write\<close>. The other four echo two 16-bit fields.
  Constructors with an \<^verbatim>\<open>assert\<close> return an option.
\<close>

section \<open>Responses that carry values\<close>

record values_pdu_resp =
  byte_count :: u8
  resp_values :: byte_span

subsection \<open>resp reading coils\<close>

type_synonym read_coils_pdu_resp = values_pdu_resp

definition read_coils_pdu_resp_ctor :: "byte_span \<Rightarrow> read_coils_pdu_resp" where
  "read_coils_pdu_resp_ctor v = \<lparr>byte_count = of_nat (span_size v), resp_values = v\<rparr>"

definition read_coils_pdu_resp_read ::
    "'r read8 \<Rightarrow> 'r \<Rightarrow> read_coils_pdu_resp \<Rightarrow> ('r, read_coils_pdu_resp) read_result" where
  "read_coils_pdu_resp_read rd r resp = do {
     (ec, x, r) \<leftarrow> rd r (byte_count resp);
     moth_checked_return ec (resp\<lparr>byte_count := x\<rparr>) r (\<lambda>resp r.
     if unat (byte_count resp) > span_size (resp_values resp)
     then Some (make_error_code too_many_bytes_received, resp, r)
     else do {
     let resp = (if unat (byte_count resp) < span_size (resp_values resp)
                 then resp\<lparr>resp_values := subspan0 (resp_values resp) (unat (byte_count resp))\<rparr> else resp);
     (ec, x, r) \<leftarrow> read_span rd r (resp_values resp);
     moth_checked_return ec (resp\<lparr>resp_values := x\<rparr>) r (\<lambda>resp r.
     Some (no_error, resp, r)) }) }"

definition read_coils_pdu_resp_write :: "'s put8 \<Rightarrow> read_coils_pdu_resp \<Rightarrow> 's \<Rightarrow> 's option" where
  "read_coils_pdu_resp_write put v s = do {
     s \<leftarrow> write_function_code put fc_read_coils s;
     s \<leftarrow> write_uint8 put (byte_count v) s;
     write_span put (resp_values v) s }"

subsection \<open>resp reading discrete inputs\<close>

type_synonym read_discrete_inputs_pdu_resp = values_pdu_resp

definition read_discrete_inputs_pdu_resp_ctor :: "byte_span \<Rightarrow> read_discrete_inputs_pdu_resp" where
  "read_discrete_inputs_pdu_resp_ctor v = \<lparr>byte_count = of_nat (span_size v), resp_values = v\<rparr>"

definition read_discrete_inputs_pdu_resp_read ::
    "'r read8 \<Rightarrow> 'r \<Rightarrow> read_discrete_inputs_pdu_resp \<Rightarrow> ('r, read_discrete_inputs_pdu_resp) read_result" where
  "read_discrete_inputs_pdu_resp_read rd r resp = do {
     (ec, x, r) \<leftarrow> rd r (byte_count resp);
     moth_checked_return ec (resp\<lparr>byte_count := x\<rparr>) r (\<lambda>resp r.
     if unat (byte_count resp) > span_size (resp_values resp)
     then Some (make_error_code too_many_bytes_received, resp, r)
     else do {
     let resp = (if unat (byte_count resp) < span_size (resp_values resp)
                 then resp\<lparr>resp_values := subspan0 (resp_values resp) (unat (byte_count resp))\<rparr> else resp);
     (ec, x, r) \<leftarrow> read_span rd r (resp_values resp);
     moth_checked_return ec (resp\<lparr>resp_values := x\<rparr>) r (\<lambda>resp r.
     Some (no_error, resp, r)) }) }"

definition read_discrete_inputs_pdu_resp_write :: "'s put8 \<Rightarrow> read_discrete_inputs_pdu_resp \<Rightarrow> 's \<Rightarrow> 's option" where
  "read_discrete_inputs_pdu_resp_write put v s = do {
     s \<leftarrow> write_function_code put fc_read_discrete_inputs s;
     s \<leftarrow> write_uint8 put (byte_count v) s;
     write_span put (resp_values v) s }"

subsection \<open>resp reading register\<close>

type_synonym read_holding_pdu_resp = values_pdu_resp

definition read_holding_pdu_resp_ctor :: "byte_span \<Rightarrow> read_holding_pdu_resp" where
  "read_holding_pdu_resp_ctor v = \<lparr>byte_count = of_nat (span_size v), resp_values = v\<rparr>"

definition read_holding_pdu_resp_read ::
    "'r read8 \<Rightarrow> 'r \<Rightarrow> read_holding_pdu_resp \<Rightarrow> ('r, read_holding_pdu_resp) read_result" where
  "read_holding_pdu_resp_read rd r resp = do {
     (ec, x, r) \<leftarrow> rd r (byte_count resp);
     moth_checked_return ec (resp\<lparr>byte_count := x\<rparr>) r (\<lambda>resp r.
     if unat (byte_count resp) > span_size (resp_values resp)
     then Some (make_error_code too_many_bytes_received, resp, r)
     else do {
     let resp = (if unat (byte_count resp) < span_size (resp_values resp)
                 then resp\<lparr>resp_values := subspan0 (resp_values resp) (unat (byte_count resp))\<rparr> else resp);
     (ec, x, r) \<leftarrow> read_span rd r (resp_values resp);
     moth_checked_return ec (resp\<lparr>resp_values := x\<rparr>) r (\<lambda>resp r.
     Some (no_error, resp, r)) }) }"

definition read_holding_pdu_resp_write :: "'s put8 \<Rightarrow> read_holding_pdu_resp \<Rightarrow> 's \<Rightarrow> 's option" where
  "read_holding_pdu_resp_write put v s = do {
     s \<leftarrow> write_function_code put fc_read_holding_registers s;
     s \<leftarrow> write_uint8 put (byte_count v) s;
     write_span put (resp_values v) s }"

subsection \<open>resp reading input register\<close>

type_synonym read_input_pdu_resp = values_pdu_resp

definition read_input_pdu_resp_ctor :: "byte_span \<Rightarrow> read_input_pdu_resp" where
  "read_input_pdu_resp_ctor v = \<lparr>byte_count = of_nat (span_size v), resp_values = v\<rparr>"

definition read_input_pdu_resp_read ::
    "'r read8 \<Rightarrow> 'r \<Rightarrow> read_input_pdu_resp \<Rightarrow> ('r, read_input_pdu_resp) read_result" where
  "read_input_pdu_resp_read rd r resp = do {
     (ec, x, r) \<leftarrow> rd r (byte_count resp);
     moth_checked_return ec (resp\<lparr>byte_count := x\<rparr>) r (\<lambda>resp r.
     if unat (byte_count resp) > span_size (resp_values resp)
     then Some (make_error_code too_many_bytes_received, resp, r)
     else do {
     let resp = (if unat (byte_count resp) < span_size (resp_values resp)
                 then resp\<lparr>resp_values := subspan0 (resp_values resp) (unat (byte_count resp))\<rparr> else resp);
     (ec, x, r) \<leftarrow> read_span rd r (resp_values resp);
     moth_checked_return ec (resp\<lparr>resp_values := x\<rparr>) r (\<lambda>resp r.
     Some (no_error, resp, r)) }) }"

definition read_input_pdu_resp_write :: "'s put8 \<Rightarrow> read_input_pdu_resp \<Rightarrow> 's \<Rightarrow> 's option" where
  "read_input_pdu_resp_write put v s = do {
     s \<leftarrow> write_function_code put fc_read_input_registers s;
     s \<leftarrow> write_uint8 put (byte_count v) s;
     write_span put (resp_values v) s }"

subsection \<open>resp reading writing multiple registers\<close>

type_synonym read_write_multiple_registers_pdu_resp = values_pdu_resp

definition read_write_multiple_registers_pdu_resp_ctor :: "byte_span \<Rightarrow> read_write_multiple_registers_pdu_resp" where
  "read_write_multiple_registers_pdu_resp_ctor v = \<lparr>byte_count = of_nat (span_size v), resp_values = v\<rparr>"

definition read_write_multiple_registers_pdu_resp_read ::
    "'r read8 \<Rightarrow> 'r \<Rightarrow> read_write_multiple_registers_pdu_resp \<Rightarrow> ('r, read_write_multiple_registers_pdu_resp) read_result" where
  "read_write_multiple_registers_pdu_resp_read rd r resp = do {
     (ec, x, r) \<leftarrow> rd r (byte_count resp);
     moth_checked_return ec (resp\<lparr>byte_count := x\<rparr>) r (\<lambda>resp r.
     if unat (byte_count resp) > span_size (resp_values resp)
     then Some (make_error_code too_many_bytes_received, resp, r)
     else do {
     let resp = (if unat (byte_count resp) < span_size (resp_values resp)
                 then resp\<lparr>resp_values := subspan0 (resp_values resp) (unat (byte_count resp))\<rparr> else resp);
     (ec, x, r) \<leftarrow> read_span rd r (resp_values resp);
     moth_checked_return ec (resp\<lparr>resp_values := x\<rparr>) r (\<lambda>resp r.
     Some (no_error, resp, r)) }) }"

definition read_write_multiple_registers_pdu_resp_write :: "'s put8 \<Rightarrow> read_write_multiple_registers_pdu_resp \<Rightarrow> 's \<Rightarrow> 's option" where
  "read_write_multiple_registers_pdu_resp_write put v s = do {
     s \<leftarrow> write_function_code put fc_read_write_multiple_registers s;
     s \<leftarrow> write_uint8 put (byte_count v) s;
     write_span put (resp_values v) s }"

section \<open>Responses that echo two fields\<close>

subsection \<open>resp writing single coil\<close>

record write_single_coil_pdu_resp =
  wscr_address :: u16
  wscr_value :: u16

definition write_single_coil_pdu_resp_ctor :: "u16 \<Rightarrow> u16 \<Rightarrow> write_single_coil_pdu_resp option" where
  "write_single_coil_pdu_resp_ctor address value =
     (if value = 0x0000 \<or> value = 0xFF00
      then Some \<lparr>wscr_address = address, wscr_value = value\<rparr> else None)"

definition write_single_coil_pdu_resp_read ::
    "'r read8 \<Rightarrow> 'r \<Rightarrow> write_single_coil_pdu_resp \<Rightarrow> ('r, write_single_coil_pdu_resp) read_result" where
  "write_single_coil_pdu_resp_read rd r resp = do {
     (ec, x, r) \<leftarrow> read_uint16 rd r (wscr_address resp);
     moth_checked_return ec (resp\<lparr>wscr_address := x\<rparr>) r (\<lambda>resp r. do {
     (ec, x, r) \<leftarrow> read_uint16 rd r (wscr_value resp);
     moth_checked_return ec (resp\<lparr>wscr_value := x\<rparr>) r (\<lambda>resp r.
     (if \<not> (wscr_value resp = 0x0000 \<or> wscr_value resp = 0xFF00)
      then Some (make_error_code illegal_data_value, resp, r)
      else Some (no_error, resp, r))) }) }"

definition write_single_coil_pdu_resp_write ::
    "'s put8 \<Rightarrow> write_single_coil_pdu_resp \<Rightarrow> 's \<Rightarrow> 's option" where
  "write_single_coil_pdu_resp_write put v s = do {
     s \<leftarrow> write_function_code put fc_write_single_coil s;
     s \<leftarrow> write_uint16 put (wscr_address v) s;
     write_uint16 put (wscr_value v) s }"

subsection \<open>resp writing single register\<close>

record write_single_register_pdu_resp =
  wsrr_address :: u16
  wsrr_value :: u16

definition write_single_register_pdu_resp_ctor :: "u16 \<Rightarrow> u16 \<Rightarrow> write_single_register_pdu_resp" where
  "write_single_register_pdu_resp_ctor address value = \<lparr>wsrr_address = address, wsrr_value = value\<rparr>"

definition write_single_register_pdu_resp_read ::
    "'r read8 \<Rightarrow> 'r \<Rightarrow> write_single_register_pdu_resp \<Rightarrow> ('r, write_single_register_pdu_resp) read_result" where
  "write_single_register_pdu_resp_read rd r resp = do {
     (ec, x, r) \<leftarrow> read_uint16 rd r (wsrr_address resp);
     moth_checked_return ec (resp\<lparr>wsrr_address := x\<rparr>) r (\<lambda>resp r. do {
     (ec, x, r) \<leftarrow> read_uint16 rd r (wsrr_value resp);
     moth_checked_return ec (resp\<lparr>wsrr_value := x\<rparr>) r (\<lambda>resp r.
     (if \<not> (wsrr_value resp = 0x0000 \<or> wsrr_value resp = 0xFF00)
      then Some (make_error_code illegal_data_value, resp, r)
      else Some (no_error, resp, r))) }) }"

definition write_single_register_pdu_resp_write ::
    "'s put8 \<Rightarrow> write_single_register_pdu_resp \<Rightarrow> 's \<Rightarrow> 's option" where
  "write_single_register_pdu_resp_write put v s = do {
     s \<leftarrow> write_function_code put fc_write_single_register s;
     s \<leftarrow> write_uint16 put (wsrr_address v) s;
     write_uint16 put (wsrr_value v) s }"

subsection \<open>resp writing multiple coils\<close>

record write_multiple_coils_pdu_resp =
  wmcr_starting_address :: u16
  wmcr_quantity_of_coils :: u16

definition write_multiple_coils_pdu_resp_ctor :: "u16 \<Rightarrow> u16 \<Rightarrow> write_multiple_coils_pdu_resp option" where
  "write_multiple_coils_pdu_resp_ctor starting_address quantity_of_coils =
     (if 1 \<le> quantity_of_coils \<and> quantity_of_coils \<le> 1968
      then Some \<lparr>wmcr_starting_address = starting_address, wmcr_quantity_of_coils = quantity_of_coils\<rparr> else None)"

definition write_multiple_coils_pdu_resp_read ::
    "'r read8 \<Rightarrow> 'r \<Rightarrow> write_multiple_coils_pdu_resp \<Rightarrow> ('r, write_multiple_coils_pdu_resp) read_result" where
  "write_multiple_coils_pdu_resp_read rd r resp = do {
     (ec, x, r) \<leftarrow> read_uint16 rd r (wmcr_starting_address resp);
     moth_checked_return ec (resp\<lparr>wmcr_starting_address := x\<rparr>) r (\<lambda>resp r. do {
     (ec, x, r) \<leftarrow> read_uint16 rd r (wmcr_quantity_of_coils resp);
     moth_checked_return ec (resp\<lparr>wmcr_quantity_of_coils := x\<rparr>) r (\<lambda>resp r.
     Some (no_error, resp, r)) }) }"

definition write_multiple_coils_pdu_resp_write ::
    "'s put8 \<Rightarrow> write_multiple_coils_pdu_resp \<Rightarrow> 's \<Rightarrow> 's option" where
  "write_multiple_coils_pdu_resp_write put v s = do {
     s \<leftarrow> write_function_code put fc_write_multiple_coils s;
     s \<leftarrow> writer_write_uint16 put (wmcr_starting_address v) s;
     writer_write_uint16 put (wmcr_quantity_of_coils v) s }"

subsection \<open>resp writing multiple registers\<close>

record write_multiple_registers_pdu_resp =
  wmrr_starting_address :: u16
  wmrr_quantity_of_registers :: u16

definition write_multiple_registers_pdu_resp_ctor :: "u16 \<Rightarrow> u16 \<Rightarrow> write_multiple_registers_pdu_resp option" where
  "write_multiple_registers_pdu_resp_ctor starting_address quantity_of_registers =
     (if 1 \<le> quantity_of_registers \<and> quantity_of_registers \<le> 123
      then Some \<lparr>wmrr_starting_address = starting_address, wmrr_quantity_of_registers = quantity_of_registers\<rparr> else None)"

definition write_multiple_registers_pdu_resp_read ::
    "'r read8 \<Rightarrow> 'r \<Rightarrow> write_multiple_registers_pdu_resp \<Rightarrow> ('r, write_multiple_registers_pdu_resp) read_result" where
  "write_multiple_registers_pdu_resp_read rd r resp = do {
     (ec, x, r) \<leftarrow> read_uint16 rd r (wmrr_starting_address resp);
     moth_checked_return ec (resp\<lparr>wmrr_starting_address := x\<rparr>) r (\<lambda>resp r. do {
     (ec, x, r) \<leftarrow> read_uint16 rd r (wmrr_quantity_of_registers resp);
     moth_checked_return ec (resp\<lparr>wmrr_quantity_of_registers := x\<rparr>) r (\<lambda>resp r.
     Some (no_error, resp, r)) }) }"

definition write_multiple_registers_pdu_resp_write ::
    "'s put8 \<Rightarrow> write_multiple_registers_pdu_resp \<Rightarrow> 's \<Rightarrow> 's option" where
  "write_multiple_registers_pdu_resp_write put v s = do {
     s \<leftarrow> write_function_code put fc_write_multiple_registers s;
     s \<leftarrow> writer_write_uint16 put (wmrr_starting_address v) s;
     writer_write_uint16 put (wmrr_quantity_of_registers v) s }"

section \<open>Bytes the responses put\<close>

definition values_pdu_resp_body :: "values_pdu_resp \<Rightarrow> u8 list" where
  [encodings]: "values_pdu_resp_body v = byte_count v # span_elems (resp_values v)"

definition write_single_coil_pdu_resp_body :: "write_single_coil_pdu_resp \<Rightarrow> u8 list" where
  [encodings]: "write_single_coil_pdu_resp_body v =
     [hi8 (wscr_address v), lo8 (wscr_address v), hi8 (wscr_value v), lo8 (wscr_value v)]"

definition write_single_register_pdu_resp_body :: "write_single_register_pdu_resp \<Rightarrow> u8 list" where
  [encodings]: "write_single_register_pdu_resp_body v =
     [hi8 (wsrr_address v), lo8 (wsrr_address v), hi8 (wsrr_value v), lo8 (wsrr_value v)]"

definition write_multiple_coils_pdu_resp_body :: "write_multiple_coils_pdu_resp \<Rightarrow> u8 list" where
  [encodings]: "write_multiple_coils_pdu_resp_body v =
     [hi8 (wmcr_starting_address v), lo8 (wmcr_starting_address v), hi8 (wmcr_quantity_of_coils v), lo8 (wmcr_quantity_of_coils v)]"

definition write_multiple_registers_pdu_resp_body :: "write_multiple_registers_pdu_resp \<Rightarrow> u8 list" where
  [encodings]: "write_multiple_registers_pdu_resp_body v =
     [hi8 (wmrr_starting_address v), lo8 (wmrr_starting_address v), hi8 (wmrr_quantity_of_registers v), lo8 (wmrr_quantity_of_registers v)]"

lemma read_coils_pdu_resp_write_form [write_forms]:
  "read_coils_pdu_resp_write put v = put_all put (fc_read_coils # values_pdu_resp_body v)"
  by (rule ext) (simp add: read_coils_pdu_resp_write_def encodings write_forms put_all_unfold)

lemma read_discrete_inputs_pdu_resp_write_form [write_forms]:
  "read_discrete_inputs_pdu_resp_write put v = put_all put (fc_read_discrete_inputs # values_pdu_resp_body v)"
  by (rule ext) (simp add: read_discrete_inputs_pdu_resp_write_def encodings write_forms put_all_unfold)

lemma read_holding_pdu_resp_write_form [write_forms]:
  "read_holding_pdu_resp_write put v = put_all put (fc_read_holding_registers # values_pdu_resp_body v)"
  by (rule ext) (simp add: read_holding_pdu_resp_write_def encodings write_forms put_all_unfold)

lemma read_input_pdu_resp_write_form [write_forms]:
  "read_input_pdu_resp_write put v = put_all put (fc_read_input_registers # values_pdu_resp_body v)"
  by (rule ext) (simp add: read_input_pdu_resp_write_def encodings write_forms put_all_unfold)

lemma read_write_multiple_registers_pdu_resp_write_form [write_forms]:
  "read_write_multiple_registers_pdu_resp_write put v = put_all put (fc_read_write_multiple_registers # values_pdu_resp_body v)"
  by (rule ext) (simp add: read_write_multiple_registers_pdu_resp_write_def encodings write_forms put_all_unfold)

lemma write_single_coil_pdu_resp_write_form [write_forms]:
  "write_single_coil_pdu_resp_write put v = put_all put (fc_write_single_coil # write_single_coil_pdu_resp_body v)"
  by (rule ext) (simp add: write_single_coil_pdu_resp_write_def encodings write_forms put_all_unfold)

lemma write_single_register_pdu_resp_write_form [write_forms]:
  "write_single_register_pdu_resp_write put v = put_all put (fc_write_single_register # write_single_register_pdu_resp_body v)"
  by (rule ext) (simp add: write_single_register_pdu_resp_write_def encodings write_forms put_all_unfold)

lemma write_multiple_coils_pdu_resp_write_form [write_forms]:
  "write_multiple_coils_pdu_resp_write put v = put_all put (fc_write_multiple_coils # write_multiple_coils_pdu_resp_body v)"
  by (rule ext) (simp add: write_multiple_coils_pdu_resp_write_def encodings write_forms put_all_unfold)

lemma write_multiple_registers_pdu_resp_write_form [write_forms]:
  "write_multiple_registers_pdu_resp_write put v = put_all put (fc_write_multiple_registers # write_multiple_registers_pdu_resp_body v)"
  by (rule ext) (simp add: write_multiple_registers_pdu_resp_write_def encodings write_forms put_all_unfold)

section \<open>Simulation\<close>

context byte_source
begin

lemma sim_read_coils_pdu_resp:
  "source_ok r \<Longrightarrow> sim (read_coils_pdu_resp_read rd r v)
     (read_coils_pdu_resp_read (list_read at_end) (pending r) v)"
  unfolding read_coils_pdu_resp_read_def by (intro sim_rules sim_primitives)

lemma sim_read_discrete_inputs_pdu_resp:
  "source_ok r \<Longrightarrow> sim (read_discrete_inputs_pdu_resp_read rd r v)
     (read_discrete_inputs_pdu_resp_read (list_read at_end) (pending r) v)"
  unfolding read_discrete_inputs_pdu_resp_read_def by (intro sim_rules sim_primitives)

lemma sim_read_holding_pdu_resp:
  "source_ok r \<Longrightarrow> sim (read_holding_pdu_resp_read rd r v)
     (read_holding_pdu_resp_read (list_read at_end) (pending r) v)"
  unfolding read_holding_pdu_resp_read_def by (intro sim_rules sim_primitives)

lemma sim_read_input_pdu_resp:
  "source_ok r \<Longrightarrow> sim (read_input_pdu_resp_read rd r v)
     (read_input_pdu_resp_read (list_read at_end) (pending r) v)"
  unfolding read_input_pdu_resp_read_def by (intro sim_rules sim_primitives)

lemma sim_read_write_multiple_registers_pdu_resp:
  "source_ok r \<Longrightarrow> sim (read_write_multiple_registers_pdu_resp_read rd r v)
     (read_write_multiple_registers_pdu_resp_read (list_read at_end) (pending r) v)"
  unfolding read_write_multiple_registers_pdu_resp_read_def by (intro sim_rules sim_primitives)

lemma sim_write_single_coil_pdu_resp:
  "source_ok r \<Longrightarrow> sim (write_single_coil_pdu_resp_read rd r v)
     (write_single_coil_pdu_resp_read (list_read at_end) (pending r) v)"
  unfolding write_single_coil_pdu_resp_read_def by (intro sim_rules sim_primitives)

lemma sim_write_single_register_pdu_resp:
  "source_ok r \<Longrightarrow> sim (write_single_register_pdu_resp_read rd r v)
     (write_single_register_pdu_resp_read (list_read at_end) (pending r) v)"
  unfolding write_single_register_pdu_resp_read_def by (intro sim_rules sim_primitives)

lemma sim_write_multiple_coils_pdu_resp:
  "source_ok r \<Longrightarrow> sim (write_multiple_coils_pdu_resp_read rd r v)
     (write_multiple_coils_pdu_resp_read (list_read at_end) (pending r) v)"
  unfolding write_multiple_coils_pdu_resp_read_def by (intro sim_rules sim_primitives)

lemma sim_write_multiple_registers_pdu_resp:
  "source_ok r \<Longrightarrow> sim (write_multiple_registers_pdu_resp_read rd r v)
     (write_multiple_registers_pdu_resp_read (list_read at_end) (pending r) v)"
  unfolding write_multiple_registers_pdu_resp_read_def by (intro sim_rules sim_primitives)

lemmas sim_responses =
  sim_read_coils_pdu_resp
  sim_read_discrete_inputs_pdu_resp
  sim_read_holding_pdu_resp
  sim_read_input_pdu_resp
  sim_read_write_multiple_registers_pdu_resp
  sim_write_single_coil_pdu_resp
  sim_write_single_register_pdu_resp
  sim_write_multiple_coils_pdu_resp
  sim_write_multiple_registers_pdu_resp

end

section \<open>Reading values\<close>

text \<open>The five classes read alike.\<close>

lemma values_reads_eq:
  "read_discrete_inputs_pdu_resp_read = read_coils_pdu_resp_read"
  "read_holding_pdu_resp_read = read_coils_pdu_resp_read"
  "read_input_pdu_resp_read = read_coils_pdu_resp_read"
  "read_write_multiple_registers_pdu_resp_read = read_coils_pdu_resp_read"
  by (intro ext, simp add: read_discrete_inputs_pdu_resp_read_def read_holding_pdu_resp_read_def
      read_input_pdu_resp_read_def read_write_multiple_registers_pdu_resp_read_def
      read_coils_pdu_resp_read_def)+

lemma values_ctors_eq:
  "read_discrete_inputs_pdu_resp_ctor = read_coils_pdu_resp_ctor"
  "read_holding_pdu_resp_ctor = read_coils_pdu_resp_ctor"
  "read_input_pdu_resp_ctor = read_coils_pdu_resp_ctor"
  "read_write_multiple_registers_pdu_resp_ctor = read_coils_pdu_resp_ctor"
  by (intro ext, simp add: read_discrete_inputs_pdu_resp_ctor_def read_holding_pdu_resp_ctor_def
      read_input_pdu_resp_ctor_def read_write_multiple_registers_pdu_resp_ctor_def
      read_coils_pdu_resp_ctor_def)+

text \<open>A response object over the whole of the caller's array \<open>out\<close>, and what the three outcomes of
  reading make of it: too many values announced, values cut short, all values there.\<close>

abbreviation values_over :: "u8 \<Rightarrow> u8 list \<Rightarrow> values_pdu_resp" where
  "values_over n out \<equiv> \<lparr>byte_count = n, resp_values = whole_span out\<rparr>"

lemma values_read_nothing:
  "read_coils_pdu_resp_read checked_read [] resp = Some (short_read, resp, [])"
  by (simp add: read_coils_pdu_resp_read_def checked_end_def)

lemma values_read_too_many:
  "length out < unat n \<Longrightarrow>
   read_coils_pdu_resp_read (list_read e) (n # bs) (values_over n0 out)
     = Some (make_error_code too_many_bytes_received, values_over n out, bs)"
  by (simp add: read_coils_pdu_resp_read_def whole_span_def)

lemma values_read_ok:
  "unat n \<le> length out \<Longrightarrow> unat n \<le> length bs \<Longrightarrow>
   read_coils_pdu_resp_read (list_read e) (n # bs) (values_over n0 out)
     = Some (no_error, \<lparr>byte_count = n,
         resp_values = \<lparr>span_array = take (unat n) bs @ drop (unat n) out, span_size = unat n\<rparr>\<rparr>,
         drop (unat n) bs)"
  by (auto simp: read_coils_pdu_resp_read_def whole_span_def subspan0_def read_span_def
      span_elems_def read_bytes_ok)

lemma values_read_short:
  "unat n \<le> length out \<Longrightarrow> length bs < unat n \<Longrightarrow>
   read_coils_pdu_resp_read checked_read (n # bs) (values_over n0 out)
     = Some (short_read, \<lparr>byte_count = n,
         resp_values = \<lparr>span_array = bs @ drop (length bs) out, span_size = unat n\<rparr>\<rparr>, [])"
  by (auto simp: read_coils_pdu_resp_read_def whole_span_def subspan0_def read_span_def
      span_elems_def read_bytes_short drop_take take_drop_rejoin)

lemma values_ctor_over: "read_coils_pdu_resp_ctor (whole_span out) = values_over (of_nat (length out)) out"
  by (simp add: read_coils_pdu_resp_ctor_def whole_span_def)

section \<open>Reading echoes\<close>

lemma write_single_coil_pdu_resp_read_ok:
  "write_single_coil_pdu_resp_read (list_read e) (a # b # c # d # bs) resp
     = Some ((if be16 c d = 0x0000 \<or> be16 c d = 0xFF00 then no_error
       else make_error_code illegal_data_value),
         \<lparr>wscr_address = be16 a b, wscr_value = be16 c d\<rparr>, bs)"
  by (cases resp) (simp add: write_single_coil_pdu_resp_read_def read_uint16_ok)

lemma write_single_coil_pdu_resp_read_short:
  "length bs < 4 \<Longrightarrow> \<exists>resp'. write_single_coil_pdu_resp_read checked_read bs resp = Some (short_read, resp', [])"
  by (auto simp: write_single_coil_pdu_resp_read_def read_uint16_cases split: list.splits)

lemma write_single_register_pdu_resp_read_ok:
  "write_single_register_pdu_resp_read (list_read e) (a # b # c # d # bs) resp
     = Some ((if be16 c d = 0x0000 \<or> be16 c d = 0xFF00 then no_error
       else make_error_code illegal_data_value),
         \<lparr>wsrr_address = be16 a b, wsrr_value = be16 c d\<rparr>, bs)"
  by (cases resp) (simp add: write_single_register_pdu_resp_read_def read_uint16_ok)

lemma write_single_register_pdu_resp_read_short:
  "length bs < 4 \<Longrightarrow> \<exists>resp'. write_single_register_pdu_resp_read checked_read bs resp = Some (short_read, resp', [])"
  by (auto simp: write_single_register_pdu_resp_read_def read_uint16_cases split: list.splits)

lemma write_multiple_coils_pdu_resp_read_ok:
  "write_multiple_coils_pdu_resp_read (list_read e) (a # b # c # d # bs) resp
     = Some (no_error,
         \<lparr>wmcr_starting_address = be16 a b, wmcr_quantity_of_coils = be16 c d\<rparr>, bs)"
  by (cases resp) (simp add: write_multiple_coils_pdu_resp_read_def read_uint16_ok)

lemma write_multiple_coils_pdu_resp_read_short:
  "length bs < 4 \<Longrightarrow> \<exists>resp'. write_multiple_coils_pdu_resp_read checked_read bs resp = Some (short_read, resp', [])"
  by (auto simp: write_multiple_coils_pdu_resp_read_def read_uint16_cases split: list.splits)

lemma write_multiple_registers_pdu_resp_read_ok:
  "write_multiple_registers_pdu_resp_read (list_read e) (a # b # c # d # bs) resp
     = Some (no_error,
         \<lparr>wmrr_starting_address = be16 a b, wmrr_quantity_of_registers = be16 c d\<rparr>, bs)"
  by (cases resp) (simp add: write_multiple_registers_pdu_resp_read_def read_uint16_ok)

lemma write_multiple_registers_pdu_resp_read_short:
  "length bs < 4 \<Longrightarrow> \<exists>resp'. write_multiple_registers_pdu_resp_read checked_read bs resp = Some (short_read, resp', [])"
  by (auto simp: write_multiple_registers_pdu_resp_read_def read_uint16_cases split: list.splits)

section \<open>Properties\<close>

text \<open>Reading a response with values always has a defined result and never changes the size of the
  caller's array. Success means that the announced number of values was there, that it is at most the
  size of the array, and that exactly these values were stored in front of the untouched rest.\<close>

lemma values_read_outcome:
  "\<exists>ec resp rest. read_coils_pdu_resp_read checked_read bs (read_coils_pdu_resp_ctor (whole_span out))
      = Some (ec, resp, rest)
    \<and> length (span_array (resp_values resp)) = length out
    \<and> (failed ec \<or> (\<exists>vals. bs = byte_count resp # vals @ rest \<and> length vals = unat (byte_count resp)
         \<and> length vals \<le> length out \<and> span_array (resp_values resp) = vals @ drop (length vals) out))"
proof (cases bs)
  case Nil
  then show ?thesis
    by (simp add: values_ctor_over values_read_nothing) (simp add: whole_span_def)
next
  case (Cons n bs')
  consider "length out < unat n" | "unat n \<le> length out" "unat n \<le> length bs'"
    | "unat n \<le> length out" "length bs' < unat n"
    by linarith
  then show ?thesis
  proof cases
    case 1
    with Cons show ?thesis
      by (simp add: values_ctor_over values_read_too_many) (simp add: whole_span_def)
  next
    case 2
    with Cons show ?thesis
      by (simp add: values_ctor_over values_read_ok)
        (metis append_take_drop_id length_take min.absorb2)
  next
    case 3
    with Cons show ?thesis
      by (simp add: values_ctor_over values_read_short)
  qed
qed

text \<open>A response of more values than the caller's array holds is refused before any of them is
  stored.\<close>

lemma values_read_refuses:
  "length out < unat n \<Longrightarrow>
   read_coils_pdu_resp_read checked_read (n # vals) (read_coils_pdu_resp_ctor (whole_span out)) =
     Some (make_error_code too_many_bytes_received, \<lparr>byte_count = n, resp_values = whole_span out\<rparr>, vals)"
  by (simp add: values_ctor_over values_read_too_many)

end
