(* ===== verification/Pdu.thy ===== *)
theory Pdu
  imports Pdu_Request_Laws Pdu_Responses
begin

text \<open>
  Model of the rest of \<^verbatim>\<open>include/mothbus/pdu.h\<close>: the request variant and its reader, exception
  responses, and the reader of a response of an expected kind.
\<close>

section \<open>The request variant\<close>

record not_implemented =
  ni_fc :: u8

datatype pdu_req =
    Read_coils read_coils_pdu_req
  | Read_discrete_inputs read_discrete_inputs_pdu_req
  | Read_holding read_holding_pdu_req
  | Read_input read_input_pdu_req
  | Write_single_coil write_single_coil_pdu_req
  | Write_single_register write_single_register_pdu_req
  | Write_multiple_coils write_multiple_coils_pdu_req
  | Write_multiple_registers write_multiple_registers_pdu_req
  | Read_write_multiple_registers read_write_multiple_registers_pdu_req
  | Not_implemented not_implemented

text \<open>A default constructed variant holds its first alternative.\<close>

definition pdu_req_init :: pdu_req where
  "pdu_req_init = Read_coils read_coils_pdu_req_init"

text \<open>One alternative of the variant's type list: its function code and the reading of a value of
  its class into a fresh object (\<^verbatim>\<open>Head real{}; read(reader, real)\<close>), or the class
  \<^verbatim>\<open>not_implemented\<close>.\<close>

datatype (dead 'r) alternative =
    Head function_code "'r \<Rightarrow> ('r, pdu_req) read_result"
  | Head_not_implemented

definition read_head ::
    "('v \<Rightarrow> pdu_req) \<Rightarrow> 'v \<Rightarrow> ('r \<Rightarrow> 'v \<Rightarrow> ('r, 'v) read_result) \<Rightarrow> 'r \<Rightarrow> ('r, pdu_req) read_result" where
  "read_head con obj rd r = do { (ec, obj, r) \<leftarrow> rd r obj; Some (ec, con obj, r) }"

definition pdu_req_alternatives :: "'r read8 \<Rightarrow> 'r alternative list" where
  "pdu_req_alternatives rd =
     [Head fc_read_coils
        (read_head Read_coils read_coils_pdu_req_init (read_coils_pdu_req_read rd)),
      Head fc_read_discrete_inputs
        (read_head Read_discrete_inputs read_discrete_inputs_pdu_req_init
           (read_discrete_inputs_pdu_req_read rd)),
      Head fc_read_holding_registers
        (read_head Read_holding read_holding_pdu_req_init (read_holding_pdu_req_read rd)),
      Head fc_read_input_registers
        (read_head Read_input read_input_pdu_req_init (read_input_pdu_req_read rd)),
      Head fc_write_single_coil
        (read_head Write_single_coil write_single_coil_pdu_req_init
           (write_single_coil_pdu_req_read rd)),
      Head fc_write_single_register
        (read_head Write_single_register write_single_register_pdu_req_init
           (write_single_register_pdu_req_read rd)),
      Head fc_write_multiple_coils
        (read_head Write_multiple_coils write_multiple_coils_pdu_req_init
           (write_multiple_coils_pdu_req_read rd)),
      Head fc_write_multiple_registers
        (read_head Write_multiple_registers write_multiple_registers_pdu_req_init
           (write_multiple_registers_pdu_req_read rd)),
      Head fc_read_write_multiple_registers
        (read_head Read_write_multiple_registers read_write_multiple_registers_pdu_req_init
           (read_write_multiple_registers_pdu_req_read rd)),
      Head_not_implemented]"

text \<open>The recursion over the type list. The empty list has no instance of the template.\<close>

fun read_pdu_variant ::
    "'r alternative list \<Rightarrow> 'r \<Rightarrow> pdu_req \<Rightarrow> function_code \<Rightarrow> ('r, pdu_req) read_result" where
  "read_pdu_variant [] r resp functionCode = None"
| "read_pdu_variant (Head_not_implemented # tail) r resp functionCode =
     Some (make_error_code illegal_function, Not_implemented \<lparr>ni_fc = 0\<rparr>, r)"
| "read_pdu_variant (Head fc read_real # tail) r resp functionCode =
     (if fc = functionCode then do {
        (ec, obj, r) \<leftarrow> read_real r;
        if failed ec then Some (ec, resp, r) else Some (no_error, obj, r)
      }
      else read_pdu_variant tail r resp functionCode)"

definition read_pdu_req :: "'r read8 \<Rightarrow> 'r \<Rightarrow> pdu_req \<Rightarrow> ('r, pdu_req) read_result" where
  "read_pdu_req rd r req = do {
     (ec, functionCode, r) \<leftarrow> read_function_code rd r 0;
     moth_checked_return ec req r (\<lambda>req r.
       read_pdu_variant (pdu_req_alternatives rd) r req functionCode)
   }"

section \<open>Exception responses\<close>

record pdu_exception_resp =
  exc_fc :: function_code
  exceptionCode :: modbus_exception_code

definition pdu_exception_resp_write :: "'s put8 \<Rightarrow> pdu_exception_resp \<Rightarrow> 's \<Rightarrow> 's option" where
  "pdu_exception_resp_write put v s = do {
     let error_function_code = exc_fc v;
     let error_function_code = error_function_code OR 0x80;
     s \<leftarrow> write_uint8 put error_function_code s;
     write_modbus_exception_code put (exceptionCode v) s
   }"

text \<open>\<^verbatim>\<open>read(reader, pdu_resp<Response>&)\<close>: the function code and the reader of the class
  \<^verbatim>\<open>Response\<close> are arguments.\<close>

definition read_pdu_resp ::
    "'r read8 \<Rightarrow> function_code \<Rightarrow> ('r read8 \<Rightarrow> 'r \<Rightarrow> 'v \<Rightarrow> ('r, 'v) read_result) \<Rightarrow> 'r \<Rightarrow> 'v \<Rightarrow>
     ('r, 'v) read_result" where
  "read_pdu_resp rd response_fc response_read r resp = do {
     (ec, fC, r) \<leftarrow> rd r 0;
     moth_checked_return ec resp r (\<lambda>resp r.
     if fC AND 0x80 \<noteq> 0 then do {
       (ec, code, r) \<leftarrow> read_modbus_exception_code rd r 0;
       moth_checked_return ec resp r (\<lambda>resp r. Some (make_error_code code, resp, r))
     }
     else if fC \<noteq> response_fc then Some (make_error_code invalid_response, resp, r)
     else response_read rd r resp)
   }"

section \<open>Encoding of the variant\<close>

text \<open>What the writer of the held alternative puts, and which values are well formed: the value
  counts agree with the byte counts, and a coil is written as on or off.\<close>

fun pdu_req_fc :: "pdu_req \<Rightarrow> function_code" where
  "pdu_req_fc (Read_coils _) = fc_read_coils"
| "pdu_req_fc (Read_discrete_inputs _) = fc_read_discrete_inputs"
| "pdu_req_fc (Read_holding _) = fc_read_holding_registers"
| "pdu_req_fc (Read_input _) = fc_read_input_registers"
| "pdu_req_fc (Write_single_coil _) = fc_write_single_coil"
| "pdu_req_fc (Write_single_register _) = fc_write_single_register"
| "pdu_req_fc (Write_multiple_coils _) = fc_write_multiple_coils"
| "pdu_req_fc (Write_multiple_registers _) = fc_write_multiple_registers"
| "pdu_req_fc (Read_write_multiple_registers _) = fc_read_write_multiple_registers"
| "pdu_req_fc (Not_implemented n) = ni_fc n"

fun pdu_req_body :: "pdu_req \<Rightarrow> u8 list" where
  "pdu_req_body (Read_coils v) = read_coils_pdu_req_body v"
| "pdu_req_body (Read_discrete_inputs v) = read_discrete_inputs_pdu_req_body v"
| "pdu_req_body (Read_holding v) = read_holding_pdu_req_body v"
| "pdu_req_body (Read_input v) = read_input_pdu_req_body v"
| "pdu_req_body (Write_single_coil v) = write_single_coil_pdu_req_body v"
| "pdu_req_body (Write_single_register v) = write_single_register_pdu_req_body v"
| "pdu_req_body (Write_multiple_coils v) = write_multiple_coils_pdu_req_body v"
| "pdu_req_body (Write_multiple_registers v) = write_multiple_registers_pdu_req_body v"
| "pdu_req_body (Read_write_multiple_registers v) = read_write_multiple_registers_pdu_req_body v"
| "pdu_req_body (Not_implemented _) = []"

fun pdu_req_wf :: "pdu_req \<Rightarrow> bool" where
  "pdu_req_wf (Write_multiple_coils v) = write_multiple_coils_pdu_req_wf v"
| "pdu_req_wf (Write_multiple_registers v) = write_multiple_registers_pdu_req_wf v"
| "pdu_req_wf (Read_write_multiple_registers v) = read_write_multiple_registers_pdu_req_wf v"
| "pdu_req_wf (Not_implemented _) = False"
| "pdu_req_wf _ = True"

text \<open>\<^verbatim>\<open>pdu::write(writer, request)\<close> for the class the variant holds; there is no writer for
  \<^verbatim>\<open>not_implemented\<close>.\<close>

fun write_pdu_req :: "'s put8 \<Rightarrow> pdu_req \<Rightarrow> 's \<Rightarrow> 's option" where
  "write_pdu_req put (Read_coils v) s = read_coils_pdu_req_write put v s"
| "write_pdu_req put (Read_discrete_inputs v) s = read_discrete_inputs_pdu_req_write put v s"
| "write_pdu_req put (Read_holding v) s = read_holding_pdu_req_write put v s"
| "write_pdu_req put (Read_input v) s = read_input_pdu_req_write put v s"
| "write_pdu_req put (Write_single_coil v) s = write_single_coil_pdu_req_write put v s"
| "write_pdu_req put (Write_single_register v) s = write_single_register_pdu_req_write put v s"
| "write_pdu_req put (Write_multiple_coils v) s = write_multiple_coils_pdu_req_write put v s"
| "write_pdu_req put (Write_multiple_registers v) s = write_multiple_registers_pdu_req_write put v s"
| "write_pdu_req put (Read_write_multiple_registers v) s =
     read_write_multiple_registers_pdu_req_write put v s"
| "write_pdu_req put (Not_implemented _) s = None"

fun pdu_req_writable :: "pdu_req \<Rightarrow> bool" where
  "pdu_req_writable (Write_single_coil v) \<longleftrightarrow> wsc_value v = 0x0000 \<or> wsc_value v = 0xFF00"
| "pdu_req_writable (Not_implemented _) \<longleftrightarrow> False"
| "pdu_req_writable _ \<longleftrightarrow> True"

definition pdu_req_bytes :: "pdu_req \<Rightarrow> u8 list" where
  "pdu_req_bytes v = pdu_req_fc v # pdu_req_body v"

lemma write_pdu_req_form:
  "write_pdu_req put v s =
     (if pdu_req_writable v then put_all put (pdu_req_bytes v) s else None)"
  by (cases v) (simp_all add: write_forms pdu_req_bytes_def)

lemma pdu_exception_resp_write_form [write_forms]:
  "pdu_exception_resp_write put v = put_all put [exc_fc v OR 0x80, word_of_int (exceptionCode v)]"
  by (rule ext) (simp add: pdu_exception_resp_write_def write_forms put_all_unfold)

section \<open>Reading the variant\<close>

context byte_source
begin

lemma sim_head:
  "(\<And>r v. source_ok r \<Longrightarrow> sim (f r v) (g (pending r) v)) \<Longrightarrow> source_ok r \<Longrightarrow>
   sim (read_head con obj f r) (read_head con obj g (pending r))"
  unfolding read_head_def by (intro sim_rules)

lemma sim_pdu_variant:
  assumes "list_all2 (\<lambda>a b. case a of
        Head fc f \<Rightarrow> (\<exists>g. b = Head fc g \<and> (\<forall>r. source_ok r \<longrightarrow> sim (f r) (g (pending r))))
      | Head_not_implemented \<Rightarrow> b = Head_not_implemented) as bs"
    and "source_ok r"
  shows "sim (read_pdu_variant as r v fc) (read_pdu_variant bs (pending r) v fc)"
  using assms
proof (induction as bs rule: list_all2_induct)
  case Nil
  then show ?case by (simp add: sim_rules)
next
  case (Cons a as b bs)
  then show ?case
    by (cases a) (auto intro!: sim_rules)
qed

lemma sim_pdu_req:
  "source_ok r \<Longrightarrow> sim (read_pdu_req rd r v) (read_pdu_req (list_read at_end) (pending r) v)"
  unfolding read_pdu_req_def pdu_req_alternatives_def
  by (intro sim_rules sim_function_code sim_pdu_variant) (auto intro!: sim_head sim_requests)

lemma sim_pdu_resp:
  "(\<And>r v. source_ok r \<Longrightarrow> sim (rsp rd r v) (rsp' (list_read at_end) (pending r) v)) \<Longrightarrow>
   source_ok r \<Longrightarrow>
   sim (read_pdu_resp rd fc rsp r v) (read_pdu_resp (list_read at_end) fc rsp' (pending r) v)"
  unfolding read_pdu_resp_def by (intro sim_rules sim_primitives)

end

section \<open>Requests read from pending bytes\<close>

definition supported_fc :: "function_code \<Rightarrow> bool" where
  "supported_fc fc \<longleftrightarrow> fc \<in> {fc_read_coils, fc_read_discrete_inputs, fc_read_holding_registers,
     fc_read_input_registers, fc_write_single_coil, fc_write_single_register,
     fc_write_multiple_coils, fc_write_multiple_registers, fc_read_write_multiple_registers}"

context request_codec
begin

lemma head_outcome:
  "(\<exists>v rest. wf v \<and> bs = body v @ rest \<and>
      read_head con v0 (rdv checked_read) bs = Some (no_error, con v, rest))
   \<or> (\<exists>v. read_head con v0 (rdv checked_read) bs = Some (short_read, con v, []))"
  using read_total [of bs v0] read_sound [of bs v0] by (fastforce simp: read_head_def)

end

lemma read_pdu_req_Nil: "read_pdu_req checked_read [] v0 = Some (short_read, v0, [])"
  by (simp add: read_pdu_req_def read_forms)

lemma read_pdu_req_Cons:
  "read_pdu_req (list_read e) (fc # bs) v0 =
     read_pdu_variant (pdu_req_alternatives (list_read e)) bs v0 fc"
  by (simp add: read_pdu_req_def read_forms)

lemmas codec_bodies =
  rc.read_body rdi.read_body rh.read_body ri.read_body wsc.read_body wsr.read_body
  wmc.read_body wmr.read_body rwm.read_body

lemma read_pdu_req_bytes:
  "pdu_req_wf v \<Longrightarrow> read_pdu_req (list_read e) (pdu_req_bytes v @ rest) v0 = Some (no_error, v, rest)"
  by (cases v) (simp_all add: pdu_req_bytes_def read_pdu_req_Cons pdu_req_alternatives_def
      read_head_def codec_bodies protocol_consts)

lemma read_pdu_req_unsupported:
  "\<not> supported_fc fc \<Longrightarrow> read_pdu_req (list_read e) (fc # bs) v0 =
     Some (make_error_code illegal_function, Not_implemented \<lparr>ni_fc = 0\<rparr>, bs)"
  by (auto simp: supported_fc_def read_pdu_req_Cons pdu_req_alternatives_def)

lemmas variant_simps = read_pdu_req_Cons pdu_req_alternatives_def pdu_req_bytes_def protocol_consts

lemma read_pdu_req_supported:
  assumes "supported_fc fc"
  shows "(\<exists>v rest. pdu_req_wf v \<and> fc # bs = pdu_req_bytes v @ rest \<and>
      read_pdu_req checked_read (fc # bs) v0 = Some (no_error, v, rest))
    \<or> read_pdu_req checked_read (fc # bs) v0 = Some (short_read, v0, [])"
proof -
  consider "fc = fc_read_coils" | "fc = fc_read_discrete_inputs" | "fc = fc_read_holding_registers"
    | "fc = fc_read_input_registers" | "fc = fc_write_single_coil" | "fc = fc_write_single_register"
    | "fc = fc_write_multiple_coils" | "fc = fc_write_multiple_registers"
    | "fc = fc_read_write_multiple_registers"
    using assms by (auto simp: supported_fc_def)
  then show ?thesis
  proof cases
    case 1
    then show ?thesis
      using rc.head_outcome [of bs Read_coils read_coils_pdu_req_init] by (auto simp: variant_simps)
  next
    case 2
    then show ?thesis
      using rdi.head_outcome [of bs Read_discrete_inputs read_discrete_inputs_pdu_req_init] by (auto simp: variant_simps)
  next
    case 3
    then show ?thesis
      using rh.head_outcome [of bs Read_holding read_holding_pdu_req_init] by (auto simp: variant_simps)
  next
    case 4
    then show ?thesis
      using ri.head_outcome [of bs Read_input read_input_pdu_req_init] by (auto simp: variant_simps)
  next
    case 5
    then show ?thesis
      using wsc.head_outcome [of bs Write_single_coil write_single_coil_pdu_req_init] by (auto simp: variant_simps)
  next
    case 6
    then show ?thesis
      using wsr.head_outcome [of bs Write_single_register write_single_register_pdu_req_init] by (auto simp: variant_simps)
  next
    case 7
    then show ?thesis
      using wmc.head_outcome [of bs Write_multiple_coils write_multiple_coils_pdu_req_init] by (auto simp: variant_simps)
  next
    case 8
    then show ?thesis
      using wmr.head_outcome [of bs Write_multiple_registers write_multiple_registers_pdu_req_init] by (auto simp: variant_simps)
  next
    case 9
    then show ?thesis
      using rwm.head_outcome [of bs Read_write_multiple_registers read_write_multiple_registers_pdu_req_init] by (auto simp: variant_simps)
  qed
qed

text \<open>The three outcomes of reading a request from any bytes.\<close>

lemma read_pdu_req_cases:
  obtains (ok) v rest where "pdu_req_wf v" "bs = pdu_req_bytes v @ rest"
      "read_pdu_req checked_read bs v0 = Some (no_error, v, rest)"
    | (short) "read_pdu_req checked_read bs v0 = Some (short_read, v0, [])"
    | (unsupported) fc rest where "bs = fc # rest" "\<not> supported_fc fc"
      "read_pdu_req checked_read bs v0 =
         Some (make_error_code illegal_function, Not_implemented \<lparr>ni_fc = 0\<rparr>, rest)"
proof (cases bs)
  case Nil
  then show ?thesis using short by (simp add: read_pdu_req_Nil)
next
  case (Cons fc bs')
  then show ?thesis
    using that read_pdu_req_supported [of fc bs' v0] read_pdu_req_unsupported [of fc checked_end bs' v0]
    by blast
qed

lemma read_pdu_req_sound:
  "read_pdu_req checked_read bs v0 = Some (no_error, v, rest) \<Longrightarrow>
   pdu_req_wf v \<and> bs = pdu_req_bytes v @ rest"
  by (cases rule: read_pdu_req_cases [of bs v0]) auto

interpretation req: pdu_decoder read_pdu_req pdu_req_bytes pdu_req_wf
  by unfold_locales (simp_all add: read_pdu_req_bytes read_pdu_req_sound)

section \<open>Responses read from pending bytes\<close>

lemma read_pdu_resp_forms:
  "read_pdu_resp checked_read fc rsp [] v = Some (short_read, v, [])"
  "b AND 0x80 \<noteq> 0 \<Longrightarrow>
   read_pdu_resp checked_read fc rsp [b] v = Some (short_read, v, [])"
  "b AND 0x80 \<noteq> 0 \<Longrightarrow>
   read_pdu_resp (list_read e) fc rsp (b # c # bs) v = Some (make_error_code (uint c), v, bs)"
  "b AND 0x80 = 0 \<Longrightarrow> b \<noteq> fc \<Longrightarrow>
   read_pdu_resp (list_read e) fc rsp (b # bs) v = Some (make_error_code invalid_response, v, bs)"
  "fc AND 0x80 = 0 \<Longrightarrow>
   read_pdu_resp (list_read e) fc rsp (fc # bs) v = rsp (list_read e) bs v"
  by (simp_all add: read_pdu_resp_def read_forms checked_end_def)

lemma fc_not_exception [simp]:
  "fc_read_coils AND 0x80 = 0" "fc_read_discrete_inputs AND 0x80 = 0"
  "fc_read_holding_registers AND 0x80 = 0" "fc_read_input_registers AND 0x80 = 0"
  "fc_write_single_coil AND 0x80 = 0" "fc_write_single_register AND 0x80 = 0"
  "fc_write_multiple_coils AND 0x80 = 0" "fc_write_multiple_registers AND 0x80 = 0"
  "fc_read_write_multiple_registers AND 0x80 = 0"
  by (simp_all add: protocol_consts)

lemma or_0x80_exception [simp]: "(b OR 0x80 :: u8) AND 0x80 \<noteq> 0"
proof -
  have "bit ((b OR 0x80) AND 0x80) 7"
    by (simp add: bit_simps)
  then show ?thesis by (metis bit_0_eq bot_apply bot_bool_def)
qed

section \<open>How many bytes a request announces\<close>

text \<open>The size of a request as its function code and, where the class has one, its count byte announce
  it; the byte is in the body at the place \<^verbatim>\<open>i\<close>. The count of a register list is halved by the reader, so
  that an odd count announces one byte less.\<close>

definition announced :: "nat \<Rightarrow> u8 list \<Rightarrow> nat" where
  "announced i body = (if i < length body then unat (body ! i) else 0)"

fun request_size :: "u8 list \<Rightarrow> nat" where
  "request_size [] = 1"
| "request_size (fc # body) =
     (if fc = fc_write_multiple_coils then 6 + announced 4 body
      else if fc = fc_write_multiple_registers then 6 + announced 4 body div 2 * 2
      else if fc = fc_read_write_multiple_registers then 10 + announced 8 body div 2 * 2
      else 5)"

definition request_short :: "u8 list \<Rightarrow> bool" where
  "request_short bs \<longleftrightarrow> bs = [] \<or> supported_fc (hd bs) \<and> length bs < request_size bs"

lemma request_size_bytes:
  "pdu_req_wf v \<Longrightarrow> request_size (pdu_req_bytes v @ rest) = length (pdu_req_bytes v)"
  by (cases v) (auto simp: pdu_req_bytes_def encodings request_wf_defs announced_def protocol_consts)

lemma request_supported: "pdu_req_wf v \<Longrightarrow> supported_fc (hd (pdu_req_bytes v @ rest))"
  by (cases v) (auto simp: pdu_req_bytes_def supported_fc_def)

lemma request_short_bytes: "pdu_req_wf v \<Longrightarrow> \<not> request_short (pdu_req_bytes v @ rest)"
  by (simp add: request_short_def request_size_bytes) (simp add: pdu_req_bytes_def)

text \<open>Bytes that are as many as announced are the encoding of a request.\<close>

lemma words_of_bytes: "length xs = 2 * k \<Longrightarrow> \<exists>vs. be_bytes vs = xs \<and> length vs = k"
proof (induction k arbitrary: xs)
  case (Suc k)
  then obtain h l ys where "xs = h # l # ys" "length ys = 2 * k"
    by (auto simp: length_Suc_conv)
  with Suc.IH [of ys] show ?case
    by (metis be_bytes_simps(2) hi8_be16 length_Cons lo8_be16)
qed simp

lemma address_bytes:
  "4 \<le> length body \<Longrightarrow> \<exists>a q. take 4 body = [hi8 a, lo8 a, hi8 q, lo8 q]"
  "8 \<le> length body \<Longrightarrow>
     \<exists>a q b r. take 8 body = [hi8 a, lo8 a, hi8 q, lo8 q, hi8 b, lo8 b, hi8 r, lo8 r]"
proof -
  have two: "\<exists>a q. take 4 bs = [hi8 a, lo8 a, hi8 q, lo8 q]" if four: "4 \<le> length bs" for bs
  proof -
    obtain vs where "be_bytes vs = take 4 bs" "length vs = 2"
      using four words_of_bytes [of "take 4 bs" 2] by auto
    then obtain a q where "be_bytes [a, q] = take 4 bs" by (auto simp: length_Suc_conv numeral_2_eq_2)
    from this [symmetric] show ?thesis by auto
  qed
  show "4 \<le> length body \<Longrightarrow> \<exists>a q. take 4 body = [hi8 a, lo8 a, hi8 q, lo8 q]" by (rule two)
  assume "8 \<le> length body"
  then have "4 \<le> length body" "4 \<le> length (drop 4 body)" by simp_all
  moreover have "take 8 body = take 4 body @ take 4 (drop 4 body)"
    using take_add [of 4 4 body] by simp
  ultimately show "\<exists>a q b r. take 8 body = [hi8 a, lo8 a, hi8 q, lo8 q, hi8 b, lo8 b, hi8 r, lo8 r]"
    using two [of body] two [of "drop 4 body"] by (metis append_Cons append_Nil)
qed

lemma counted_bytes:
  assumes "n + 1 + k \<le> length body"
  shows "\<exists>vals rest. drop n body = body ! n # vals @ rest \<and> length vals = k"
  using assms Cons_nth_drop_Suc [of n body]
  by (intro exI [of _ "take k (drop (Suc n) body)"] exI [where x = "drop k (drop (Suc n) body)"])
    (simp add: append_take_drop_id del: drop_drop)

lemma counted_words:
  assumes "n + 1 + k div 2 * 2 \<le> length body"
  shows "\<exists>vals rest. drop n body = body ! n # be_bytes vals @ rest \<and> length vals = k div 2"
proof -
  obtain xs rest where "drop n body = body ! n # xs @ rest" "length xs = 2 * (k div 2)"
    using counted_bytes [of n "2 * (k div 2)" body] assms by auto
  with words_of_bytes show ?thesis by blast
qed

lemma plain_request_complete:
  assumes "4 \<le> length body" "fc \<in> {fc_read_coils, fc_read_discrete_inputs, fc_read_holding_registers,
      fc_read_input_registers, fc_write_single_coil, fc_write_single_register}"
  shows "\<exists>v rest. pdu_req_wf v \<and> fc # body = pdu_req_bytes v @ rest"
proof -
  obtain a q where body: "body = [hi8 a, lo8 a, hi8 q, lo8 q] @ drop 4 body"
    using address_bytes(1) [OF assms(1)] by (metis append_take_drop_id)
  define v where "v =
    (if fc = fc_read_coils then Read_coils \<lparr>rc_starting_address = a, rc_quantity_of_coils = q\<rparr>
     else if fc = fc_read_discrete_inputs
       then Read_discrete_inputs \<lparr>rdi_starting_address = a, rdi_quantity_of_discrete_inputs = q\<rparr>
     else if fc = fc_read_holding_registers
       then Read_holding \<lparr>rh_starting_address = a, rh_quantity_of_registers = q\<rparr>
     else if fc = fc_read_input_registers
       then Read_input \<lparr>ri_starting_address = a, ri_quantity_of_registers = q\<rparr>
     else if fc = fc_write_single_coil then Write_single_coil \<lparr>wsc_address = a, wsc_value = q\<rparr>
     else Write_single_register \<lparr>wsr_address = a, wsr_value = q\<rparr>)"
  have "pdu_req_wf v \<and> pdu_req_bytes v = [fc, hi8 a, lo8 a, hi8 q, lo8 q]"
    using assms(2) by (auto simp: v_def pdu_req_bytes_def encodings)
  with body show ?thesis by (metis append_Cons append_Nil)
qed

lemma coils_request_complete:
  assumes "4 \<le> length body" "6 + announced 4 body \<le> length (fc # body)"
    and "fc = fc_write_multiple_coils"
  shows "\<exists>v rest. pdu_req_wf v \<and> fc # body = pdu_req_bytes v @ rest"
proof -
  obtain a q where "body = [hi8 a, lo8 a, hi8 q, lo8 q] @ drop 4 body"
    using address_bytes(1) [OF assms(1)] by (metis append_take_drop_id)
  moreover obtain vals rest where
    "drop 4 body = body ! 4 # vals @ rest" "length vals = unat (body ! 4)"
    using counted_bytes [of 4 "unat (body ! 4)" body] assms(2) by (auto simp: announced_def split: if_splits)
  ultimately show ?thesis
    by (intro exI [of _ "Write_multiple_coils \<lparr>wmc_starting_address = a, wmc_quantity_of_coils = q,
          wmc_byte_count = body ! 4, wmc_values = vals\<rparr>"])
      (auto simp: pdu_req_bytes_def encodings request_wf_defs assms(3))
qed

lemma registers_request_complete:
  assumes "4 \<le> length body" "6 + announced 4 body div 2 * 2 \<le> length (fc # body)"
    and "fc = fc_write_multiple_registers"
  shows "\<exists>v rest. pdu_req_wf v \<and> fc # body = pdu_req_bytes v @ rest"
proof -
  obtain a q where "body = [hi8 a, lo8 a, hi8 q, lo8 q] @ drop 4 body"
    using address_bytes(1) [OF assms(1)] by (metis append_take_drop_id)
  moreover obtain vals rest where
    "drop 4 body = body ! 4 # be_bytes vals @ rest" "length vals = unat (body ! 4) div 2"
    using counted_words [of 4 "unat (body ! 4)" body] assms(2) by (auto simp: announced_def split: if_splits)
  ultimately show ?thesis
    by (intro exI [of _ "Write_multiple_registers \<lparr>wmr_starting_address = a,
          wmr_quantity_of_registers = q, wmr_byte_count = body ! 4, wmr_values = vals\<rparr>"])
      (auto simp: pdu_req_bytes_def encodings request_wf_defs assms(3))
qed

lemma read_write_request_complete:
  assumes "10 + announced 8 body div 2 * 2 \<le> length (fc # body)"
    and "fc = fc_read_write_multiple_registers"
  shows "\<exists>v rest. pdu_req_wf v \<and> fc # body = pdu_req_bytes v @ rest"
proof -
  have long: "8 \<le> length body" using assms(1) by simp
  obtain a q b r where
    "body = [hi8 a, lo8 a, hi8 q, lo8 q, hi8 b, lo8 b, hi8 r, lo8 r] @ drop 8 body"
    using address_bytes(2) [OF long] by (metis append_take_drop_id)
  moreover obtain vals rest where
    "drop 8 body = body ! 8 # be_bytes vals @ rest" "length vals = unat (body ! 8) div 2"
    using counted_words [of 8 "unat (body ! 8)" body] assms(1) by (auto simp: announced_def split: if_splits)
  ultimately show ?thesis
    by (intro exI [of _ "Read_write_multiple_registers \<lparr>rwm_read_starting_address = a,
          rwm_read_quantity_of_registers = q, rwm_write_starting_address = b,
          rwm_write_quantity_of_registers = r, rwm_write_byte_count = body ! 8, rwm_values = vals\<rparr>"])
      (auto simp: pdu_req_bytes_def encodings request_wf_defs assms(2))
qed

lemma request_complete:
  assumes "supported_fc fc" "request_size (fc # body) \<le> length (fc # body)"
  shows "\<exists>v rest. pdu_req_wf v \<and> fc # body = pdu_req_bytes v @ rest"
proof -
  have "4 \<le> length body" using assms(2) by (auto split: if_splits)
  then show ?thesis
    using assms plain_request_complete [of body fc] coils_request_complete [of body fc]
      registers_request_complete [of body fc] read_write_request_complete [of body fc]
    unfolding supported_fc_def by (auto split: if_splits)
qed

lemma read_pdu_req_short_only:
  assumes "read_pdu_req checked_read bs v0 = Some (short_read, v0, [])"
  shows "request_short bs"
proof (rule ccontr)
  assume long: "\<not> request_short bs"
  then obtain fc body where bs: "bs = fc # body"
    by (cases bs) (auto simp: request_short_def)
  show False
  proof (cases "supported_fc fc")
    case True
    with long obtain v rest where "pdu_req_wf v" "bs = pdu_req_bytes v @ rest"
      using request_complete [of fc body] unfolding bs request_short_def by auto
    with read_pdu_req_bytes [of v checked_end rest v0] assms show False by simp
  next
    case False
    with read_pdu_req_unsupported [of fc checked_end body v0] assms show False
      by (simp add: bs make_error_code_def protocol_consts)
  qed
qed

text \<open>What reading a request leaves: the error, the object and the bytes behind.\<close>

definition request_result :: "u8 list \<Rightarrow> pdu_req \<Rightarrow> error_code \<Rightarrow> pdu_req \<Rightarrow> bool" where
  "request_result bs v0 ec v \<longleftrightarrow>
     (if request_short bs then ec = make_error_code too_many_bytes_received \<and> v = v0
      else if supported_fc (hd bs)
      then ec = no_error \<and> pdu_req_wf v \<and> pdu_req_bytes v = take (request_size bs) bs
      else ec = make_error_code illegal_function \<and> v = Not_implemented \<lparr>ni_fc = 0\<rparr>)"

lemma read_pdu_req_result:
  "\<exists>ec v. request_result bs v0 ec v \<and> read_pdu_req checked_read bs v0 =
     Some (ec, v, if request_short bs then [] else if supported_fc (hd bs) then drop (request_size bs) bs else tl bs)"
proof (cases rule: read_pdu_req_cases [of bs v0])
  case (ok v rest)
  then show ?thesis
    using request_size_bytes [OF ok(1)]
    by (auto simp: request_result_def request_short_bytes request_supported)
next
  case short
  then show ?thesis
    using read_pdu_req_short_only [OF short] by (simp add: request_result_def)
next
  case (unsupported fc rest)
  then show ?thesis by (simp add: request_result_def request_short_def)
qed

section \<open>Properties\<close>

text \<open>C21. The outcome of reading a request is determined by the bytes, for all bytes. Too few bytes
  (none at all, or fewer than the function code and the count byte announce) are reported as such,
  everything has been taken off and the caller's object keeps its value; a function code the library
  does not know is reported as an illegal function, with only that byte taken; and in every other case
  the request is read whose encoding is the announced number of bytes, with the bytes behind them left.\<close>

theorem read_pdu_req_outcome:
  "if request_short bs then
     read_pdu_req checked_read bs v0 = Some (make_error_code too_many_bytes_received, v0, [])
   else if supported_fc (hd bs) then
     \<exists>v. pdu_req_wf v \<and> pdu_req_bytes v = take (request_size bs) bs \<and>
         read_pdu_req checked_read bs v0 = Some (no_error, v, drop (request_size bs) bs)
   else read_pdu_req checked_read bs v0 =
     Some (make_error_code illegal_function, Not_implemented \<lparr>ni_fc = 0\<rparr>, tl bs)"
  using read_pdu_req_result [of bs v0] by (auto simp: request_result_def)

text \<open>A request is read back from its encoding, whatever follows, and two well formed requests never
  encode to byte sequences of which one is a prefix of the other.\<close>

lemma pdu_req_prefix_free:
  assumes "pdu_req_wf v" "pdu_req_wf w" "pdu_req_bytes v @ xs = pdu_req_bytes w @ ys"
  shows "v = w \<and> xs = ys \<and> read_pdu_req checked_read (pdu_req_bytes w @ ys) v0 = Some (no_error, v, xs)"
  using req.body_unique [OF assms] read_pdu_req_bytes [OF assms(2)] by simp

text \<open>A request cut short anywhere is reported as such and leaves the caller's object alone.\<close>

lemma read_pdu_req_truncated:
  assumes "pdu_req_wf v" "pdu_req_bytes v = p @ q" "q \<noteq> []"
  shows "read_pdu_req checked_read p v0 = Some (make_error_code too_many_bytes_received, v0, [])"
proof (cases rule: read_pdu_req_cases [of p v0])
  case (ok w rest)
  with assms have "pdu_req_bytes v @ [] = pdu_req_bytes w @ (rest @ q)" by simp
  then show ?thesis
    using req.body_unique [OF assms(1) ok(1)] assms(3) by blast
next
  case (unsupported fc rest)
  with assms(1,2) show ?thesis
    by (cases v) (auto simp: pdu_req_bytes_def supported_fc_def)
qed

end
