(* ===== verification/Adu_Buffer.thy ===== *)
theory Adu_Buffer
  imports Pdu
begin

text \<open>
  Model of \<^verbatim>\<open>include/mothbus/adu/buffer.h\<close>: the message buffer with its three cursors. The buffer
  object holds a span of the array it is built on; the model holds the array itself, and whoever
  built the buffer takes the array back when the buffer is gone. Cursors are \<^verbatim>\<open>size_t\<close> in the
  source; they are natural numbers here. \<^verbatim>\<open>operator[]\<close> of a span checks nothing, so an index
  outside the array is \<open>None\<close>.
\<close>

record buffer =
  message_buffer :: "u8 list"
  input_start :: nat
  input_end :: nat
  output_start :: nat

definition buffer_of :: "u8 list \<Rightarrow> buffer" where
  "buffer_of b = \<lparr>message_buffer = b, input_start = 0, input_end = 0, output_start = 0\<rparr>"

definition buffer_put :: "buffer put8" where
  "buffer_put b v =
     (if output_start b < length (message_buffer b)
      then Some (b\<lparr>message_buffer := (message_buffer b)[output_start b := v],
                   output_start := output_start b + 1\<rparr>)
      else None)"

definition buffer_get :: "buffer \<Rightarrow> u8 \<Rightarrow> (buffer, u8) read_result" where
  "buffer_get b out =
     (if input_start b \<ge> input_end b then Some (make_error_code too_many_bytes_received, out, b)
      else if input_start b < length (message_buffer b)
      then Some (no_error, message_buffer b ! input_start b, b\<lparr>input_start := input_start b + 1\<rparr>)
      else None)"

text \<open>\<^verbatim>\<open>adu::read\<close>, the one-byte read overload resolution picks for a buffer.\<close>

definition buffer_read :: "buffer read8" where
  "buffer_read b out = buffer_get b out"

text \<open>The bytes behind \<^verbatim>\<open>data()\<close>, for a callee that reads all of them.\<close>

definition buffer_data :: "buffer \<Rightarrow> u8 list option" where
  "buffer_data b =
     (if input_start b \<le> input_end b \<and> input_end b \<le> length (message_buffer b)
      then Some (take (input_end b - input_start b) (drop (input_start b) (message_buffer b)))
      else None)"

text \<open>The region behind \<^verbatim>\<open>prepare(n)\<close>: it starts at \<open>output_start\<close>. A callee that stores \<open>bs\<close>, of at
  most \<open>n\<close> bytes, through it leaves the buffer below.\<close>

definition buffer_prepare :: "buffer \<Rightarrow> nat \<Rightarrow> nat \<times> nat" where
  "buffer_prepare b n = (output_start b, n)"

definition store_region :: "nat \<times> nat \<Rightarrow> u8 list \<Rightarrow> buffer \<Rightarrow> buffer option" where
  "store_region region bs b =
     (case region of (start, n) \<Rightarrow>
        if length bs \<le> n \<and> start + length bs \<le> length (message_buffer b)
        then Some (b\<lparr>message_buffer := overwrite start bs (message_buffer b)\<rparr>)
        else None)"

definition buffer_commit :: "nat \<Rightarrow> buffer \<Rightarrow> buffer" where
  "buffer_commit n b = b\<lparr>input_end := input_end b + n, output_start := output_start b + n\<rparr>"

definition buffer_consume :: "nat \<Rightarrow> buffer \<Rightarrow> buffer" where
  "buffer_consume n b = b\<lparr>input_start := input_start b + n\<rparr>"

section \<open>Invariant\<close>

text \<open>The unread bytes lie inside the array. No operation that has a defined result breaks this;
  committing more bytes than the array holds does.\<close>

definition buffer_ok :: "buffer \<Rightarrow> bool" where
  "buffer_ok b \<longleftrightarrow> input_start b \<le> input_end b \<and> input_end b \<le> length (message_buffer b)"

definition buffer_pending :: "buffer \<Rightarrow> u8 list" where
  "buffer_pending b = take (input_end b - input_start b) (drop (input_start b) (message_buffer b))"

lemma buffer_ok_buffer_of [simp]: "buffer_ok (buffer_of xs)"
  by (simp add: buffer_ok_def buffer_of_def)

lemma buffer_pending_buffer_of [simp]: "buffer_pending (buffer_of xs) = []"
  by (simp add: buffer_pending_def buffer_of_def)

lemma length_buffer_pending [simp]:
  "buffer_ok b \<Longrightarrow> length (buffer_pending b) = input_end b - input_start b"
  by (auto simp: buffer_ok_def buffer_pending_def)

lemma buffer_data_pending: "buffer_ok b \<Longrightarrow> buffer_data b = Some (buffer_pending b)"
  by (simp add: buffer_ok_def buffer_data_def buffer_pending_def)

lemma buffer_put_ok: "buffer_ok b \<Longrightarrow> buffer_put b v = Some b' \<Longrightarrow> buffer_ok b'"
  by (auto simp: buffer_ok_def buffer_put_def split: if_splits)

lemma buffer_pending_Cons:
  "buffer_ok b \<Longrightarrow> input_start b < input_end b \<Longrightarrow>
   buffer_pending b = message_buffer b ! input_start b
     # buffer_pending (b\<lparr>input_start := input_start b + 1\<rparr>)"
  by (auto simp: buffer_ok_def buffer_pending_def Cons_nth_drop_Suc [symmetric] take_Cons'
      diff_Suc split: nat.splits)

text \<open>Reading moves \<open>input_start\<close> only, so a buffer that is being read is described by its array, its
  other two cursors and the pending bytes.\<close>

definition buffer_over :: "u8 list \<Rightarrow> nat \<Rightarrow> nat \<Rightarrow> buffer \<Rightarrow> bool" where
  "buffer_over mb e o' b \<longleftrightarrow>
     buffer_ok b \<and> message_buffer b = mb \<and> input_end b = e \<and> output_start b = o'"

lemma buffer_read_sim:
  assumes "buffer_over mb e o' b"
  shows "read_sim buffer_pending (buffer_over mb e o') (buffer_read b v)
    (checked_read (buffer_pending b) v)"
proof (cases "input_start b < input_end b")
  case True
  have "buffer_ok b"
    using assms by (simp add: buffer_over_def)
  then have "buffer_pending b = message_buffer b ! input_start b
      # buffer_pending (b\<lparr>input_start := input_start b + 1\<rparr>)"
    using True by (rule buffer_pending_Cons)
  with True assms show ?thesis
    by (auto simp: read_sim_def buffer_read_def buffer_get_def buffer_over_def buffer_ok_def)
next
  case False
  with assms have "buffer_pending b = []"
    by (simp add: buffer_pending_def)
  with False assms show ?thesis
    by (simp add: read_sim_def buffer_read_def buffer_get_def checked_end_def)
qed

interpretation buf: byte_source buffer_read buffer_pending "buffer_over mb e o'" checked_end
  for mb e o'
  by unfold_locales (rule buffer_read_sim)

lemma buffer_over_self: "buffer_ok b \<Longrightarrow> buffer_over (message_buffer b) (input_end b) (output_start b) b"
  by (simp add: buffer_over_def)

lemma buffer_over_eq:
  "buffer_over mb e o' b \<Longrightarrow>
   b = \<lparr>message_buffer = mb, input_start = e - length (buffer_pending b), input_end = e,
        output_start = o'\<rparr>"
  by (cases b) (auto simp: buffer_over_def buffer_ok_def)

section \<open>The buffer as a sink\<close>

lemma buffer_put_all:
  "put_all buffer_put bs b =
     (if output_start b + length bs \<le> length (message_buffer b) \<or> bs = []
      then Some (b\<lparr>message_buffer := overwrite (output_start b) bs (message_buffer b),
                   output_start := output_start b + length bs\<rparr>)
      else None)"
proof (induction bs rule: rev_induct)
  case Nil
  then show ?case by simp
next
  case (snoc x bs)
  then show ?case
    by (auto simp: buffer_put_def overwrite_update)
qed

definition buffer_taken :: "buffer \<Rightarrow> u8 list" where
  "buffer_taken b = take (output_start b) (message_buffer b)"

definition buffer_room :: "buffer \<Rightarrow> enat" where
  "buffer_room b = enat (length (message_buffer b) - output_start b)"

interpretation buf_sink: byte_sink buffer_put buffer_taken buffer_room
    "\<lambda>b. output_start b \<le> length (message_buffer b)"
proof unfold_locales
  fix s :: buffer and b :: u8
  assume "output_start s \<le> length (message_buffer s)" and "buffer_room s \<noteq> 0"
  then show "\<exists>s'. buffer_put s b = Some s' \<and> output_start s' \<le> length (message_buffer s') \<and>
      buffer_taken s' = buffer_taken s @ [b] \<and> buffer_room s = eSuc (buffer_room s')"
    by (auto simp: buffer_put_def buffer_taken_def buffer_room_def enat_0_iff take_Suc_conv_app_nth
        eSuc_enat)
next
  fix s :: buffer and b :: u8
  assume "output_start s \<le> length (message_buffer s)" and "buffer_room s = 0"
  then show "buffer_put s b = None"
    by (simp add: buffer_put_def buffer_room_def enat_0_iff)
qed

section \<open>Properties\<close>

text \<open>Bytes put into a fresh message buffer are, after \<^verbatim>\<open>commit(output_start)\<close>, exactly what \<^verbatim>\<open>data()\<close>
  hands to the network, as long as the array holds them; one byte more writes behind the array.\<close>

lemma buffer_sends_what_was_put:
  "(put_all buffer_put bs (buffer_of array) \<bind> (\<lambda>b. buffer_data (buffer_commit (output_start b) b))) =
     (if length bs \<le> length array then Some bs else None)"
  by (auto simp: buffer_put_all buffer_of_def buffer_commit_def buffer_data_def overwrite_def)

text \<open>C19. A well formed request written into a message buffer that has room for it and committed is read
  back from the buffer as the same request, and nothing is left pending. This covers the nine request
  classes and their readers and writers.\<close>

theorem request_through_buffer:
  assumes "pdu_req_wf v" "pdu_req_writable v" "length (pdu_req_bytes v) \<le> length array"
  shows "\<exists>b b'. write_pdu_req buffer_put v (buffer_of array) = Some b
    \<and> read_pdu_req buffer_read (buffer_commit (output_start b) b) v0 = Some (no_error, v, b')
    \<and> buffer_pending b' = []"
proof -
  let ?bs = "pdu_req_bytes v"
  let ?b = "\<lparr>message_buffer = overwrite 0 ?bs array, input_start = 0, input_end = 0, output_start = length ?bs\<rparr>"
  let ?r = "buffer_commit (length ?bs) ?b"
  have w: "write_pdu_req buffer_put v (buffer_of array) = Some ?b"
    using assms(2,3) by (auto simp: write_pdu_req_form buffer_put_all buffer_of_def)
  have "buffer_ok ?r" and pending: "buffer_pending ?r = ?bs"
    using assms(3) by (auto simp: buffer_ok_def buffer_commit_def buffer_pending_def overwrite_def)
  then have "read_sim buffer_pending (buffer_over (message_buffer ?r) (input_end ?r) (output_start ?r))
      (read_pdu_req buffer_read ?r v0) (Some (no_error, v, []))"
    using buf.sim_pdu_req [OF buffer_over_self, of ?r v0] read_pdu_req_bytes [OF assms(1), of checked_end "[]" v0]
    by simp
  from read_simD [OF this] obtain b' where "read_pdu_req buffer_read ?r v0 = Some (no_error, v, b')" "buffer_pending b' = []"
    by auto
  with w show ?thesis by auto
qed

theorem request_through_buffer_witness:
  "\<exists>b b'. write_pdu_req buffer_put (Read_coils \<lparr>rc_starting_address = 7, rc_quantity_of_coils = 20\<rparr>)
        (buffer_of (replicate 8 0)) = Some b
    \<and> read_pdu_req buffer_read (buffer_commit (output_start b) b) pdu_req_init =
        Some (no_error, Read_coils \<lparr>rc_starting_address = 7, rc_quantity_of_coils = 20\<rparr>, b')
    \<and> buffer_pending b' = []"
  by (rule request_through_buffer) (simp_all add: pdu_req_bytes_def encodings)

text \<open>An exception response, whatever the function code and the response class waited for, gives the
  caller the exception code it was written with and leaves the response object alone. The exception code
  0 is therefore reported as success.\<close>

lemma exception_response:
  assumes "0 \<le> c" "c < 256" "2 \<le> length array"
  shows "\<exists>b b'. pdu_exception_resp_write buffer_put \<lparr>exc_fc = f, exceptionCode = c\<rparr> (buffer_of array) = Some b
    \<and> read_pdu_resp buffer_read fc rsp (buffer_commit (output_start b) b) v = Some (make_error_code c, v, b')
    \<and> (failed (make_error_code c) \<longleftrightarrow> c \<noteq> 0)"
proof -
  obtain x y zs where "array = x # y # zs"
    using assms(3) by (metis Suc_le_length_iff numeral_2_eq_2)
  moreover have "uint (word_of_int c :: u8) = c"
    using assms by (simp add: uint_word_of_int)
  ultimately show ?thesis
    by (simp add: pdu_exception_resp_write_form buffer_put_def buffer_of_def read_pdu_resp_def buffer_commit_def
        buffer_read_def buffer_get_def read_modbus_exception_code_def)
      (simp add: protocol_consts)
qed

end
