(* ===== verification/Transport.thy ===== *)
theory Transport
  imports Adu_Buffer
begin

text \<open>
  What the streams of \<^verbatim>\<open>adu/tcp.h\<close> and \<^verbatim>\<open>adu/rtu.h\<close> share: the outcome of an operation on an object
  with state, the calls into the network layer (\<^verbatim>\<open>mothbus::read\<close> and \<^verbatim>\<open>mothbus::write\<close> of
  \<^verbatim>\<open>mothbus.h\<close>), and the sending and filling of the message buffer.

  The network layer itself (\<^verbatim>\<open>boost::asio\<close>) is not part of the sources. It is the argument \<open>net\<close> of
  the operations, a record of the functions the sources call, over a state \<open>'n\<close> of its own. What the
  sources rely on is stated by \<open>asio_contract\<close>: a transfer never delivers more than the region it
  was given, and without an error it fills it.
\<close>

section \<open>Operations with state, exceptions and undefined behaviour\<close>

datatype ('s, 'a) result =
    Return 'a 's
  | Throw error_code 's
  | Assert_failed
  | Undefined

type_synonym ('s, 'a) operation = "'s \<Rightarrow> ('s, 'a) result"

definition return_op :: "'a \<Rightarrow> ('s, 'a) operation" where
  "return_op x s = Return x s"

definition bind_op :: "('s, 'a) operation \<Rightarrow> ('a \<Rightarrow> ('s, 'b) operation) \<Rightarrow> ('s, 'b) operation" where
  "bind_op m f s =
     (case m s of
        Return x s' \<Rightarrow> f x s'
      | Throw ec s' \<Rightarrow> Throw ec s'
      | Assert_failed \<Rightarrow> Assert_failed
      | Undefined \<Rightarrow> Undefined)"

text \<open>\<^verbatim>\<open>assert(c)\<close> in front of an operation.\<close>

definition assert_op :: "bool \<Rightarrow> ('s, 'a) operation \<Rightarrow> ('s, 'a) operation" where
  "assert_op c m s = (if c then m s else Assert_failed)"

lemma return_op_simp [simp]: "return_op x s = Return x s"
  by (simp add: return_op_def)

lemma assert_op_simps [simp]:
  "assert_op True m = m" "assert_op False m s = Assert_failed"
  "c \<Longrightarrow> assert_op c m = m"
  by (auto simp: assert_op_def)

lemma bind_op_simps:
  "m s = Return x s' \<Longrightarrow> bind_op m f s = f x s'"
  "m s = Throw ec s' \<Longrightarrow> bind_op m f s = Throw ec s'"
  "m s = Assert_failed \<Longrightarrow> bind_op m f s = Assert_failed"
  "m s = Undefined \<Longrightarrow> bind_op m f s = Undefined"
  by (simp_all add: bind_op_def)

section \<open>The network layer\<close>

record 'n network =
  net_write :: "u8 list \<Rightarrow> 'n \<Rightarrow> error_code \<times> 'n"
  net_read :: "nat \<Rightarrow> 'n \<Rightarrow> error_code \<times> u8 list \<times> 'n"
  net_read_until :: "nat \<Rightarrow> nat \<Rightarrow> 'n \<Rightarrow> error_code \<times> u8 list \<times> 'n"

text \<open>\<open>net_read n\<close> is a transfer into a region of \<open>n\<close> bytes; \<open>net_read_until t n\<close> is the same raced
  against a timer of \<open>t\<close> microseconds. Both return the bytes that were stored.\<close>

definition asio_contract :: "'n network \<Rightarrow> bool" where
  "asio_contract net \<longleftrightarrow>
     (\<forall>n s. case net_read net n s of (ec, bs, _) \<Rightarrow>
        length bs \<le> n \<and> (failed ec \<or> length bs = n))
   \<and> (\<forall>t n s. case net_read_until net t n s of (ec, bs, _) \<Rightarrow>
        length bs \<le> n \<and> (failed ec \<or> length bs = n))"

lemma asio_read_length:
  "asio_contract net \<Longrightarrow> net_read net n s = (ec, bs, s') \<Longrightarrow> \<not> failed ec \<Longrightarrow> length bs = n"
  unfolding asio_contract_def by (metis (mono_tags, lifting) case_prod_conv)

lemma asio_read_bound:
  "asio_contract net \<Longrightarrow> net_read net n s = (ec, bs, s') \<Longrightarrow> length bs \<le> n"
  unfolding asio_contract_def by (metis (mono_tags, lifting) case_prod_conv)

lemma asio_read_until_bound:
  "asio_contract net \<Longrightarrow> net_read_until net t n s = (ec, bs, s') \<Longrightarrow> length bs \<le> n"
  unfolding asio_contract_def by (metis (mono_tags, lifting) case_prod_conv)

text \<open>\<^verbatim>\<open>mothbus::write(s, buffers)\<close> throws what \<^verbatim>\<open>boost::asio::write\<close> reports; the overload with an
  error code stores it instead. \<^verbatim>\<open>mothbus::read(s, buffers)\<close> throws likewise; the bytes that arrived
  before the error have been stored.\<close>

definition mothbus_write :: "'n network \<Rightarrow> u8 list \<Rightarrow> ('n, unit) operation" where
  "mothbus_write net bs n =
     (case net_write net bs n of (ec, n') \<Rightarrow> if failed ec then Throw ec n' else Return () n')"

definition mothbus_write_ec :: "'n network \<Rightarrow> u8 list \<Rightarrow> 'n \<Rightarrow> error_code \<times> 'n" where
  "mothbus_write_ec net bs n = net_write net bs n"

definition mothbus_read :: "'n network \<Rightarrow> nat \<times> nat \<Rightarrow> (buffer \<times> 'n, nat) operation" where
  "mothbus_read net region st =
     (let (source, n) = st; (ec, bs, n') = net_read net (snd region) n in
      case store_region region bs source of
        None \<Rightarrow> Undefined
      | Some source' \<Rightarrow>
          if failed ec then Throw ec (source', n') else Return (length bs) (source', n'))"

text \<open>The overload of \<^verbatim>\<open>read\<close> with an error code, which nothing in the library calls.\<close>

definition mothbus_read_ec :: "'n network \<Rightarrow> nat \<times> nat \<Rightarrow> (buffer \<times> 'n, nat \<times> error_code) operation" where
  "mothbus_read_ec net region st =
     (let (source, n) = st; (ec, bs, n') = net_read net (snd region) n in
      case store_region region bs source of
        None \<Rightarrow> Undefined
      | Some source' \<Rightarrow> Return (length bs, ec) (source', n'))"

lemma mothbus_read_throws:
  "mothbus_read net region st =
     bind_op (mothbus_read_ec net region)
       (\<lambda>(k, ec) st. if failed ec then Throw ec st else Return k st) st"
  by (simp add: mothbus_read_def mothbus_read_ec_def bind_op_def Let_def split: prod.split option.split)

section \<open>Message buffer and network\<close>

text \<open>A buffer freshly built on an array holds nothing; storing and committing received bytes makes
  them pending behind what is pending already.\<close>

definition receive :: "nat \<Rightarrow> u8 list \<Rightarrow> buffer \<Rightarrow> buffer option" where
  "receive n bs b = do {
     b \<leftarrow> store_region (buffer_prepare b n) bs b;
     Some (buffer_commit (length bs) b)
   }"

text \<open>\<^verbatim>\<open>read_size = mothbus::read(m_next_layer, source.prepare(k)); source.commit(read_size);\<close>\<close>

definition receive_op :: "'n network \<Rightarrow> nat \<Rightarrow> (buffer \<times> 'n, nat) operation" where
  "receive_op net k st =
     bind_op (mothbus_read net (buffer_prepare (fst st) k))
       (\<lambda>read_size (source, n). Return read_size (buffer_commit read_size source, n)) st"

text \<open>A reading function of the PDU layer on the source, as an operation.\<close>

definition lift_read ::
    "(buffer \<Rightarrow> 'v \<Rightarrow> (buffer, 'v) read_result) \<Rightarrow> 'v \<Rightarrow> (buffer \<times> 'n, error_code \<times> 'v) operation" where
  "lift_read rd v st =
     (let (source, n) = st in
      case rd source v of
        None \<Rightarrow> Undefined
      | Some (ec, v', source') \<Rightarrow> Return (ec, v') (source', n))"

text \<open>In a source that is only filled by \<open>receive\<close>, received bytes go right behind the pending
  ones.\<close>

definition source_aligned :: "buffer \<Rightarrow> bool" where
  "source_aligned b \<longleftrightarrow> buffer_ok b \<and> output_start b = input_end b"

lemma source_aligned_buffer_of [simp]: "source_aligned (buffer_of xs)"
  by (simp add: source_aligned_def) (simp add: buffer_of_def)

lemma receive_aligned:
  assumes "source_aligned b" "length bs \<le> n" "output_start b + length bs \<le> length (message_buffer b)"
  obtains b' where "receive n bs b = Some b'" "source_aligned b'"
    "buffer_pending b' = buffer_pending b @ bs" "output_start b' = output_start b + length bs"
    "input_start b' = input_start b" "length (message_buffer b') = length (message_buffer b)"
    "take (output_start b') (message_buffer b') = take (output_start b) (message_buffer b) @ bs"
proof -
  let ?b = "b\<lparr>message_buffer := overwrite (output_start b) bs (message_buffer b),
      input_end := input_end b + length bs, output_start := output_start b + length bs\<rparr>"
  have "receive n bs b = Some ?b"
    using assms by (simp add: receive_def store_region_def buffer_prepare_def buffer_commit_def)
  moreover have "source_aligned ?b"
    using assms by (auto simp: source_aligned_def buffer_ok_def)
  moreover have "buffer_pending ?b = buffer_pending b @ bs"
    using assms by (auto simp: source_aligned_def buffer_ok_def buffer_pending_def overwrite_def
        take_drop)
  ultimately show ?thesis
    using that assms by (simp add: take_overwrite)
qed

lemma receive_overflow:
  "length (message_buffer b) < output_start b + length bs \<Longrightarrow> receive n bs b = None"
  by (simp add: receive_def store_region_def buffer_prepare_def)

lemma receive_op_forms:
  "net_read net k n = (ec, bs, n') \<Longrightarrow> failed ec \<Longrightarrow>
   store_region (buffer_prepare b k) bs b = Some b' \<Longrightarrow>
   receive_op net k (b, n) = Throw ec (b', n')"
  "net_read net k n = (ec, bs, n') \<Longrightarrow> \<not> failed ec \<Longrightarrow> receive k bs b = Some b' \<Longrightarrow>
   receive_op net k (b, n) = Return (length bs) (b', n')"
  "net_read net k n = (ec, bs, n') \<Longrightarrow> store_region (buffer_prepare b k) bs b = None \<Longrightarrow>
   receive_op net k (b, n) = Undefined"
  by (auto simp: receive_op_def bind_op_def mothbus_read_def receive_def buffer_prepare_def
      bind_eq_Some_conv)

lemma store_region_prepare:
  "length bs \<le> k \<Longrightarrow> output_start b + length bs \<le> length (message_buffer b) \<Longrightarrow>
   store_region (buffer_prepare b k) bs b =
     Some (b\<lparr>message_buffer := overwrite (output_start b) bs (message_buffer b)\<rparr>)"
  by (simp add: store_region_def buffer_prepare_def)

text \<open>A source with \<open>e\<close> received bytes in the array \<open>mb\<close>, of which \<open>k\<close> have been read.\<close>

definition received :: "u8 list \<Rightarrow> nat \<Rightarrow> nat \<Rightarrow> buffer" where
  "received mb e k = \<lparr>message_buffer = mb, input_start = k, input_end = e, output_start = e\<rparr>"

lemma received_simps [simp]:
  "message_buffer (received mb e k) = mb" "input_start (received mb e k) = k"
  "input_end (received mb e k) = e" "output_start (received mb e k) = e"
  by (simp_all add: received_def)

lemma received_update: "(received mb e k)\<lparr>message_buffer := mb'\<rparr> = received mb' e k"
  by (simp add: received_def)

lemma received_pending [simp]: "buffer_pending (received mb e k) = take (e - k) (drop k mb)"
  by (simp add: buffer_pending_def)

lemma buffer_of_received: "buffer_of mb = received mb 0 0"
  by (simp add: buffer_of_def received_def)

text \<open>A reading function does on a source what its counterpart does on the list of pending bytes.\<close>

definition reads_alike ::
    "(buffer \<Rightarrow> 'v \<Rightarrow> (buffer, 'v) read_result) \<Rightarrow> (u8 list \<Rightarrow> 'v \<Rightarrow> (u8 list, 'v) read_result) \<Rightarrow> bool" where
  "reads_alike rd lrd \<longleftrightarrow> (\<forall>mb e o' r v. buffer_over mb e o' r \<longrightarrow>
     read_sim buffer_pending (buffer_over mb e o') (rd r v) (lrd (buffer_pending r) v))"

lemma reads_alike_uint16: "reads_alike (read_uint16 buffer_read) (read_uint16 checked_read)"
  by (simp add: reads_alike_def buf.sim_uint16)

lemma reads_alike_pdu_resp:
  "reads_alike (rsp buffer_read) (lrsp checked_read) \<Longrightarrow>
   reads_alike (read_pdu_resp buffer_read fc rsp) (read_pdu_resp checked_read fc lrsp)"
  unfolding reads_alike_def
  by (intro allI impI buf.sim_pdu_resp [where rsp = rsp and rsp' = lrsp]) auto

lemma reads_alikeD:
  assumes "reads_alike rd lrd" "k \<le> e" "e \<le> length mb"
  shows "read_sim buffer_pending (buffer_over mb e e) (rd (received mb e k) v)
    (lrd (take (e - k) (drop k mb)) v)"
proof -
  have "buffer_over mb e e (received mb e k)"
    using assms(2,3) by (simp add: buffer_over_def buffer_ok_def)
  with assms(1) have "read_sim buffer_pending (buffer_over mb e e) (rd (received mb e k) v)
      (lrd (buffer_pending (received mb e k)) v)"
    unfolding reads_alike_def by blast
  then show ?thesis by simp
qed

lemma read_received:
  assumes "k \<le> e" "e \<le> length mb" "reads_alike rd lrd"
    and lrd: "lrd (take (e - k) (drop k mb)) v = Some (ec, v', bs)"
  shows "rd (received mb e k) v = Some (ec, v', received mb e (e - length bs))"
proof -
  from reads_alikeD [OF assms(3,1,2), of v, unfolded lrd]
  obtain b' where b': "rd (received mb e k) v = Some (ec, v', b')"
      "buffer_over mb e e b'" "buffer_pending b' = bs"
    using read_simD by fastforce
  have "b' = received mb e (e - length bs)"
    using buffer_over_eq [OF b'(2)] unfolding b'(3) received_def .
  with b'(1) show ?thesis by simp
qed

lemma read_received_case:
  assumes ke: "k \<le> e" "e \<le> length mb" and sim: "reads_alike rd lrd"
  shows "rd (received mb e k) v =
    (case lrd (take (e - k) (drop k mb)) v of
       None \<Rightarrow> None
     | Some (ec, v', bs) \<Rightarrow> Some (ec, v', received mb e (e - length bs)))"
proof (cases "lrd (take (e - k) (drop k mb)) v")
  case None
  with reads_alikeD [OF sim ke, of v] show ?thesis
    by (simp add: read_sim_def split: option.splits)
next
  case (Some t)
  then show ?thesis
    using read_received [OF ke sim] by (cases t) simp
qed

lemma lift_read_received:
  assumes "k \<le> e" "e \<le> length mb" "reads_alike rd lrd"
  shows "lift_read rd v (received mb e k, n) =
    (case lrd (take (e - k) (drop k mb)) v of
       None \<Rightarrow> Undefined
     | Some (ec, v', bs) \<Rightarrow> Return (ec, v') (received mb e (e - length bs), n))"
  using read_received_case [OF assms] by (simp add: lift_read_def split: option.splits prod.splits)

lemma drop_take_Cons: "k < e \<Longrightarrow> e \<le> length mb \<Longrightarrow>
   take (e - k) (drop k mb) = mb ! k # take (e - Suc k) (drop (Suc k) mb)"
  by (metis Cons_nth_drop_Suc Suc_diff_Suc less_le_trans take_Suc_Cons)

lemma uint16_received:
  assumes "k + 2 \<le> e" "e \<le> length mb"
  shows "read_uint16 buffer_read (received mb e k) v =
    Some (no_error, be16 (mb ! k) (mb ! (k + 1)), received mb e (k + 2))"
proof -
  let ?bs = "take (e - (k + 2)) (drop (k + 2) mb)"
  have "take (e - k) (drop k mb) = mb ! k # mb ! (k + 1) # ?bs"
    using assms by (simp add: drop_take_Cons)
  then have "read_uint16 checked_read (take (e - k) (drop k mb)) v =
      Some (no_error, be16 (mb ! k) (mb ! (k + 1)), ?bs)"
    by (simp add: read_forms)
  with assms show ?thesis
    by (subst read_received [where lrd = "read_uint16 checked_read"]) (auto intro: reads_alike_uint16)
qed

lemma byte_received:
  assumes "k < e" "e \<le> length mb"
  shows "buffer_read (received mb e k) v = Some (no_error, mb ! k, received mb e (k + 1))"
  using assms by (simp add: buffer_read_def buffer_get_def received_def)

lemma lift_received:
  "k + 2 \<le> e \<Longrightarrow> e \<le> length mb \<Longrightarrow> lift_read (read_uint16 buffer_read) v (received mb e k, n) =
     Return (no_error, be16 (mb ! k) (mb ! (k + 1))) (received mb e (k + 2), n)"
  "k < e \<Longrightarrow> e \<le> length mb \<Longrightarrow> lift_read buffer_read w (received mb e k, n) =
     Return (no_error, mb ! k) (received mb e (k + 1), n)"
  by (simp_all add: lift_read_def uint16_received byte_received)

lemma receive_received:
  "length bs \<le> n \<Longrightarrow> e + length bs \<le> length mb \<Longrightarrow>
   receive n bs (received mb e k) = Some (received (overwrite e bs mb) (e + length bs) k)"
  by (simp add: receive_def store_region_def buffer_prepare_def buffer_commit_def received_def)

lemma receive_op_received:
  assumes "net_read net k n = (ec, bs, n')" "length bs \<le> k" "e + length bs \<le> length mb"
  shows "receive_op net k (received mb e i, n) =
    (if failed ec then Throw ec ((received mb e i)\<lparr>message_buffer := overwrite e bs mb\<rparr>, n')
     else Return (length bs) (received (overwrite e bs mb) (e + length bs) i, n'))"
  using assms receive_op_forms(1) [OF assms(1)] receive_op_forms(2) [OF assms(1)]
  by (auto simp: receive_received store_region_prepare)

end
