(* ===== verification/Master.thy ===== *)
theory Master
  imports Transport
begin

text \<open>
  Model of \<^verbatim>\<open>include/mothbus/adu/master.h\<close>: the functions of a Modbus master. \<^verbatim>\<open>master_base\<close> is a template
  over the stream; here the two members it uses of it, \<open>write_request\<close> and \<open>read_response\<close>, are arguments
  of every function. A function that fills an array of the caller returns the array with the error
  code; an exception of the network layer leaves before the array is touched.
\<close>

type_synonym 'st write_request_op = "u8 \<Rightarrow> (buffer \<Rightarrow> buffer option) \<Rightarrow> ('st, u16) operation"

type_synonym ('st, 'v) read_response_op =
  "u16 \<Rightarrow> u8 \<Rightarrow> function_code \<Rightarrow> (buffer read8 \<Rightarrow> buffer \<Rightarrow> 'v \<Rightarrow> (buffer, 'v) read_result) \<Rightarrow> 'v \<Rightarrow>
   ('st, error_code \<times> 'v) operation"

text \<open>A constructor with an \<^verbatim>\<open>assert\<close> in front of an operation.\<close>

definition construct_op :: "'a option \<Rightarrow> ('a \<Rightarrow> ('s, 'b) operation) \<Rightarrow> ('s, 'b) operation" where
  "construct_op c f s = (case c of None \<Rightarrow> Assert_failed | Some x \<Rightarrow> f x s)"

section \<open>Coils and discrete inputs\<close>

definition read_coils ::
    "'st write_request_op \<Rightarrow> ('st, values_pdu_resp) read_response_op \<Rightarrow>
     u8 \<Rightarrow> u16 \<Rightarrow> u16 \<Rightarrow> u8 list \<Rightarrow> ('st, error_code \<times> u8 list) operation" where
  "read_coils write_request read_response slave address quantity out =
     assert_op (1 \<le> quantity \<and> quantity \<le> 2000) (
     assert_op ((unat quantity - 1) div 8 + 1 \<le> length out) (
     let req = read_coils_pdu_req_init\<lparr>rc_starting_address := address, rc_quantity_of_coils := quantity\<rparr> in
     bind_op (write_request slave (read_coils_pdu_req_write buffer_put req)) (\<lambda>transaction_id.
     let resp = read_coils_pdu_resp_ctor (whole_span out) in
     bind_op (read_response transaction_id slave fc_read_coils read_coils_pdu_resp_read resp) (\<lambda>(ec, resp).
     let out' = span_array (resp_values resp) in
     if failed ec then return_op (ec, out')
     else if unat (byte_count resp) \<noteq> length out then return_op (make_error_code invalid_response, out')
     else return_op (no_error, out')))))"

definition write_single_coil ::
    "'st write_request_op \<Rightarrow> ('st, write_single_coil_pdu_resp) read_response_op \<Rightarrow>
     u8 \<Rightarrow> u16 \<Rightarrow> bool \<Rightarrow> ('st, error_code) operation" where
  "write_single_coil write_request read_response slave address value =
     (let req = write_single_coil_pdu_req_init\<lparr>wsc_address := address, wsc_value := (if value then 0xFF00 else 0x0000)\<rparr> in
     bind_op (write_request slave (write_single_coil_pdu_req_write buffer_put req)) (\<lambda>transaction_id.
     construct_op (write_single_coil_pdu_resp_ctor (wsc_address req) (wsc_value req)) (\<lambda>resp.
     bind_op (read_response transaction_id slave fc_write_single_coil write_single_coil_pdu_resp_read resp) (\<lambda>(ec, resp).
     if failed ec then return_op ec else return_op no_error))))"

text \<open>The inner loop packs up to eight coils into a byte, the first coil into the lowest bit; the sum
  is taken in \<^verbatim>\<open>int\<close> and truncated to eight bits by the assignment.\<close>

fun pack_coils :: "nat \<Rightarrow> u8 \<Rightarrow> u8 list \<Rightarrow> u8" where
  "pack_coils c pack [] = pack"
| "pack_coils c pack (coil # coils) = pack_coils (c + 1) (pack + push_bit c coil) coils"

definition pack_values :: "nat \<Rightarrow> u8 list \<Rightarrow> u8 list" where
  "pack_values size' values =
     map (\<lambda>i. let start = i * 8;
              sentinel = min ((i + 1) * 8) (length values);
              coils = take (sentinel - start) (drop start values)
          in pack_coils 0 0 coils) [0..<size']"

definition write_multiple_coils ::
    "'st write_request_op \<Rightarrow> ('st, write_multiple_coils_pdu_resp) read_response_op \<Rightarrow>
     u8 \<Rightarrow> u16 \<Rightarrow> u8 list \<Rightarrow> ('st, error_code) operation" where
  "write_multiple_coils write_request read_response slave address values =
     assert_op (1 \<le> length values \<and> length values \<le> 1968) (
     let quantity = of_nat (length values) :: u16;
         count = of_nat ((unat quantity - 1) div 8 + 1) :: u8;
         req = write_multiple_coils_pdu_req_init\<lparr>wmc_starting_address := address,
           wmc_quantity_of_coils := quantity, wmc_byte_count := count,
           wmc_values := pack_values (unat count) values\<rparr> in
     bind_op (write_request slave (write_multiple_coils_pdu_req_write buffer_put req)) (\<lambda>transaction_id.
     construct_op (write_multiple_coils_pdu_resp_ctor (wmc_starting_address req) (wmc_quantity_of_coils req)) (\<lambda>resp.
     bind_op (read_response transaction_id slave fc_write_multiple_coils write_multiple_coils_pdu_resp_read resp) (\<lambda>(ec, resp).
     if failed ec then return_op ec else return_op no_error))))"

definition read_discrete_inputs ::
    "'st write_request_op \<Rightarrow> ('st, values_pdu_resp) read_response_op \<Rightarrow>
     u8 \<Rightarrow> u16 \<Rightarrow> u16 \<Rightarrow> u8 list \<Rightarrow> ('st, error_code \<times> u8 list) operation" where
  "read_discrete_inputs write_request read_response slave address quantity out =
     assert_op (1 \<le> quantity \<and> quantity \<le> 2000) (
     assert_op ((unat quantity - 1) div 8 + 1 \<le> length out) (
     let req = read_discrete_inputs_pdu_req_init\<lparr>rdi_starting_address := address, rdi_quantity_of_discrete_inputs := quantity\<rparr> in
     bind_op (write_request slave (read_discrete_inputs_pdu_req_write buffer_put req)) (\<lambda>transaction_id.
     let resp = read_discrete_inputs_pdu_resp_ctor (whole_span out) in
     bind_op (read_response transaction_id slave fc_read_discrete_inputs read_discrete_inputs_pdu_resp_read resp) (\<lambda>(ec, resp).
     let out' = span_array (resp_values resp) in
     if failed ec then return_op (ec, out')
     else if unat (byte_count resp) \<noteq> length out then return_op (make_error_code invalid_response, out')
     else return_op (no_error, out')))))"

section \<open>Registers\<close>

definition read_registers ::
    "'st write_request_op \<Rightarrow> ('st, values_pdu_resp) read_response_op \<Rightarrow>
     u8 \<Rightarrow> u16 \<Rightarrow> u8 list \<Rightarrow> ('st, error_code \<times> u8 list) operation" where
  "read_registers write_request read_response slave address out =
     (let req = read_holding_pdu_req_init\<lparr>rh_starting_address := address,
        rh_quantity_of_registers := of_nat (length out div 2)\<rparr> in
     bind_op (write_request slave (read_holding_pdu_req_write buffer_put req)) (\<lambda>transaction_id.
     let resp = read_holding_pdu_resp_ctor (whole_span out) in
     bind_op (read_response transaction_id slave fc_read_holding_registers read_holding_pdu_resp_read resp) (\<lambda>(ec, resp).
     let out' = span_array (resp_values resp) in
     if failed ec then return_op (ec, out')
     else if unat (byte_count resp) \<noteq> length out then return_op (make_error_code invalid_response, out')
     else return_op (no_error, out'))))"

text \<open>The loop that copies registers out of the local vector, whose elements are accessed without a check of the
  index.\<close>

definition copy_registers :: "u8 list \<Rightarrow> nat \<Rightarrow> ('st, u16 list) operation" where
  "copy_registers buf n st = (if 2 * n \<le> length buf then Return (decode_registers buf n) st else Undefined)"

definition read_registers_uint16 ::
    "'st write_request_op \<Rightarrow> ('st, values_pdu_resp) read_response_op \<Rightarrow>
     u8 \<Rightarrow> u16 \<Rightarrow> u16 list \<Rightarrow> ('st, error_code \<times> u16 list) operation" where
  "read_registers_uint16 write_request read_response slave address out =
     (let buf = replicate (length out * 2) 0 in
     bind_op (read_registers write_request read_response slave address buf) (\<lambda>(ec, buf).
     if failed ec then return_op (ec, out)
     else bind_op (copy_registers buf (length out)) (\<lambda>out. return_op (ec, out))))"

definition write_single_register ::
    "'st write_request_op \<Rightarrow> ('st, write_single_register_pdu_resp) read_response_op \<Rightarrow>
     u8 \<Rightarrow> u16 \<Rightarrow> u16 \<Rightarrow> ('st, error_code) operation" where
  "write_single_register write_request read_response slave address value =
     (let req = write_single_register_pdu_req_init\<lparr>wsr_address := address, wsr_value := value\<rparr> in
     bind_op (write_request slave (write_single_register_pdu_req_write buffer_put req)) (\<lambda>transaction_id.
     let resp = write_single_register_pdu_resp_ctor (wsr_address req) (wsr_value req) in
     bind_op (read_response transaction_id slave fc_write_single_register write_single_register_pdu_resp_read resp) (\<lambda>(ec, resp).
     if failed ec then return_op ec else return_op no_error)))"

text \<open>\<^verbatim>\<open>values.resize(n)\<close> and \<^verbatim>\<open>std::ranges::copy(src, values.begin())\<close>: the copy writes every element of
  the source range, so it runs over the end when \<open>n\<close> is smaller.\<close>

definition resize_copy :: "nat \<Rightarrow> u16 list \<Rightarrow> u16 list \<Rightarrow> u16 list option" where
  "resize_copy n src values =
     (let values = vector_resize n 0 values
      in if length src \<le> length values then Some (overwrite 0 src values) else None)"

definition write_multiple_registers ::
    "'st write_request_op \<Rightarrow> ('st, write_multiple_registers_pdu_resp) read_response_op \<Rightarrow>
     u8 \<Rightarrow> u16 \<Rightarrow> u16 list \<Rightarrow> ('st, error_code) operation" where
  "write_multiple_registers write_request read_response slave address values =
     (let quantity = of_nat (length values) :: u16;
          req = write_multiple_registers_pdu_req_init\<lparr>wmr_starting_address := address,
            wmr_quantity_of_registers := quantity, wmr_byte_count := of_nat (unat quantity * 2)\<rparr> in
     case resize_copy (unat quantity) values (wmr_values req) of
       None \<Rightarrow> (\<lambda>_. Undefined)
     | Some vs \<Rightarrow>
     let req = req\<lparr>wmr_values := vs\<rparr> in
     bind_op (write_request slave (write_multiple_registers_pdu_req_write buffer_put req)) (\<lambda>transaction_id.
     construct_op (write_multiple_registers_pdu_resp_ctor (wmr_starting_address req) (wmr_quantity_of_registers req)) (\<lambda>resp.
     bind_op (read_response transaction_id slave fc_write_multiple_registers write_multiple_registers_pdu_resp_read resp) (\<lambda>(ec, resp).
     if failed ec then return_op ec else return_op no_error))))"

definition read_write_multiple_registers ::
    "'st write_request_op \<Rightarrow> ('st, values_pdu_resp) read_response_op \<Rightarrow>
     u8 \<Rightarrow> u16 \<Rightarrow> u16 list \<Rightarrow> u16 \<Rightarrow> u16 list \<Rightarrow> ('st, error_code \<times> u16 list) operation" where
  "read_write_multiple_registers write_request read_response slave read_address read_values write_address write_values =
     (let quantity = of_nat (length write_values) :: u16;
          req = read_write_multiple_registers_pdu_req_init\<lparr>rwm_read_starting_address := read_address,
            rwm_read_quantity_of_registers := of_nat (length read_values),
            rwm_write_starting_address := write_address, rwm_write_quantity_of_registers := quantity,
            rwm_write_byte_count := of_nat (unat quantity * 2)\<rparr> in
     case resize_copy (unat quantity) write_values (rwm_values req) of
       None \<Rightarrow> (\<lambda>_. Undefined)
     | Some vs \<Rightarrow>
     let req = req\<lparr>rwm_values := vs\<rparr> in
     bind_op (write_request slave (read_write_multiple_registers_pdu_req_write buffer_put req)) (\<lambda>transaction_id.
     let buf = replicate (length read_values * 2) 0;
         resp = read_write_multiple_registers_pdu_resp_ctor (whole_span buf) in
     bind_op (read_response transaction_id slave fc_read_write_multiple_registers read_write_multiple_registers_pdu_resp_read resp) (\<lambda>(ec, resp).
     if failed ec then return_op (ec, read_values)
     else bind_op (copy_registers (span_array (resp_values resp)) (length read_values)) (\<lambda>read_values.
       return_op (ec, read_values)))))"

definition read_input_registers ::
    "'st write_request_op \<Rightarrow> ('st, values_pdu_resp) read_response_op \<Rightarrow>
     u8 \<Rightarrow> u16 \<Rightarrow> u8 list \<Rightarrow> ('st, error_code \<times> u8 list) operation" where
  "read_input_registers write_request read_response slave address out =
     (let req = read_input_pdu_req_init\<lparr>ri_starting_address := address,
        ri_quantity_of_registers := of_nat (length out div 2)\<rparr> in
     bind_op (write_request slave (read_input_pdu_req_write buffer_put req)) (\<lambda>transaction_id.
     let resp = read_input_pdu_resp_ctor (whole_span out) in
     bind_op (read_response transaction_id slave fc_read_input_registers read_input_pdu_resp_read resp) (\<lambda>(ec, resp).
     let out' = span_array (resp_values resp) in
     if failed ec then return_op (ec, out')
     else if unat (byte_count resp) \<noteq> length out then return_op (make_error_code invalid_response, out')
     else return_op (no_error, out'))))"

definition read_input_registers_uint16 ::
    "'st write_request_op \<Rightarrow> ('st, values_pdu_resp) read_response_op \<Rightarrow>
     u8 \<Rightarrow> u16 \<Rightarrow> u16 list \<Rightarrow> ('st, error_code \<times> u16 list) operation" where
  "read_input_registers_uint16 write_request read_response slave address out =
     (let buf = replicate (length out * 2) 0 in
     bind_op (read_input_registers write_request read_response slave address buf) (\<lambda>(ec, buf).
     if failed ec then return_op (ec, out)
     else bind_op (copy_registers buf (length out)) (\<lambda>out. return_op (ec, out))))"

end
