(* ===== verification/Tcp.thy ===== *)
theory Tcp
  imports Transport
begin

text \<open>
  Model of \<^verbatim>\<open>include/mothbus/adu/tcp.h\<close>, client side and framing: the MBAP header, \<^verbatim>\<open>parse_header\<close>,
  \<^verbatim>\<open>parse_body\<close>, and \<^verbatim>\<open>stream::write_request\<close>, \<^verbatim>\<open>read_response\<close> and \<^verbatim>\<open>write_response\<close>.

  The header as committed does not compile: \<^verbatim>\<open>parse_header\<close> assigns \<^verbatim>\<open>header.message_length\<close>, which
  is not a member of \<^verbatim>\<open>mbap_header\<close>, and returns \<^verbatim>\<open>h\<close>, which is not declared, and two calls of
  \<^verbatim>\<open>source.prepare\<close> lack a closing parenthesis. The model reads the member as \<^verbatim>\<open>length\<close>, the returned
  object as \<^verbatim>\<open>header\<close> and the calls as closed.
\<close>

section \<open>MBAP header\<close>

record mbap_header =
  hdr_transaction_id :: u16
  hdr_protocol :: u16
  hdr_length :: u16
  hdr_unit_id :: u8

definition header_size :: nat where
  [protocol_consts]: "header_size = 7"

definition max_adu_size :: nat where
  [protocol_consts]: "max_adu_size = 260"

definition mbap_header_init :: mbap_header where
  "mbap_header_init = \<lparr>hdr_transaction_id = 0, hdr_protocol = 0, hdr_length = 0, hdr_unit_id = 0\<rparr>"

definition is_valid_length :: "mbap_header \<Rightarrow> bool" where
  "is_valid_length h \<longleftrightarrow>
     unat (hdr_length h) \<ge> 2 \<and> unat (hdr_length h) + (header_size - 1) \<le> max_adu_size"

text \<open>\<^verbatim>\<open>parse_header\<close> commits what was read and ignores the error codes of the four reads.\<close>

definition parse_header :: "buffer \<Rightarrow> nat \<Rightarrow> (mbap_header \<times> buffer) option" where
  "parse_header source read_size = do {
     let header = mbap_header_init;
     let source = buffer_commit read_size source;
     (_, x, source) \<leftarrow> read_uint16 buffer_read source (hdr_transaction_id header);
     let header = header\<lparr>hdr_transaction_id := x\<rparr>;
     (_, x, source) \<leftarrow> read_uint16 buffer_read source (hdr_protocol header);
     let header = header\<lparr>hdr_protocol := x\<rparr>;
     (_, x, source) \<leftarrow> read_uint16 buffer_read source (hdr_length header);
     let header = header\<lparr>hdr_length := x\<rparr>;
     (_, x, source) \<leftarrow> buffer_read source (hdr_unit_id header);
     let header = header\<lparr>hdr_unit_id := x\<rparr>;
     Some (header, source)
   }"

definition parse_body :: "buffer \<Rightarrow> nat \<Rightarrow> pdu_req \<Rightarrow> (buffer, pdu_req) read_result" where
  "parse_body source read_size request =
     read_pdu_req buffer_read (buffer_commit read_size source) request"

section \<open>The stream\<close>

record 'n tcp_stream =
  m_message_buffer :: "u8 list"
  m_next_layer :: 'n
  m_protocol :: u16
  m_transaction_id :: u16

definition tcp_stream_ctor :: "'n \<Rightarrow> 'n tcp_stream" where
  "tcp_stream_ctor next_layer =
     \<lparr>m_message_buffer = replicate 320 0, m_next_layer = next_layer, m_protocol = 0,
      m_transaction_id = 0\<rparr>"

text \<open>The frame both writing functions build in the message buffer: header with a place holder for
  the length, unit identifier and PDU, then the actual length written over the place holder.
  \<open>write_pdu\<close> is \<^verbatim>\<open>pdu::write(writer, request)\<close>.\<close>

definition tcp_write_frame ::
    "u16 \<Rightarrow> u16 \<Rightarrow> u8 \<Rightarrow> (buffer \<Rightarrow> buffer option) \<Rightarrow> u8 list \<Rightarrow> buffer option" where
  "tcp_write_frame transaction_id protocol slave write_pdu array = do {
     let sink = buffer_of array;
     sink \<leftarrow> write_uint16 buffer_put transaction_id sink;
     sink \<leftarrow> write_uint16 buffer_put protocol sink;
     sink \<leftarrow> write_uint16 buffer_put 0 sink;
     sink \<leftarrow> write_uint8 buffer_put slave sink;
     sink \<leftarrow> write_pdu sink;
     let index = output_start sink;
     let len = of_nat (output_start sink - 6);
     let sink = sink\<lparr>output_start := 4\<rparr>;
     sink \<leftarrow> write_uint16 buffer_put len sink;
     let sink = sink\<lparr>output_start := index\<rparr>;
     Some (buffer_commit index sink)
   }"

definition tcp_write_request ::
    "'n network \<Rightarrow> u8 \<Rightarrow> (buffer \<Rightarrow> buffer option) \<Rightarrow> ('n tcp_stream, u16) operation" where
  "tcp_write_request net slave write_pdu st =
     (case do {
        sink \<leftarrow> tcp_write_frame (m_transaction_id st) (m_protocol st) slave write_pdu (m_message_buffer st);
        data \<leftarrow> buffer_data sink;
        Some (sink, data)
      } of
        None \<Rightarrow> Undefined
      | Some (sink, data) \<Rightarrow>
          let st = st\<lparr>m_message_buffer := message_buffer sink\<rparr> in
          (case mothbus_write net data (m_next_layer st) of
             Return _ n \<Rightarrow>
               Return (m_transaction_id st)
                 (st\<lparr>m_next_layer := n, m_transaction_id := m_transaction_id st + 1\<rparr>)
           | Throw ec n \<Rightarrow> Throw ec (st\<lparr>m_next_layer := n\<rparr>)
           | Assert_failed \<Rightarrow> Assert_failed
           | Undefined \<Rightarrow> Undefined))"

text \<open>\<^verbatim>\<open>write_response\<close> takes the transaction identifier of the request and drops the error code of
  the transfer.\<close>

definition tcp_write_response ::
    "'n network \<Rightarrow> u16 \<Rightarrow> u8 \<Rightarrow> (buffer \<Rightarrow> buffer option) \<Rightarrow> ('n tcp_stream, unit) operation" where
  "tcp_write_response net transaction_id slave write_pdu st =
     (case do {
        sink \<leftarrow> tcp_write_frame transaction_id (m_protocol st) slave write_pdu (m_message_buffer st);
        data \<leftarrow> buffer_data sink;
        Some (sink, data)
      } of
        None \<Rightarrow> Undefined
      | Some (sink, data) \<Rightarrow>
          let st = st\<lparr>m_message_buffer := message_buffer sink\<rparr>;
              (ec, n) = mothbus_write_ec net data (m_next_layer st)
          in Return () (st\<lparr>m_next_layer := n\<rparr>))"

text \<open>An operation on a source over the stream's message buffer.\<close>

definition on_source :: "(buffer \<times> 'n, 'a) operation \<Rightarrow> ('n tcp_stream, 'a) operation" where
  "on_source m st =
     (case m (buffer_of (m_message_buffer st), m_next_layer st) of
        Return x (source, n) \<Rightarrow>
          Return x (st\<lparr>m_message_buffer := message_buffer source, m_next_layer := n\<rparr>)
      | Throw ec (source, n) \<Rightarrow>
          Throw ec (st\<lparr>m_message_buffer := message_buffer source, m_next_layer := n\<rparr>)
      | Assert_failed \<Rightarrow> Assert_failed
      | Undefined \<Rightarrow> Undefined)"

definition tcp_read_response ::
    "'n network \<Rightarrow> u16 \<Rightarrow> u8 \<Rightarrow> function_code \<Rightarrow>
     (buffer read8 \<Rightarrow> buffer \<Rightarrow> 'v \<Rightarrow> (buffer, 'v) read_result) \<Rightarrow> 'v \<Rightarrow>
     ('n tcp_stream, error_code \<times> 'v) operation" where
  "tcp_read_response net expected_transaction_id expected_slave response_fc response_read out st =
     (if expected_slave = 0 then Return (make_error_code success, out) st
      else on_source (
        bind_op (receive_op net header_size) (\<lambda>_.
        bind_op (lift_read (read_uint16 buffer_read) 0) (\<lambda>(ec, received_transaction_id).
        if failed ec then return_op (ec, out) else
        bind_op (lift_read (read_uint16 buffer_read) 0) (\<lambda>(ec, protocol).
        if failed ec then return_op (ec, out) else
        bind_op (lift_read (read_uint16 buffer_read) 0) (\<lambda>(ec, len).
        if failed ec then return_op (ec, out) else
        bind_op (lift_read buffer_read 0) (\<lambda>(ec, received_slave).
        if failed ec then return_op (ec, out) else
        if received_transaction_id \<noteq> expected_transaction_id
        then return_op (make_error_code transaction_id_invalid, out) else
        if protocol \<noteq> m_protocol st then return_op (make_error_code illegal_protocol, out) else
        if received_slave \<noteq> expected_slave
        then return_op (make_error_code slave_id_invalid, out) else
        if unat len + 6 > 255 \<or> unat len \<le> 1
        then return_op (make_error_code invalid_response, out) else
        bind_op (receive_op net (unat len - 1)) (\<lambda>_.
        bind_op (lift_read (read_pdu_resp buffer_read response_fc response_read) out) (\<lambda>(ec, out).
        if failed ec then return_op (ec, out)
        else return_op (make_error_code success, out))))))))) st)"

end
