(* ===== verification/Response_Reader.thy ===== *)
theory Response_Reader
  imports Transport "HOL-Library.Sublist"
begin

text \<open>
  The interface between the streams and the response classes. \<open>read_response\<close> of both streams is a
  template over the class \<^verbatim>\<open>Resp\<close>; what it relies on is the locale \<open>response_reader\<close>: reading from the
  message buffer is reading from the list of pending bytes, it always has a defined result, and it
  leaves a suffix of what was pending. The nine classes are its interpretations.
\<close>

section \<open>Reading leaves a suffix\<close>

definition leaves_suffix :: "u8 list \<Rightarrow> (u8 list, 'v) read_result \<Rightarrow> bool" where
  "leaves_suffix bs m \<longleftrightarrow> (\<exists>ec v rest. m = Some (ec, v, rest) \<and> suffix rest bs)"

named_theorems suffix_rules \<open>introduction rules of \<open>leaves_suffix\<close>\<close>

lemma leaves_suffix_Some [suffix_rules]: "suffix rest bs \<Longrightarrow> leaves_suffix bs (Some (ec, v, rest))"
  by (simp add: leaves_suffix_def)

lemma leaves_suffix_bind [suffix_rules]:
  "leaves_suffix bs m \<Longrightarrow> (\<And>ec v rest. suffix rest bs \<Longrightarrow> leaves_suffix bs (f (ec, v, rest))) \<Longrightarrow>
   leaves_suffix bs (m \<bind> f)"
  by (auto simp: leaves_suffix_def)

lemma leaves_suffix_if [suffix_rules]:
  "(c \<Longrightarrow> leaves_suffix bs a) \<Longrightarrow> (\<not> c \<Longrightarrow> leaves_suffix bs b) \<Longrightarrow> leaves_suffix bs (if c then a else b)"
  by simp

lemma leaves_suffix_Let [suffix_rules]: "(\<And>x. leaves_suffix bs (f x)) \<Longrightarrow> leaves_suffix bs (Let e f)"
  by (simp add: Let_def)

lemma leaves_suffix_case_prod [suffix_rules]:
  "leaves_suffix bs (f ec v rest) \<Longrightarrow> leaves_suffix bs (case (ec, v, rest) of (ec, v, rest) \<Rightarrow> f ec v rest)"
  by simp

lemma leaves_suffix_checked_return [suffix_rules]:
  "suffix rest bs \<Longrightarrow> (\<And>v. leaves_suffix bs (k v rest)) \<Longrightarrow> leaves_suffix bs (moth_checked_return ec v rest k)"
  by (simp add: moth_checked_return_def suffix_rules)

lemma leaves_suffix_byte [suffix_rules]: "suffix xs bs \<Longrightarrow> leaves_suffix bs (checked_read xs v)"
  by (cases xs) (auto simp: leaves_suffix_def checked_end_def dest: suffix_ConsD)

lemma leaves_suffix_uint16 [suffix_rules]: "suffix xs bs \<Longrightarrow> leaves_suffix bs (read_uint16 checked_read xs v)"
  unfolding read_uint16_def by (intro suffix_rules)

lemma leaves_suffix_bytes [suffix_rules]: "suffix xs bs \<Longrightarrow> leaves_suffix bs (read_bytes checked_read xs vs)"
  by (induction vs arbitrary: xs) (auto intro!: suffix_rules)

lemma leaves_suffix_span [suffix_rules]: "suffix xs bs \<Longrightarrow> leaves_suffix bs (read_span checked_read xs s)"
  unfolding read_span_def by (intro suffix_rules)

lemma leaves_suffix_exception [suffix_rules]:
  "suffix xs bs \<Longrightarrow> leaves_suffix bs (read_modbus_exception_code checked_read xs v)"
  unfolding read_modbus_exception_code_def by (intro suffix_rules)

section \<open>The interface\<close>

locale response_reader =
  fixes fc :: function_code
    and rsp :: "buffer read8 \<Rightarrow> buffer \<Rightarrow> 'v \<Rightarrow> (buffer, 'v) read_result"
    and lrsp :: "u8 list read8 \<Rightarrow> u8 list \<Rightarrow> 'v \<Rightarrow> (u8 list, 'v) read_result"
  assumes fc_normal: "fc AND 0x80 = 0"
    and alike: "reads_alike (rsp buffer_read) (lrsp checked_read)"
    and leaves: "leaves_suffix bs (lrsp checked_read bs v)"
begin

abbreviation read_resp :: "u8 list \<Rightarrow> 'v \<Rightarrow> (u8 list, 'v) read_result" where
  "read_resp \<equiv> read_pdu_resp checked_read fc lrsp"

lemma resp_alike: "reads_alike (read_pdu_resp buffer_read fc rsp) read_resp"
  by (rule reads_alike_pdu_resp [where lrsp = lrsp], rule alike)

lemma leaves_lrsp: "suffix xs bs \<Longrightarrow> leaves_suffix bs (lrsp checked_read xs v)"
  using leaves [of xs v] unfolding leaves_suffix_def by (auto intro: suffix_order.trans)

lemma resp_leaves: "leaves_suffix bs (read_resp bs v)"
  unfolding read_pdu_resp_def by (intro suffix_rules leaves_lrsp suffix_order.refl)

lemma resp_outcome: obtains ec v' rest where "read_resp bs v = Some (ec, v', rest)" "suffix rest bs"
  using resp_leaves [of bs v] by (auto simp: leaves_suffix_def)

end

section \<open>The nine classes\<close>

interpretation coils_resp: response_reader fc_read_coils
  read_coils_pdu_resp_read read_coils_pdu_resp_read
proof
  show "reads_alike (read_coils_pdu_resp_read buffer_read) (read_coils_pdu_resp_read checked_read)"
    by (simp add: reads_alike_def buf.sim_read_coils_pdu_resp)
  show "leaves_suffix bs (read_coils_pdu_resp_read checked_read bs v)" for bs v
    unfolding read_coils_pdu_resp_read_def by (intro suffix_rules) simp_all
qed simp

interpretation discrete_resp: response_reader fc_read_discrete_inputs
  read_discrete_inputs_pdu_resp_read read_discrete_inputs_pdu_resp_read
proof
  show "reads_alike (read_discrete_inputs_pdu_resp_read buffer_read) (read_discrete_inputs_pdu_resp_read checked_read)"
    by (simp add: reads_alike_def buf.sim_read_discrete_inputs_pdu_resp)
  show "leaves_suffix bs (read_discrete_inputs_pdu_resp_read checked_read bs v)" for bs v
    unfolding read_discrete_inputs_pdu_resp_read_def by (intro suffix_rules) simp_all
qed simp

interpretation holding_resp: response_reader fc_read_holding_registers
  read_holding_pdu_resp_read read_holding_pdu_resp_read
proof
  show "reads_alike (read_holding_pdu_resp_read buffer_read) (read_holding_pdu_resp_read checked_read)"
    by (simp add: reads_alike_def buf.sim_read_holding_pdu_resp)
  show "leaves_suffix bs (read_holding_pdu_resp_read checked_read bs v)" for bs v
    unfolding read_holding_pdu_resp_read_def by (intro suffix_rules) simp_all
qed simp

interpretation input_resp: response_reader fc_read_input_registers
  read_input_pdu_resp_read read_input_pdu_resp_read
proof
  show "reads_alike (read_input_pdu_resp_read buffer_read) (read_input_pdu_resp_read checked_read)"
    by (simp add: reads_alike_def buf.sim_read_input_pdu_resp)
  show "leaves_suffix bs (read_input_pdu_resp_read checked_read bs v)" for bs v
    unfolding read_input_pdu_resp_read_def by (intro suffix_rules) simp_all
qed simp

interpretation rwm_resp: response_reader fc_read_write_multiple_registers
  read_write_multiple_registers_pdu_resp_read read_write_multiple_registers_pdu_resp_read
proof
  show "reads_alike (read_write_multiple_registers_pdu_resp_read buffer_read) (read_write_multiple_registers_pdu_resp_read checked_read)"
    by (simp add: reads_alike_def buf.sim_read_write_multiple_registers_pdu_resp)
  show "leaves_suffix bs (read_write_multiple_registers_pdu_resp_read checked_read bs v)" for bs v
    unfolding read_write_multiple_registers_pdu_resp_read_def by (intro suffix_rules) simp_all
qed simp

interpretation coil_resp: response_reader fc_write_single_coil
  write_single_coil_pdu_resp_read write_single_coil_pdu_resp_read
proof
  show "reads_alike (write_single_coil_pdu_resp_read buffer_read) (write_single_coil_pdu_resp_read checked_read)"
    by (simp add: reads_alike_def buf.sim_write_single_coil_pdu_resp)
  show "leaves_suffix bs (write_single_coil_pdu_resp_read checked_read bs v)" for bs v
    unfolding write_single_coil_pdu_resp_read_def by (intro suffix_rules) simp_all
qed simp

interpretation register_resp: response_reader fc_write_single_register
  write_single_register_pdu_resp_read write_single_register_pdu_resp_read
proof
  show "reads_alike (write_single_register_pdu_resp_read buffer_read) (write_single_register_pdu_resp_read checked_read)"
    by (simp add: reads_alike_def buf.sim_write_single_register_pdu_resp)
  show "leaves_suffix bs (write_single_register_pdu_resp_read checked_read bs v)" for bs v
    unfolding write_single_register_pdu_resp_read_def by (intro suffix_rules) simp_all
qed simp

interpretation mcoils_resp: response_reader fc_write_multiple_coils
  write_multiple_coils_pdu_resp_read write_multiple_coils_pdu_resp_read
proof
  show "reads_alike (write_multiple_coils_pdu_resp_read buffer_read) (write_multiple_coils_pdu_resp_read checked_read)"
    by (simp add: reads_alike_def buf.sim_write_multiple_coils_pdu_resp)
  show "leaves_suffix bs (write_multiple_coils_pdu_resp_read checked_read bs v)" for bs v
    unfolding write_multiple_coils_pdu_resp_read_def by (intro suffix_rules) simp_all
qed simp

interpretation mregisters_resp: response_reader fc_write_multiple_registers
  write_multiple_registers_pdu_resp_read write_multiple_registers_pdu_resp_read
proof
  show "reads_alike (write_multiple_registers_pdu_resp_read buffer_read) (write_multiple_registers_pdu_resp_read checked_read)"
    by (simp add: reads_alike_def buf.sim_write_multiple_registers_pdu_resp)
  show "leaves_suffix bs (write_multiple_registers_pdu_resp_read checked_read bs v)" for bs v
    unfolding write_multiple_registers_pdu_resp_read_def by (intro suffix_rules) simp_all
qed simp

end
