(* ===== verification/Wire.thy ===== *)
theory Wire
  imports Transport
begin

text \<open>
  A concrete network layer: a connection whose incoming bytes are given and whose outgoing bytes are
  recorded. It shows that \<open>asio_contract\<close> can hold and lets concrete exchanges be evaluated. Reading
  past the incoming bytes is the end-of-file error of \<^verbatim>\<open>boost::asio\<close>; a read raced against a timer
  finds the line silent instead.
\<close>

record wire =
  incoming :: "u8 list"
  outgoing :: "u8 list"

definition wire_eof :: error_code where
  "wire_eof = \<lparr>ec_value = 2, ec_category = other_category\<rparr>"

definition wire_read :: "nat \<Rightarrow> wire \<Rightarrow> error_code \<times> u8 list \<times> wire" where
  "wire_read n w =
     (if n \<le> length (incoming w)
      then (no_error, take n (incoming w), w\<lparr>incoming := drop n (incoming w)\<rparr>)
      else (wire_eof, incoming w, w\<lparr>incoming := []\<rparr>))"

definition wire_net :: "wire network" where
  "wire_net = \<lparr>net_write = (\<lambda>bs w. (no_error, w\<lparr>outgoing := outgoing w @ bs\<rparr>)),
     net_read = wire_read, net_read_until = (\<lambda>_. wire_read)\<rparr>"

lemma wire_eof_failed [simp]: "failed wire_eof"
  by (simp add: wire_eof_def failed_def)

lemma wire_net_simps [simp]:
  "net_write wire_net bs w = (no_error, w\<lparr>outgoing := outgoing w @ bs\<rparr>)"
  "net_read wire_net n w = wire_read n w"
  "net_read_until wire_net t n w = wire_read n w"
  by (simp_all add: wire_net_def)

lemma wire_contract [simp]: "asio_contract wire_net"
  by (simp add: asio_contract_def wire_read_def)

end
