(* ===== verification/Tcp_Laws.thy ===== *)
theory Tcp_Laws
  imports Tcp Response_Reader Wire
begin

text \<open>
  What the client side of \<^verbatim>\<open>adu/tcp.h\<close> sends and accepts: the frame \<open>write_request\<close> and
  \<open>write_response\<close> build, when it fits the 320 bytes of the stream, and what \<open>read_response\<close> makes of
  the bytes a server sends.
\<close>

section \<open>Frames\<close>

definition mbap_frame :: "u16 \<Rightarrow> u16 \<Rightarrow> u8 \<Rightarrow> u8 list \<Rightarrow> u8 list" where
  "mbap_frame tid proto slave pdu =
     (let len = of_nat (1 + length pdu) :: u16
      in [hi8 tid, lo8 tid, hi8 proto, lo8 proto, hi8 len, lo8 len, slave] @ pdu)"

lemma length_mbap_frame [simp]: "length (mbap_frame tid proto slave pdu) = 7 + length pdu"
  by (simp add: mbap_frame_def Let_def)

lemma tcp_write_frame_form:
  "tcp_write_frame tid proto slave (put_all buffer_put pdu) array =
     (if 7 + length pdu \<le> length array
      then Some \<lparr>message_buffer = overwrite 0 (mbap_frame tid proto slave pdu) array,
                 input_start = 0, input_end = 7 + length pdu, output_start = 2 * (7 + length pdu)\<rparr>
      else None)"
proof -
  let ?h = "[hi8 tid, lo8 tid, hi8 proto, lo8 proto, 0, 0, slave]"
  have zero: "hi8 0 = 0" "lo8 0 = 0"
    by (simp_all add: hi8_def lo8_def)
  have front: "do {
      sink \<leftarrow> write_uint16 buffer_put tid (buffer_of array);
      sink \<leftarrow> write_uint16 buffer_put proto sink;
      sink \<leftarrow> write_uint16 buffer_put 0 sink;
      sink \<leftarrow> write_uint8 buffer_put slave sink;
      sink \<leftarrow> put_all buffer_put pdu sink;
      f sink } = put_all buffer_put (?h @ pdu) (buffer_of array) \<bind> f" for f :: "buffer \<Rightarrow> buffer option"
    by (simp add: write_forms put_all_unfold zero)
  have over: "overwrite 4 [a, b] (overwrite 0 (?h @ pdu) array) =
      overwrite 0 ([hi8 tid, lo8 tid, hi8 proto, lo8 proto, a, b, slave] @ pdu) array" for a b
    by (simp add: overwrite_def)
  show ?thesis
    unfolding tcp_write_frame_def Let_def front
    unfolding write_uint16_form buffer_put_all
    using over by (simp add: buffer_of_def buffer_commit_def mbap_frame_def Let_def)
qed

lemma take_frame [simp]:
  "take (7 + length pdu) (overwrite 0 (mbap_frame tid proto slave pdu) mb) =
   mbap_frame tid proto slave pdu"
  by (simp add: overwrite_def)

lemma tcp_write_request_form:
  "tcp_write_request net slave (put_all buffer_put pdu) st =
     (if 7 + length pdu \<le> length (m_message_buffer st)
      then let frame = mbap_frame (m_transaction_id st) (m_protocol st) slave pdu;
               (ec, n) = net_write net frame (m_next_layer st);
               st' = st\<lparr>m_message_buffer := overwrite 0 frame (m_message_buffer st), m_next_layer := n\<rparr>
           in if failed ec then Throw ec st'
              else Return (m_transaction_id st) (st'\<lparr>m_transaction_id := m_transaction_id st + 1\<rparr>)
      else Undefined)"
  by (simp add: tcp_write_request_def tcp_write_frame_form buffer_data_def mothbus_write_def Let_def
      split: prod.splits)

lemma tcp_write_response_form:
  "tcp_write_response net tid slave (put_all buffer_put pdu) st =
     (if 7 + length pdu \<le> length (m_message_buffer st)
      then let frame = mbap_frame tid (m_protocol st) slave pdu
           in Return () (st\<lparr>m_message_buffer := overwrite 0 frame (m_message_buffer st),
                m_next_layer := snd (net_write net frame (m_next_layer st))\<rparr>)
      else Undefined)"
  by (simp add: tcp_write_response_def tcp_write_frame_form buffer_data_def mothbus_write_ec_def Let_def
      split: prod.splits)

section \<open>Reading a response\<close>

text \<open>The check of a received header: the error code it is rejected with, or the number of bytes that
  follow it.\<close>

fun header_check :: "u16 \<Rightarrow> u16 \<Rightarrow> u8 \<Rightarrow> u8 list \<Rightarrow> error_code + nat" where
  "header_check tid proto slave [a, b, c, d, e, f, u] =
     (if be16 a b \<noteq> tid then Inl (make_error_code transaction_id_invalid)
      else if be16 c d \<noteq> proto then Inl (make_error_code illegal_protocol)
      else if u \<noteq> slave then Inl (make_error_code slave_id_invalid)
      else if unat (be16 e f) + 6 > 255 \<or> unat (be16 e f) \<le> 1 then Inl (make_error_code invalid_response)
      else Inr (unat (be16 e f) - 1))"
| "header_check tid proto slave _ = Inl no_error"

text \<open>\<open>read_response\<close> with the buffer abstracted away: \<open>rsp\<close> reads the body from the list of received
  bytes.\<close>

definition tcp_response_spec ::
    "'n network \<Rightarrow> u16 \<Rightarrow> u8 \<Rightarrow> (u8 list \<Rightarrow> 'v \<Rightarrow> (u8 list, 'v) read_result) \<Rightarrow> 'v \<Rightarrow>
     ('n tcp_stream, error_code \<times> 'v) operation" where
  "tcp_response_spec net tid slave rsp out st =
     (if slave = 0 then Return (make_error_code success, out) st
      else let (ec, h, n) = net_read net header_size (m_next_layer st);
               seen = \<lambda>bs n. st\<lparr>m_message_buffer := overwrite 0 bs (m_message_buffer st), m_next_layer := n\<rparr>
           in if failed ec then Throw ec (seen h n)
              else (case header_check tid (m_protocol st) slave h of
                  Inl ec \<Rightarrow> Return (ec, out) (seen h n)
                | Inr k \<Rightarrow>
                    let (ec, body, n) = net_read net k n
                    in if failed ec then Throw ec (seen (h @ body) n)
                       else (case rsp body out of
                           None \<Rightarrow> Undefined
                         | Some (ec, out, _) \<Rightarrow>
                             Return (if failed ec then ec else make_error_code success, out)
                               (seen (h @ body) n))))"

text \<open>A frame that arrives in the two transfers of \<open>read_response\<close>.\<close>

definition receives_frame :: "'n network \<Rightarrow> 'n \<Rightarrow> u8 list \<Rightarrow> 'n \<Rightarrow> bool" where
  "receives_frame net n frame n' \<longleftrightarrow>
     (case net_read net 7 n of (ec1, h, n1) \<Rightarrow>
        \<not> failed ec1 \<and> h = take 7 frame \<and>
        (case net_read net (length frame - 7) n1 of (ec2, body, n2) \<Rightarrow>
           \<not> failed ec2 \<and> body = drop 7 frame \<and> n2 = n'))"

lemma mbap_frame_parts:
  "take 7 (mbap_frame tid proto slave pdu) =
     [hi8 tid, lo8 tid, hi8 proto, lo8 proto, hi8 (of_nat (1 + length pdu)), lo8 (of_nat (1 + length pdu)), slave]"
  "drop 7 (mbap_frame tid proto slave pdu) = pdu"
  "take 7 (mbap_frame tid proto slave pdu) @ pdu = mbap_frame tid proto slave pdu"
  by (simp_all add: mbap_frame_def Let_def)

lemma header_check_frame:
  assumes "1 \<le> length pdu" "length pdu \<le> 248"
  shows "header_check tid proto slave (take 7 (mbap_frame tid proto slave pdu)) = Inr (length pdu)"
  using assms unat_of_nat_u16 [of "1 + length pdu"]
  by (simp only: mbap_frame_parts header_check.simps be16_hi8_lo8) auto

lemma tcp_response_of_frame:
  assumes "receives_frame net (m_next_layer st) (mbap_frame tid (m_protocol st) slave pdu) n'"
    "slave \<noteq> 0" "1 \<le> length pdu" "length pdu \<le> 248" "rsp pdu out = Some (ec, out', rest)"
  shows "tcp_response_spec net tid slave rsp out st =
    Return (if failed ec then ec else make_error_code success, out')
      (st\<lparr>m_message_buffer := overwrite 0 (mbap_frame tid (m_protocol st) slave pdu) (m_message_buffer st),
          m_next_layer := n'\<rparr>)"
  using assms header_check_frame [OF assms(3,4), of tid "m_protocol st" slave]
  by (auto simp: tcp_response_spec_def receives_frame_def header_size_def Let_def mbap_frame_parts(2,3)
      split: prod.splits)

lemma overwrite_overwrite:
  "length xs + length ys \<le> length zs \<Longrightarrow>
   overwrite (length xs) ys (overwrite 0 xs zs) = overwrite 0 (xs @ ys) zs"
  by (simp add: overwrite_def add.commute)

lemma header_check_bound: "header_check tid proto slave h = Inr k \<Longrightarrow> 1 \<le> k \<and> k \<le> 248 \<and> length h = 7"
  by (induction tid proto slave h rule: header_check.induct) (auto split: if_splits)

lemmas header_reads = lift_received(1) [of 0 7, unfolded add_0] lift_received(1) [of 2 7, simplified]
  lift_received(1) [of 4 7, simplified] lift_received(2) [of 6 7, simplified]

lemma read_header_form:
  assumes h: "net_read net 7 s = (ec, h, n)" and ok: "\<not> failed ec" and hs: "h = [a, b, c, d, e, f, u]"
    and len: "7 \<le> length mb"
  shows "bind_op (receive_op net 7) (\<lambda>_.
      bind_op (lift_read (read_uint16 buffer_read) 0) (\<lambda>(ec, t).
      if failed ec then return_op (ec, out) else
      bind_op (lift_read (read_uint16 buffer_read) 0) (\<lambda>(ec, p).
      if failed ec then return_op (ec, out) else
      bind_op (lift_read (read_uint16 buffer_read) 0) (\<lambda>(ec, l).
      if failed ec then return_op (ec, out) else
      bind_op (lift_read buffer_read 0) (\<lambda>(ec, s).
      if failed ec then return_op (ec, out) else g t p l s))))) (received mb 0 0, s) =
    g (be16 a b) (be16 c d) (be16 e f) u (received (overwrite 0 h mb) 7 7, n)"
proof -
  let ?mb' = "overwrite 0 h mb"
  have "?mb' ! 0 = a" "?mb' ! 1 = b" "?mb' ! 2 = c" "?mb' ! 3 = d" "?mb' ! 4 = e" "?mb' ! 5 = f"
      "?mb' ! 6 = u"
    by (simp_all add: hs overwrite_def)
  moreover have "length h = 7"
    by (simp add: hs)
  ultimately show ?thesis
    using receive_op_received [OF h, of 0 mb 0] ok len by (simp add: bind_op_def header_reads)
qed

lemma read_body_form:
  assumes b: "net_read net k n = (ec, body, n')" and hl: "length h = 7" and bl: "length body \<le> k"
    and len: "7 + k \<le> length mb"
    and sim: "reads_alike rd lrd"
  shows "bind_op (receive_op net k) (\<lambda>_. bind_op (lift_read rd out) f) (received (overwrite 0 h mb) 7 7, n) =
    (if failed ec then Throw ec ((received (overwrite 0 h mb) 7 7)\<lparr>message_buffer := overwrite 0 (h @ body) mb\<rparr>, n')
     else case lrd body out of
       None \<Rightarrow> Undefined
     | Some (ec, v, bs) \<Rightarrow>
         f (ec, v) (received (overwrite 0 (h @ body) mb) (7 + length body) (7 + length body - length bs), n'))"
proof -
  have over: "overwrite 7 body (overwrite 0 h mb) = overwrite 0 (h @ body) mb"
    using overwrite_overwrite [of h body mb] bl len hl by simp
  have pending: "take (7 + length body - 7) (drop 7 (overwrite 0 (h @ body) mb)) = body"
    using hl by (simp add: overwrite_def)
  have "lift_read rd out (received (overwrite 0 (h @ body) mb) (7 + length body) 7, n') =
      (case lrd body out of
         None \<Rightarrow> Undefined
       | Some (ec, v, bs) \<Rightarrow> Return (ec, v)
           (received (overwrite 0 (h @ body) mb) (7 + length body) (7 + length body - length bs), n'))"
    using bl len hl pending by (subst lift_read_received [where lrd = lrd]) (auto intro!: sim)
  with receive_op_received [OF b bl, of 7 "overwrite 0 h mb" 7] bl len hl over show ?thesis
    by (simp add: bind_op_def split: option.splits)
qed

context response_reader
begin

lemma tcp_read_response_refines:
  assumes net: "asio_contract net" and len: "length (m_message_buffer st) = 320"
  shows "tcp_read_response net tid slave fc rsp out st = tcp_response_spec net tid slave read_resp out st"
proof (cases "slave = 0")
  case True
  then show ?thesis by (simp add: tcp_read_response_def tcp_response_spec_def)
next
  case slave: False
  let ?mb = "m_message_buffer st"
  note defs = tcp_read_response_def on_source_def buffer_of_received header_size_def
  obtain ec h n where h: "net_read net 7 (m_next_layer st) = (ec, h, n)"
    by (metis prod_cases3)
  have hl: "length h \<le> 7" "\<not> failed ec \<Longrightarrow> length h = 7"
    using asio_read_bound [OF net h] asio_read_length [OF net h] by auto
  show ?thesis
  proof (cases "failed ec")
    case True
    then show ?thesis
      using slave h hl len receive_op_received [OF h hl(1), of 0 ?mb 0]
      by (simp add: defs tcp_response_spec_def bind_op_def)
  next
    case ok: False
    then obtain a b c d e f u where hs: "h = [a, b, c, d, e, f, u]"
      using hl(2) by (auto simp: numeral_eq_Suc length_Suc_conv)
    have "7 \<le> length ?mb" using len by simp
    note front = read_header_form [OF h ok hs this]
    show ?thesis
    proof (cases "header_check tid (m_protocol st) slave h")
      case (Inl err)
      then show ?thesis
        using slave h ok hs
        by (auto simp: defs tcp_response_spec_def front Let_def split: if_splits)
    next
      case (Inr k)
      obtain ec2 body n2 where b: "net_read net k n = (ec2, body, n2)"
        by (metis prod_cases3)
      have bl: "length body \<le> k" "7 + k \<le> length ?mb"
        using asio_read_bound [OF net b] header_check_bound [OF Inr] len by auto
      have k: "be16 a b = tid" "be16 c d = m_protocol st" "u = slave" "\<not> unat (be16 e f) + 6 > 255"
          "\<not> unat (be16 e f) \<le> Suc 0" "unat (be16 e f) - Suc 0 = k"
        using Inr hs by (auto split: if_splits)
      note body = read_body_form [OF b hl(2) [OF ok] bl resp_alike]
      show ?thesis
        using slave h ok b Inr
        by (auto simp: defs front body tcp_response_spec_def Let_def k split: option.splits)
    qed
  qed
qed

text \<open>Whatever the server and the network do, no byte outside the array is touched.\<close>

lemma tcp_read_response_safe:
  assumes "asio_contract net" "length (m_message_buffer st) = 320"
  shows "\<exists>st'. length (m_message_buffer st') = 320 \<and> m_transaction_id st' = m_transaction_id st \<and>
    m_protocol st' = m_protocol st \<and>
    ((\<exists>ec out'. tcp_read_response net tid slave fc rsp out st = Return (ec, out') st')
     \<or> (\<exists>ec. failed ec \<and> tcp_read_response net tid slave fc rsp out st = Throw ec st'))"
proof (cases "slave = 0")
  case True
  then show ?thesis
    using assms by (intro exI [of _ st]) (simp add: tcp_read_response_refines tcp_response_spec_def)
next
  case slave: False
  let ?seen = "\<lambda>bs n. st\<lparr>m_message_buffer := overwrite 0 bs (m_message_buffer st), m_next_layer := n\<rparr>"
  obtain ec h n where h: "net_read net 7 (m_next_layer st) = (ec, h, n)"
    by (metis prod_cases3)
  have hl: "length h \<le> 7"
    using asio_read_bound [OF assms(1) h] .
  note forms = tcp_read_response_refines [OF assms] tcp_response_spec_def header_size_def slave h Let_def
  show ?thesis
  proof (cases "\<exists>k. \<not> failed ec \<and> header_check tid (m_protocol st) slave h = Inr k")
    case True
    then obtain k where k: "\<not> failed ec" "header_check tid (m_protocol st) slave h = Inr k"
      by blast
    obtain ec2 body n2 where b: "net_read net k n = (ec2, body, n2)"
      by (metis prod_cases3)
    obtain ec3 out' rest where "read_resp body out = Some (ec3, out', rest)"
      by (rule resp_outcome)
    moreover have "length body \<le> 248"
      using asio_read_bound [OF assms(1) b] header_check_bound [OF k(2)] by simp
    ultimately show ?thesis
      using k b hl assms(2) by (intro exI [of _ "?seen (h @ body) n2"]) (simp add: forms)
  next
    case False
    then show ?thesis
      using hl assms(2) by (intro exI [of _ "?seen h n"]) (auto simp: forms split: sum.split)
  qed
qed

end

lemmas tcp_read_response_refinement_eq = response_reader.tcp_read_response_refines

lemma header_check_Inl:
  "header_check tid proto slave h = Inl e \<Longrightarrow> length h = 7 \<Longrightarrow> failed e"
  by (induction tid proto slave h rule: header_check.induct) (auto split: if_splits)

lemma header_check_frame_of:
  assumes "header_check tid proto slave h = Inr k" "length bs = k"
  shows "take 7 (mbap_frame tid proto slave bs) = h"
proof -
  have "length h = 7"
    using header_check_bound [OF assms(1)] by simp
  then obtain a b c d e f u where hs: "h = [a, b, c, d, e, f, u]"
    by (auto simp: numeral_eq_Suc length_Suc_conv)
  have "1 + length bs = unat (be16 e f)" "be16 a b = tid" "be16 c d = proto" "u = slave"
    using assms by (auto simp: hs split: if_splits)
  then have "of_nat (1 + length bs) = be16 e f" "be16 a b = tid" "be16 c d = proto" "u = slave"
    by (simp_all only: of_nat_unat ucast_id)
  then show ?thesis
    by (simp only: mbap_frame_parts hs) auto
qed

section \<open>Properties\<close>

text \<open>C22. \<^verbatim>\<open>tcp::stream::write_request\<close> on a well-sized stream sends one frame: transaction identifier,
  protocol, length of the rest, slave and the encoded request, each field most significant byte first.
  It returns the transaction identifier it used and moves on to the next one modulo 65536; a transfer
  error is thrown and keeps the identifier. It does so exactly when the PDU has at most 313 bytes; a longer
  one writes behind the message buffer.\<close>

theorem tcp_write_request_sends:
  assumes "length (m_message_buffer st) = 320" "pdu_req_writable v"
  shows "tcp_write_request net slave (write_pdu_req buffer_put v) st =
    (if length (pdu_req_bytes v) \<le> 313
     then let frame = mbap_frame (m_transaction_id st) (m_protocol st) slave (pdu_req_bytes v);
              (ec, n) = net_write net frame (m_next_layer st);
              st' = st\<lparr>m_message_buffer := overwrite 0 frame (m_message_buffer st), m_next_layer := n\<rparr>
          in if failed ec then Throw ec st'
             else Return (m_transaction_id st) (st'\<lparr>m_transaction_id := m_transaction_id st + 1\<rparr>)
     else Undefined)"
proof -
  have "write_pdu_req buffer_put v = put_all buffer_put (pdu_req_bytes v)"
    using assms(2) by (intro ext) (simp add: write_pdu_req_form)
  then show ?thesis
    using assms(1) by (simp add: tcp_write_request_form)
qed

theorem tcp_write_request_sends_witness:
  "\<exists>st'. tcp_write_request wire_net 9 (write_pdu_req buffer_put (Read_holding
       \<lparr>rh_starting_address = 0x10, rh_quantity_of_registers = 2\<rparr>))
     ((tcp_stream_ctor \<lparr>incoming = [], outgoing = []\<rparr>)\<lparr>m_transaction_id := 0xFFFF\<rparr>) = Return 0xFFFF st'
   \<and> m_transaction_id st' = 0
   \<and> outgoing (m_next_layer st') = [0xFF, 0xFF, 0, 0, 0, 6, 9, 3, 0, 0x10, 0, 2]"
  by (subst tcp_write_request_sends)
    (simp_all add: tcp_stream_ctor_def pdu_req_bytes_def encodings protocol_consts mbap_frame_def
      hi8_def lo8_def take_bit_eq_mod Let_def)

text \<open>C11. \<^verbatim>\<open>tcp::stream::read_response\<close>, for every response class that meets the reader interface, does on
  the message buffer what the specification \<open>tcp_response_spec\<close> does on lists of received bytes:
  read seven bytes, check identifier, protocol, slave and length in this order, read the body, decode it.\<close>

theorem tcp_read_response_refinement:
  assumes "response_reader fc rsp lrsp" "asio_contract net" "length (m_message_buffer st) = 320"
  shows "tcp_read_response net tid slave fc rsp out st =
    tcp_response_spec net tid slave (read_pdu_resp checked_read fc lrsp) out st"
  using response_reader.tcp_read_response_refines [OF assms] .

theorem tcp_read_response_refinement_witness:
  "tcp_read_response wire_net 1 9 fc_read_coils read_coils_pdu_resp_read
     (read_coils_pdu_resp_ctor (whole_span [0]))
     (tcp_stream_ctor \<lparr>incoming = [0, 2, 0, 0, 0, 4, 9, 1, 1, 0x55], outgoing = []\<rparr>) =
   Return (make_error_code transaction_id_invalid, read_coils_pdu_resp_ctor (whole_span [0]))
     ((tcp_stream_ctor \<lparr>incoming = [1, 1, 0x55], outgoing = []\<rparr>)
        \<lparr>m_message_buffer := [0, 2, 0, 0, 0, 4, 9] @ replicate 313 0\<rparr>)"
  by (subst tcp_read_response_refinement [OF coils_resp.response_reader_axioms])
    (simp_all add: tcp_response_spec_def tcp_stream_ctor_def header_size_def wire_read_def be16_def overwrite_def
      Let_def)

text \<open>C15. When \<^verbatim>\<open>tcp::stream::read_response\<close> reports success to a single slave, the received bytes are a
  complete frame with the expected transaction identifier, protocol and slave, and its body decodes to
  the returned response without an error.\<close>

theorem tcp_read_response_sound:
  assumes "response_reader fc rsp lrsp" "asio_contract net" "length (m_message_buffer st) = 320" "slave \<noteq> 0"
    and "tcp_read_response net tid slave fc rsp out st = Return (ec, out') st'" "\<not> failed ec"
  shows "\<exists>pdu ec' rest. receives_frame net (m_next_layer st) (mbap_frame tid (m_protocol st) slave pdu) (m_next_layer st')
    \<and> 1 \<le> length pdu \<and> length pdu \<le> 248
    \<and> read_pdu_resp checked_read fc lrsp pdu out = Some (ec', out', rest) \<and> failed ec' = False"
proof -
  obtain ec1 h n1 where h: "net_read net 7 (m_next_layer st) = (ec1, h, n1)"
    by (metis prod_cases3)
  note spec = assms(5) [unfolded tcp_read_response_refinement_eq [OF assms(1-3)] tcp_response_spec_def header_size_def h]
  obtain k where k: "\<not> failed ec1" "header_check tid (m_protocol st) slave h = Inr k"
    using spec assms(4,6) header_check_Inl [of tid "m_protocol st" slave h] asio_read_length [OF assms(2) h]
    by (auto split: if_splits sum.splits)
  obtain ec2 body n2 where b: "net_read net k n1 = (ec2, body, n2)"
    by (metis prod_cases3)
  have ok: "\<not> failed ec2" and body: "length body = k"
    using spec assms(4) k b asio_read_length [OF assms(2) b] by (auto split: if_splits)
  obtain ec3 rest where "read_pdu_resp checked_read fc lrsp body out = Some (ec3, out', rest)"
      "\<not> failed ec3" "m_next_layer st' = n2"
    using spec assms(4,6) k b ok by (auto simp: Let_def split: option.splits if_splits)
  moreover have "receives_frame net (m_next_layer st) (mbap_frame tid (m_protocol st) slave body) n2"
    using h b k ok body header_check_frame_of [OF k(2) body]
    by (simp add: receives_frame_def mbap_frame_parts(2))
  ultimately show ?thesis
    using header_check_bound [OF k(2)] body by blast
qed

theorem tcp_read_response_sound_witness:
  "\<exists>pdu ec' rest out' st'. tcp_read_response wire_net 0 9 fc_read_coils read_coils_pdu_resp_read
      (read_coils_pdu_resp_ctor (whole_span [0]))
      (tcp_stream_ctor \<lparr>incoming = [0, 0, 0, 0, 0, 4, 9, 1, 1, 0x55], outgoing = []\<rparr>) =
        Return (make_error_code success, out') st'
    \<and> receives_frame wire_net \<lparr>incoming = [0, 0, 0, 0, 0, 4, 9, 1, 1, 0x55], outgoing = []\<rparr>
        (mbap_frame 0 0 9 pdu) (m_next_layer st')
    \<and> read_pdu_resp checked_read fc_read_coils read_coils_pdu_resp_read pdu
        (read_coils_pdu_resp_ctor (whole_span [0])) = Some (ec', out', rest)"
proof -
  let ?st = "tcp_stream_ctor \<lparr>incoming = [0, 0, 0, 0, 0, 4, 9, 1, 1, 0x55], outgoing = []\<rparr>"
  let ?out = "read_coils_pdu_resp_ctor (whole_span [0])"
  have st: "length (m_message_buffer ?st) = 320" "m_protocol ?st = 0"
      "m_next_layer ?st = \<lparr>incoming = [0, 0, 0, 0, 0, 4, 9, 1, 1, 0x55], outgoing = []\<rparr>"
    by (simp_all add: tcp_stream_ctor_def)
  have "\<exists>out' st'. tcp_response_spec wire_net 0 9 (read_pdu_resp checked_read fc_read_coils read_coils_pdu_resp_read)
      ?out ?st = Return (make_error_code success, out') st'"
    by (simp add: tcp_response_spec_def st header_size_def wire_read_def be16_def values_ctor_over
        read_pdu_resp_forms(5) [of fc_read_coils, simplified fc_read_coils_def] values_read_ok fc_read_coils_def Let_def)
  then obtain out' st' where ret: "tcp_read_response wire_net 0 9 fc_read_coils read_coils_pdu_resp_read ?out ?st =
      Return (make_error_code success, out') st'"
    using tcp_read_response_refinement_eq [OF coils_resp.response_reader_axioms wire_contract st(1)] by metis
  show ?thesis
    using tcp_read_response_sound [OF coils_resp.response_reader_axioms wire_contract st(1) _ ret]
    unfolding st ret by auto
qed

text \<open>A response whose PDU has 249 bytes or more is refused as invalid, although the protocol allows
  253: a read of 124 or 125 registers, or of more than 1968 coils, can not succeed over TCP.\<close>

lemma tcp_refuses_long_response:
  assumes "response_reader fc rsp lrsp" "asio_contract net" "length (m_message_buffer st) = 320" "slave \<noteq> 0"
    and "249 \<le> length pdu" "length pdu \<le> 253"
    and "net_read net 7 (m_next_layer st) = (ec, take 7 (mbap_frame tid (m_protocol st) slave pdu), n)" "\<not> failed ec"
  shows "\<exists>st'. tcp_read_response net tid slave fc rsp out st = Return (make_error_code invalid_response, out) st'"
proof -
  have "header_check tid (m_protocol st) slave (take 7 (mbap_frame tid (m_protocol st) slave pdu)) =
      Inl (make_error_code invalid_response)"
    using assms(5,6) unat_of_nat_u16 [of "1 + length pdu"]
    by (simp only: mbap_frame_parts header_check.simps be16_hi8_lo8) auto
  then show ?thesis
    using assms(4,7,8)
    by (simp add: tcp_read_response_refinement_eq [OF assms(1-3)] tcp_response_spec_def header_size_def Let_def)
qed

end
