(* ===== verification/Tcp_Server.thy ===== *)
theory Tcp_Server
  imports Tcp_Laws
begin

text \<open>
  Model of the server side of \<^verbatim>\<open>include/mothbus/adu/tcp.h\<close>: \<^verbatim>\<open>stream::async_read_request\<close> and the
  object \<^verbatim>\<open>request_read_op\<close> whose member functions run as completion handlers. A call of
  \<^verbatim>\<open>mothbus::async_read\<close> returns at once; the network layer stores bytes in the region it was given and
  then calls the handler. The handlers are functions of the object; an \<open>inductive\<close> step relation feeds
  them the completions.

  The handlers move the object into the closure they pass on. Its members other than the callback are
  plain values and the span of the array, so the moved-from object still has them and the unspecified
  order of the arguments of \<^verbatim>\<open>async_read\<close> does not matter.
\<close>

section \<open>The read operation\<close>

record request_read_op =
  op_source :: buffer
  op_request :: pdu_req
  op_transaction_id :: u16
  op_protocol :: u16
  op_length :: u16
  op_slave :: u8

definition request_read_op_ctor :: "u8 list \<Rightarrow> pdu_req \<Rightarrow> request_read_op" where
  "request_read_op_ctor array request =
     \<lparr>op_source = buffer_of array, op_request = request, op_transaction_id = 0, op_protocol = 0,
      op_length = 0, op_slave = 0\<rparr>"

text \<open>What a handler has done when it returns: started another transfer, called the callback, or neither.
  No path of the handlers below returns without the one or the other; that the third case does not occur
  is part of the properties.\<close>

datatype handler_effect =
    Async_read "nat \<times> nat" request_read_op
  | Callback u16 u8 error_code request_read_op
  | No_call

definition op_parse_header :: "request_read_op \<Rightarrow> nat \<Rightarrow> handler_effect option" where
  "op_parse_header op size' = do {
     (header, source) \<leftarrow> parse_header (op_source op) size';
     let op = op\<lparr>op_source := source\<rparr>;
     if \<not> is_valid_length header
     then Some (Callback 0 0 (make_error_code request_too_big) op)
     else do {
       let op = op\<lparr>op_transaction_id := hdr_transaction_id header, op_protocol := hdr_protocol header,
                   op_length := hdr_length header, op_slave := hdr_unit_id header\<rparr>;
       Some (Async_read (buffer_prepare (op_source op) (unat (op_length op) - 1)) op)
     }
   }"

definition op_parse_body :: "request_read_op \<Rightarrow> nat \<Rightarrow> handler_effect option" where
  "op_parse_body op size' = do {
     (ec, request, source) \<leftarrow> parse_body (op_source op) size' (op_request op);
     let op = op\<lparr>op_source := source, op_request := request\<rparr>;
     Some (Callback (op_transaction_id op) (op_slave op) ec op)
   }"

text \<open>The two closures passed to \<^verbatim>\<open>async_read\<close>.\<close>

definition header_handler :: "request_read_op \<Rightarrow> error_code \<Rightarrow> nat \<Rightarrow> handler_effect option" where
  "header_handler op ec read_size =
     (if failed ec then Some (Callback 0 0 ec op) else op_parse_header op read_size)"

definition body_handler :: "request_read_op \<Rightarrow> error_code \<Rightarrow> nat \<Rightarrow> handler_effect option" where
  "body_handler op ec read_size =
     (if failed ec then Some (Callback 0 0 ec op) else op_parse_body op read_size)"

definition async_read_request :: "u8 list \<Rightarrow> pdu_req \<Rightarrow> handler_effect" where
  "async_read_request array request =
     (let op = request_read_op_ctor array request
      in Async_read (buffer_prepare (op_source op) header_size) op)"

section \<open>Completions\<close>

text \<open>Waiting for the header, waiting for the body, the callback has been called, a handler has returned
  without doing anything (nobody will call the callback), or memory outside the array was accessed.\<close>

datatype read_state =
    Reading_header "nat \<times> nat" request_read_op
  | Reading_body "nat \<times> nat" request_read_op
  | Called u16 u8 error_code request_read_op
  | Abandoned
  | Corrupt

fun start_state :: "handler_effect \<Rightarrow> read_state" where
  "start_state (Async_read region op) = Reading_header region op"
| "start_state (Callback tid slave ec op) = Called tid slave ec op"
| "start_state No_call = Abandoned"

fun next_state :: "handler_effect option \<Rightarrow> read_state" where
  "next_state None = Corrupt"
| "next_state (Some (Async_read region op)) = Reading_body region op"
| "next_state (Some (Callback tid slave ec op)) = Called tid slave ec op"
| "next_state (Some No_call) = Abandoned"

definition complete ::
    "(request_read_op \<Rightarrow> error_code \<Rightarrow> nat \<Rightarrow> handler_effect option) \<Rightarrow>
     nat \<times> nat \<Rightarrow> request_read_op \<Rightarrow> error_code \<times> u8 list \<Rightarrow> read_state" where
  "complete handler region op c =
     (case store_region region (snd c) (op_source op) of
        None \<Rightarrow> Corrupt
      | Some source \<Rightarrow> next_state (handler (op\<lparr>op_source := source\<rparr>) (fst c) (length (snd c))))"

text \<open>What the network layer promises of a completed transfer into a region.\<close>

definition completion_ok :: "nat \<times> nat \<Rightarrow> error_code \<times> u8 list \<Rightarrow> bool" where
  "completion_ok region c \<longleftrightarrow>
     length (snd c) \<le> snd region \<and> (failed (fst c) \<or> length (snd c) = snd region)"

inductive read_step :: "read_state \<Rightarrow> error_code \<times> u8 list \<Rightarrow> read_state \<Rightarrow> bool" where
  header: "completion_ok region c \<Longrightarrow>
    read_step (Reading_header region op) c (complete header_handler region op c)"
| body: "completion_ok region c \<Longrightarrow>
    read_step (Reading_body region op) c (complete body_handler region op c)"

inductive_cases read_step_headerE: "read_step (Reading_header region op) c s"
inductive_cases read_step_bodyE: "read_step (Reading_body region op) c s"
inductive_simps read_step_done [simp]: "read_step (Called tid slave ec op) c s"
inductive_simps read_step_abandoned [simp]: "read_step Abandoned c s"
inductive_simps read_step_corrupt [simp]: "read_step Corrupt c s"

inductive read_run :: "read_state \<Rightarrow> (error_code \<times> u8 list) list \<Rightarrow> read_state \<Rightarrow> bool" where
  run_Nil: "read_run s [] s"
| run_Cons: "read_step s c s' \<Longrightarrow> read_run s' cs s'' \<Longrightarrow> read_run s (c # cs) s''"

inductive_cases read_run_ConsE: "read_run s (c # cs) s'"
inductive_simps read_run_Nil [simp]: "read_run s [] s'"

code_pred read_run .

section \<open>Handlers on received bytes\<close>

fun header_of :: "u8 list \<Rightarrow> mbap_header" where
  "header_of [a, b, c, d, e, f, u] =
     \<lparr>hdr_transaction_id = be16 a b, hdr_protocol = be16 c d, hdr_length = be16 e f, hdr_unit_id = u\<rparr>"
| "header_of _ = mbap_header_init"

definition op_after_header :: "u8 list \<Rightarrow> pdu_req \<Rightarrow> u8 list \<Rightarrow> request_read_op" where
  "op_after_header array v0 h =
     \<lparr>op_source = received (overwrite 0 h array) 7 7, op_request = v0,
      op_transaction_id = hdr_transaction_id (header_of h), op_protocol = hdr_protocol (header_of h),
      op_length = hdr_length (header_of h), op_slave = hdr_unit_id (header_of h)\<rparr>"

lemmas header_receives = uint16_received [of 0 7, unfolded add_0] uint16_received [of 2 7, simplified]
  uint16_received [of 4 7, simplified] byte_received [of 6 7, simplified]

lemma parse_header_received:
  assumes "length h = 7" "7 \<le> length array"
  shows "parse_header (received (overwrite 0 h array) 0 0) 7 =
    Some (header_of h, received (overwrite 0 h array) 7 7)"
proof -
  obtain a b c d e f u where hs: "h = [a, b, c, d, e, f, u]"
    using assms(1) by (auto simp: numeral_eq_Suc length_Suc_conv)
  let ?mb = "overwrite 0 h array"
  have "?mb ! 0 = a" "?mb ! 1 = b" "?mb ! 2 = c" "?mb ! 3 = d" "?mb ! 4 = e" "?mb ! 5 = f" "?mb ! 6 = u"
    by (simp_all add: hs overwrite_def)
  moreover have "buffer_commit 7 (received ?mb 0 0) = received ?mb 7 0"
    by (simp add: buffer_commit_def received_def)
  moreover have "7 \<le> length ?mb" using assms by simp
  moreover have "header_of h = \<lparr>hdr_transaction_id = be16 a b, hdr_protocol = be16 c d,
      hdr_length = be16 e f, hdr_unit_id = u\<rparr>"
    by (simp add: hs)
  ultimately show ?thesis
    by (simp add: parse_header_def header_receives mbap_header_init_def Let_def)
qed

lemma header_complete:
  assumes len: "length array = 320" and h: "length h \<le> 7" "failed ec \<or> length h = 7"
  shows "complete header_handler (0, 7) (request_read_op_ctor array v0) (ec, h) =
    (if failed ec then Called 0 0 ec ((request_read_op_ctor array v0)
         \<lparr>op_source := received (overwrite 0 h array) 0 0\<rparr>)
     else if is_valid_length (header_of h)
     then Reading_body (7, unat (hdr_length (header_of h)) - 1) (op_after_header array v0 h)
     else Called 0 0 (make_error_code request_too_big) ((request_read_op_ctor array v0)
         \<lparr>op_source := received (overwrite 0 h array) 7 7\<rparr>))"
proof -
  have "store_region (0, 7) h (op_source (request_read_op_ctor array v0)) =
      Some (received (overwrite 0 h array) 0 0)"
    using h len by (simp add: store_region_def request_read_op_ctor_def buffer_of_received
        received_def)
  then show ?thesis
    using h len
    by (auto simp: complete_def header_handler_def op_parse_header_def parse_header_received Let_def
        buffer_prepare_def op_after_header_def request_read_op_ctor_def)
qed

lemma reads_alike_pdu_req: "reads_alike (read_pdu_req buffer_read) (read_pdu_req checked_read)"
  by (simp add: reads_alike_def buf.sim_pdu_req)

lemma body_complete:
  assumes len: "length array = 320" and h: "length h = 7" "is_valid_length (header_of h)"
    and b: "length bs \<le> k" "failed ec \<or> length bs = k" "k = unat (hdr_length (header_of h)) - 1"
  shows "\<exists>src. length (message_buffer src) = 320 \<and> complete body_handler (7, k) (op_after_header array v0 h) (ec, bs) =
    (if failed ec then Called 0 0 ec ((op_after_header array v0 h)\<lparr>op_source := src\<rparr>)
     else case read_pdu_req checked_read bs v0 of
       None \<Rightarrow> Corrupt
     | Some (ec', v, _) \<Rightarrow>
         Called (hdr_transaction_id (header_of h)) (hdr_unit_id (header_of h)) ec'
           ((op_after_header array v0 h)\<lparr>op_source := src, op_request := v\<rparr>))"
proof -
  have k: "k \<le> 253"
    using h b(3) by (auto simp: is_valid_length_def protocol_consts)
  let ?mb = "overwrite 0 (h @ bs) array"
  have store: "store_region (7, k) bs (received (overwrite 0 h array) 7 7) =
      Some (\<lparr>message_buffer = ?mb, input_start = 7, input_end = 7, output_start = 7\<rparr>)"
    using overwrite_overwrite [of h bs array] h b k len by (simp add: store_region_def received_def)
  have "buffer_commit (length bs) \<lparr>message_buffer = ?mb, input_start = 7, input_end = 7, output_start = 7\<rparr> =
      received ?mb (7 + length bs) 7"
    by (simp add: buffer_commit_def received_def)
  moreover have "take (7 + length bs - 7) (drop 7 ?mb) = bs"
    using h by (simp add: overwrite_def)
  moreover have mb: "length ?mb = 320" "7 + length bs \<le> 320"
    using h b k len by simp_all
  ultimately have parsed: "read_pdu_req buffer_read (buffer_commit (length bs)
        \<lparr>message_buffer = ?mb, input_start = 7, input_end = 7, output_start = 7\<rparr>) v0 =
      (case read_pdu_req checked_read bs v0 of
         None \<Rightarrow> None
       | Some (ec, v, rest) \<Rightarrow> Some (ec, v, received ?mb (7 + length bs) (7 + length bs - length rest)))"
    using read_received_case [OF _ _ reads_alike_pdu_req, of 7 "7 + length bs" ?mb v0] by simp
  note defs = complete_def body_handler_def op_parse_body_def parse_body_def Let_def op_after_header_def
  show ?thesis
  proof (cases "failed ec \<or> read_pdu_req checked_read bs v0 = None")
    case True
    with store parsed mb(1) show ?thesis
      by (intro exI [of _ "received ?mb 7 7"]) (auto simp: defs received_def)
  next
    case False
    then obtain ec' v rest where "read_pdu_req checked_read bs v0 = Some (ec', v, rest)" by auto
    with False store parsed mb(1) show ?thesis
      by (intro exI [of _ "received ?mb (7 + length bs) (7 + length bs - length rest)"]) (auto simp: defs)
  qed
qed

section \<open>Runs\<close>

abbreviation server_start :: "u8 list \<Rightarrow> pdu_req \<Rightarrow> read_state" where
  "server_start array v0 \<equiv> start_state (async_read_request array v0)"

lemma server_start: "server_start array v0 = Reading_header (0, 7) (request_read_op_ctor array v0)"
  by (simp add: async_read_request_def buffer_prepare_def Let_def protocol_consts)
    (simp add: request_read_op_ctor_def buffer_of_def)

text \<open>The states one completion after the start.\<close>

lemma first_step_cases:
  assumes "length array = 320" "read_step (server_start array v0) c s"
  obtains (failure) op where "failed (fst c)" "s = Called 0 0 (fst c) op" "op_request op = v0"
    | (too_big) op where "\<not> failed (fst c)" "length (snd c) = 7" "\<not> is_valid_length (header_of (snd c))"
      "s = Called 0 0 (make_error_code request_too_big) op" "op_request op = v0"
    | (body) "\<not> failed (fst c)" "length (snd c) = 7" "is_valid_length (header_of (snd c))"
      "s = Reading_body (7, unat (hdr_length (header_of (snd c))) - 1) (op_after_header array v0 (snd c))"
proof -
  from assms(2) have ok: "completion_ok (0, 7) c"
    and s: "s = complete header_handler (0, 7) (request_read_op_ctor array v0) (fst c, snd c)"
    by (auto simp: server_start elim: read_step_headerE)
  then show ?thesis
    using that header_complete [OF assms(1), of "snd c" "fst c" v0]
    by (auto simp: completion_ok_def request_read_op_ctor_def split: if_splits)
qed

text \<open>The states one completion after an accepted header.\<close>

lemma second_step_cases:
  assumes "length array = 320" "length h = 7" "is_valid_length (header_of h)"
    and "read_step (Reading_body (7, unat (hdr_length (header_of h)) - 1) (op_after_header array v0 h)) c s"
  obtains (failure) op where "failed (fst c)" "s = Called 0 0 (fst c) op" "op_request op = v0"
    | (parsed) ec v rest op where "\<not> failed (fst c)" "length (snd c) = unat (hdr_length (header_of h)) - 1"
      "read_pdu_req checked_read (snd c) v0 = Some (ec, v, rest)"
      "s = Called (hdr_transaction_id (header_of h)) (hdr_unit_id (header_of h)) ec op"
      "op_request op = v"
proof -
  let ?k = "unat (hdr_length (header_of h)) - 1"
  from assms(4) have ok: "completion_ok (7, ?k) c"
    and s: "s = complete body_handler (7, ?k) (op_after_header array v0 h) (fst c, snd c)"
    by (auto elim: read_step_bodyE)
  obtain src where src: "s = (if failed (fst c) then Called 0 0 (fst c) ((op_after_header array v0 h)\<lparr>op_source := src\<rparr>)
     else case read_pdu_req checked_read (snd c) v0 of
       None \<Rightarrow> Corrupt
     | Some (ec', v, _) \<Rightarrow>
         Called (hdr_transaction_id (header_of h)) (hdr_unit_id (header_of h)) ec'
           ((op_after_header array v0 h)\<lparr>op_source := src, op_request := v\<rparr>))"
    using body_complete [OF assms(1-3), of "snd c" ?k "fst c" v0] ok s
    by (auto simp: completion_ok_def)
  obtain ec v rest where "read_pdu_req checked_read (snd c) v0 = Some (ec, v, rest)"
    by (cases rule: read_pdu_req_cases [of "snd c" v0]) auto
  with src ok that(1) [of "(op_after_header array v0 h)\<lparr>op_source := src\<rparr>"]
    that(2) [of ec v rest "(op_after_header array v0 h)\<lparr>op_source := src, op_request := v\<rparr>"]
  show ?thesis
    by (cases "failed (fst c)") (simp_all add: completion_ok_def op_after_header_def)
qed

lemma read_run_Called [simp]:
  "read_run (Called t u e op) cs s \<longleftrightarrow> cs = [] \<and> s = Called t u e op"
  by (cases cs) (auto elim: read_run_ConsE)

lemma run_cases:
  assumes len: "length array = 320" and run: "read_run (server_start array v0) cs s"
  obtains (start) "cs = []" "s = server_start array v0"
    | (failure) ec op where "length cs \<le> 2" "failed ec" "cs \<noteq> []" "ec = fst (last cs)" "s = Called 0 0 ec op" "op_request op = v0"
    | (too_big) ec h op where "cs = [(ec, h)]" "\<not> failed ec" "length h = 7" "\<not> is_valid_length (header_of h)"
      "s = Called 0 0 (make_error_code request_too_big) op" "op_request op = v0"
    | (body) ec h where "cs = [(ec, h)]" "\<not> failed ec" "length h = 7" "is_valid_length (header_of h)"
      "s = Reading_body (7, unat (hdr_length (header_of h)) - 1) (op_after_header array v0 h)"
    | (parsed) ec1 h ec2 bs ec v rest op where "cs = [(ec1, h), (ec2, bs)]" "\<not> failed ec1" "\<not> failed ec2"
      "length h = 7" "is_valid_length (header_of h)" "length bs = unat (hdr_length (header_of h)) - 1"
      "read_pdu_req checked_read bs v0 = Some (ec, v, rest)"
      "s = Called (hdr_transaction_id (header_of h)) (hdr_unit_id (header_of h)) ec op" "op_request op = v"
proof (cases cs)
  case Nil
  with run start show ?thesis by simp
next
  case (Cons c cs')
  with run obtain s1 where s1: "read_step (server_start array v0) c s1" and rest: "read_run s1 cs' s"
    by (auto elim: read_run_ConsE)
  from len s1 show ?thesis
  proof (cases rule: first_step_cases)
    case (failure op)
    with rest Cons have "cs = [c]" "s = Called 0 0 (fst c) op" by auto
    with failure show ?thesis by (intro that(2)) auto
  next
    case (too_big op)
    with rest Cons that(3) [of "fst c" "snd c" op] show ?thesis by auto
  next
    case body
    show ?thesis
    proof (cases cs')
      case Nil
      with rest body Cons that(4) [of "fst c" "snd c"] show ?thesis by auto
    next
      case (Cons d ds)
      with rest obtain s2 where "read_step s1 d s2" and rest: "read_run s2 ds s"
        by (auto elim: read_run_ConsE)
      then have "read_step (Reading_body (7, unat (hdr_length (header_of (snd c))) - 1)
          (op_after_header array v0 (snd c))) d s2"
        using body by simp
      with len body(2,3) show ?thesis
      proof (cases rule: second_step_cases)
        case (failure op)
        with rest \<open>cs = c # cs'\<close> Cons have "cs = [c, d]" "s = Called 0 0 (fst d) op" by auto
        with failure show ?thesis by (intro that(2)) auto
      next
        case (parsed ec v r op)
        with rest body \<open>cs = c # cs'\<close> Cons
          that(5) [of "fst c" "snd c" "fst d" "snd d" ec v r op] show ?thesis by auto
      qed
    qed
  qed
qed

text \<open>The run that ends in a parsed request exists, and every run can be continued until the callback
  is called.\<close>

lemma completed_header:
  assumes "length array = 320" "completion_ok (0, 7) c"
  shows "read_step (server_start array v0) c
    (complete header_handler (0, 7) (request_read_op_ctor array v0) c)"
  unfolding server_start using assms(2) by (rule read_step.header)

lemma server_accepts:
  assumes len: "length array = 320" and h: "length h = 7" "is_valid_length (header_of h)"
    and bs: "length bs = unat (hdr_length (header_of h)) - 1"
    and parsed: "read_pdu_req checked_read bs v0 = Some (ec, v, rest)"
    and ok: "\<not> failed ec1" "\<not> failed ec2"
  shows "\<exists>op. read_run (server_start array v0) [(ec1, h), (ec2, bs)]
      (Called (hdr_transaction_id (header_of h)) (hdr_unit_id (header_of h)) ec op) \<and> op_request op = v"
proof -
  let ?op = "op_after_header array v0 h" and ?k = "unat (hdr_length (header_of h)) - 1"
  have first: "read_step (server_start array v0) (ec1, h) (Reading_body (7, ?k) ?op)"
    using completed_header [OF len, of "(ec1, h)" v0] header_complete [OF len, of h ec1 v0] h ok
    by (simp add: completion_ok_def)
  obtain src where "complete body_handler (7, ?k) ?op (ec2, bs) =
      Called (hdr_transaction_id (header_of h)) (hdr_unit_id (header_of h)) ec (?op\<lparr>op_source := src, op_request := v\<rparr>)"
    using body_complete [OF len h, of bs ?k ec2 v0] bs parsed ok by auto
  moreover have "read_step (Reading_body (7, ?k) ?op) (ec2, bs) (complete body_handler (7, ?k) ?op (ec2, bs))"
    using bs by (intro read_step.body) (simp add: completion_ok_def)
  ultimately have second: "read_step (Reading_body (7, ?k) ?op) (ec2, bs)
      (Called (hdr_transaction_id (header_of h)) (hdr_unit_id (header_of h)) ec (?op\<lparr>op_source := src, op_request := v\<rparr>))"
    by simp
  show ?thesis
    by (rule exI [of _ "?op\<lparr>op_source := src, op_request := v\<rparr>"])
      (use run_Cons [OF first run_Cons [OF second run_Nil]] in simp)
qed

section \<open>Reading a request over a network layer\<close>

text \<open>One completion: the network layer reads into the region of the pending transfer and the handler is
  called with what it reports. \<open>drive\<close> repeats this.\<close>

fun transfer :: "'n network \<Rightarrow> read_state \<times> 'n \<Rightarrow> read_state \<times> 'n" where
  "transfer net (Reading_header region op, n) =
     (case net_read net (snd region) n of (ec, bs, n) \<Rightarrow> (complete header_handler region op (ec, bs), n))"
| "transfer net (Reading_body region op, n) =
     (case net_read net (snd region) n of (ec, bs, n) \<Rightarrow> (complete body_handler region op (ec, bs), n))"
| "transfer net (s, n) = (s, n)"

fun drive :: "'n network \<Rightarrow> nat \<Rightarrow> read_state \<times> 'n \<Rightarrow> read_state \<times> 'n" where
  "drive net 0 c = c"
| "drive net (Suc k) c = drive net k (transfer net c)"

lemma drive_called [simp]: "drive net k (Called tid slave ec op, n) = (Called tid slave ec op, n)"
  by (induction k) simp_all

text \<open>What reading one request over a network layer amounts to: seven bytes, the length field checked
  against its bounds, one less than that many bytes, and the request in them. The answer is what the
  callback is given and the value of the request object.\<close>

definition request_received ::
    "'n network \<Rightarrow> pdu_req \<Rightarrow> 'n \<Rightarrow> u16 \<times> u8 \<times> error_code \<times> pdu_req \<Rightarrow> 'n \<Rightarrow> bool" where
  "request_received net v0 n answer n' \<longleftrightarrow>
     (case net_read net 7 n of (ec, h, n1) \<Rightarrow>
        if failed ec then answer = (0, 0, ec, v0) \<and> n' = n1
        else (case h of
          [t1, t0, _, _, l1, l0, slave] \<Rightarrow>
            if unat (be16 l1 l0) < 2 \<or> 254 < unat (be16 l1 l0)
            then answer = (0, 0, make_error_code request_too_big, v0) \<and> n' = n1
            else (case net_read net (unat (be16 l1 l0) - 1) n1 of (ec, body, n2) \<Rightarrow>
              n' = n2 \<and>
              (if failed ec then answer = (0, 0, ec, v0)
               else \<exists>ec v. answer = (be16 t1 t0, slave, ec, v) \<and> request_result body v0 ec v))
        | _ \<Rightarrow> False))"

lemma valid_length_bounds:
  "is_valid_length header \<longleftrightarrow> 2 \<le> unat (hdr_length header) \<and> unat (hdr_length header) \<le> 254"
  by (auto simp: is_valid_length_def protocol_consts)

lemma drive_body:
  assumes len: "length array = 320" and net: "asio_contract net"
    and h: "length h = 7" "is_valid_length (header_of h)"
    and body: "net_read net (unat (hdr_length (header_of h)) - 1) n = (ec, bs, n')"
  shows "\<exists>tid slave ec' op.
    transfer net (Reading_body (7, unat (hdr_length (header_of h)) - 1) (op_after_header array v0 h), n) =
      (Called tid slave ec' op, n') \<and>
    (if failed ec then tid = 0 \<and> slave = 0 \<and> ec' = ec \<and> op_request op = v0
     else tid = hdr_transaction_id (header_of h) \<and> slave = hdr_unit_id (header_of h) \<and>
       request_result bs v0 ec' (op_request op))"
proof -
  have "length bs \<le> unat (hdr_length (header_of h)) - 1"
    "failed ec \<or> length bs = unat (hdr_length (header_of h)) - 1"
    using asio_read_bound [OF net body] asio_read_length [OF net body] by auto
  then obtain src where "complete body_handler (7, unat (hdr_length (header_of h)) - 1) (op_after_header array v0 h) (ec, bs) =
      (if failed ec then Called 0 0 ec ((op_after_header array v0 h)\<lparr>op_source := src\<rparr>)
       else case read_pdu_req checked_read bs v0 of
         None \<Rightarrow> Corrupt
       | Some (ec', v, _) \<Rightarrow>
           Called (hdr_transaction_id (header_of h)) (hdr_unit_id (header_of h)) ec'
             ((op_after_header array v0 h)\<lparr>op_source := src, op_request := v\<rparr>))"
    using body_complete [OF len h _ _ refl] by blast
  moreover obtain ec' v rest where
    "read_pdu_req checked_read bs v0 = Some (ec', v, rest)" "request_result bs v0 ec' v"
    using read_pdu_req_result by blast
  moreover have "op_request (op_after_header array v0 h) = v0"
    by (simp add: op_after_header_def)
  ultimately show ?thesis by (simp add: body del: One_nat_def)
qed

lemma seven_bytes: "length h = 7 \<Longrightarrow> \<exists>t1 t0 p1 p0 l1 l0 u. h = [t1, t0, p1, p0, l1, l0, u]"
  by (auto simp: numeral_eq_Suc length_Suc_conv)

lemma drive_request:
  assumes len: "length array = 320" and net: "asio_contract net"
  shows "\<exists>tid slave ec op n'. drive net (Suc (Suc k)) (server_start array v0, n) = (Called tid slave ec op, n') \<and>
    request_received net v0 n (tid, slave, ec, op_request op) n'"
proof -
  obtain ec h n1 where header: "net_read net 7 n = (ec, h, n1)" by (metis prod_cases3)
  have ok: "length h \<le> 7" "failed ec \<or> length h = 7"
    using asio_read_bound [OF net header] asio_read_length [OF net header] by auto
  note first = header_complete [OF len ok, of v0]
  have step: "drive net (Suc (Suc k)) (server_start array v0, n) = drive net (Suc k)
      (complete header_handler (0, 7) (request_read_op_ctor array v0) (ec, h), n1)"
    by (simp add: server_start header)
  have request: "op_request (request_read_op_ctor array v0) = v0"
    by (simp add: request_read_op_ctor_def)
  consider (failure) "failed ec" | (received) t1 t0 p1 p0 l1 l0 u where "\<not> failed ec" "h = [t1, t0, p1, p0, l1, l0, u]"
  proof (cases "failed ec")
    case False
    with ok seven_bytes [of h] False received show ?thesis by blast
  qed (rule failure)
  then show ?thesis
  proof cases
    case failure
    then show ?thesis unfolding step by (simp add: first request_received_def header request)
  next
    case received
    show ?thesis
    proof (cases "is_valid_length (header_of h)")
      case False
      with received show ?thesis unfolding step
        by (auto simp: first [unfolded received(2)] request_received_def header request valid_length_bounds not_le)
    next
      case True
      obtain ec' bs n2 where body: "net_read net (unat (hdr_length (header_of h)) - 1) n1 = (ec', bs, n2)"
        by (metis prod_cases3)
      have "length h = 7" by (simp add: received)
      from drive_body [OF len net this True body, of v0] obtain tid slave e op where
        end_state: "transfer net (Reading_body (7, unat (hdr_length (header_of h)) - 1) (op_after_header array v0 h), n1) =
          (Called tid slave e op, n2)"
        and answer: "if failed ec' then tid = 0 \<and> slave = 0 \<and> e = ec' \<and> op_request op = v0
          else tid = hdr_transaction_id (header_of h) \<and> slave = hdr_unit_id (header_of h) \<and>
            request_result bs v0 e (op_request op)" by blast
      have "drive net (Suc k) (complete header_handler (0, 7) (request_read_op_ctor array v0) (ec, h), n1) =
          (Called tid slave e op, n2)"
        using end_state True received(1) by (simp add: first del: One_nat_def transfer.simps)
      moreover have "request_received net v0 n (tid, slave, e, op_request op) n2"
        using answer body True received
        by (auto simp: request_received_def header valid_length_bounds split: if_splits)
      ultimately show ?thesis unfolding step by blast
    qed
  qed
qed

lemma header_of_frame:
  "header_of (take 7 (mbap_frame tid proto slave pdu)) =
     \<lparr>hdr_transaction_id = tid, hdr_protocol = proto, hdr_length = of_nat (1 + length pdu), hdr_unit_id = slave\<rparr>"
  by (simp only: mbap_frame_parts header_of.simps be16_hi8_lo8)

lemma frame_valid_length:
  "1 \<le> length pdu \<Longrightarrow> length pdu \<le> 253 \<Longrightarrow>
   is_valid_length (header_of (take 7 (mbap_frame tid proto slave pdu)))"
  using unat_of_nat_u16 [of "1 + length pdu"]
  by (simp only: is_valid_length_def header_of_frame protocol_consts) auto

lemma header_of_inverse:
  assumes "length h = 7" "is_valid_length (header_of h)" "length bs = unat (hdr_length (header_of h)) - 1"
  shows "h @ bs = mbap_frame (hdr_transaction_id (header_of h)) (hdr_protocol (header_of h))
    (hdr_unit_id (header_of h)) bs"
proof -
  obtain a b c d e f u where hs: "h = [a, b, c, d, e, f, u]"
    using assms(1) by (auto simp: numeral_eq_Suc length_Suc_conv)
  have "1 + length bs = unat (be16 e f)"
    using assms(2,3) by (auto simp: hs is_valid_length_def)
  then have "of_nat (1 + length bs) = be16 e f"
    by (simp only: of_nat_unat ucast_id)
  then show ?thesis
    by (simp only: mbap_frame_def hs header_of.simps Let_def) simp
qed

section \<open>Properties\<close>

text \<open>C10. However the network layer completes the transfers of \<^verbatim>\<open>async_read_request\<close>, and whatever the client
  sent, the handlers never access memory outside the message buffer, at most two transfers are started,
  and after the second one the callback has been called.\<close>

theorem server_memory_safe:
  assumes "length array = 320" "read_run (server_start array v0) cs s"
  shows "s \<noteq> Corrupt \<and> length cs \<le> 2 \<and>
    (case s of Called _ _ _ _ \<Rightarrow> True | Reading_header _ _ \<Rightarrow> cs = [] | Reading_body _ _ \<Rightarrow> length cs = 1
     | Abandoned \<Rightarrow> False | Corrupt \<Rightarrow> False)"
  by (cases rule: run_cases [OF assms]) (auto simp: server_start)

theorem server_memory_safe_witness:
  "\<exists>s. read_run (server_start (replicate 320 0) pdu_req_init) [(no_error, [0, 1, 0, 0, 0, 6, 9])] s
    \<and> s \<noteq> Corrupt \<and> length [(no_error, [0, 1, 0, 0, 0, 6, 9 :: u8])] \<le> 2"
proof -
  have "completion_ok (0, 7) (no_error, [0, 1, 0, 0, 0, 6, 9])"
    by (simp add: completion_ok_def)
  from run_Cons [OF completed_header [OF _ this, of "replicate 320 0" pdu_req_init] run_Nil]
  obtain s where run: "read_run (server_start (replicate 320 0) pdu_req_init)
      [(no_error, [0, 1, 0, 0, 0, 6, 9])] s"
    by auto
  show ?thesis
    using run server_memory_safe [OF _ run] by auto
qed

text \<open>C33. Over every network layer, the callback is called: one or two transfers after \<^verbatim>\<open>async_read_request\<close>
  the handlers have called it, further completions change nothing, and what it is given, what the request
  object holds and which bytes were taken is what \<open>request_received\<close> says: a failed transfer is reported
  with its error, a length field outside 2 to 254 as a request that is too big, without reading a body, and
  otherwise the transaction identifier and slave of the header come with the request in the body.\<close>

theorem server_read_refinement:
  assumes "length array = 320" "asio_contract net"
  shows "\<exists>tid slave ec op n'. drive net (2 + k) (server_start array v0, n) = (Called tid slave ec op, n') \<and>
    request_received net v0 n (tid, slave, ec, op_request op) n'"
  using drive_request [OF assms, of k v0 n] by simp

theorem server_read_refinement_witness:
  "\<exists>tid slave ec op n'. drive wire_net 2 (server_start (replicate 320 0) pdu_req_init,
      \<lparr>incoming = [0, 1, 0, 0, 0, 2, 9, 3, 7], outgoing = []\<rparr>) = (Called tid slave ec op, n') \<and>
    tid = 1 \<and> slave = 9 \<and> ec = make_error_code too_many_bytes_received \<and> op_request op = pdu_req_init \<and>
    incoming n' = [7]"
proof -
  have "request_short [3]"
    by (simp add: request_short_def supported_fc_def protocol_consts)
  then have "request_received wire_net pdu_req_init \<lparr>incoming = [0, 1, 0, 0, 0, 2, 9, 3, 7], outgoing = []\<rparr>
      answer n' \<longleftrightarrow> answer = (1, 9, make_error_code too_many_bytes_received, pdu_req_init) \<and>
        n' = \<lparr>incoming = [7], outgoing = []\<rparr>" for answer n'
    by (auto simp: request_received_def wire_read_def be16_def request_result_def)
  then show ?thesis
    using server_read_refinement [of "replicate 320 0" wire_net 0 pdu_req_init
        "\<lparr>incoming = [0, 1, 0, 0, 0, 2, 9, 3, 7], outgoing = []\<rparr>"] wire_contract
    by auto
qed

text \<open>C34. When the callback is called without an error, the bytes received are exactly one frame, a header
  with the transaction identifier and slave handed to the callback, followed by a body whose front is the
  encoding of the request handed over. The request is well formed and its encoding is as long as the body
  announces; bytes of the body behind it are ignored.\<close>

theorem server_request_sound:
  assumes "length array = 320" "read_run (server_start array v0) cs (Called tid slave ec op)" "\<not> failed ec"
  shows "\<exists>proto rest. concat (map snd cs) = mbap_frame tid proto slave (pdu_req_bytes (op_request op) @ rest)
    \<and> length (pdu_req_bytes (op_request op)) = request_size (pdu_req_bytes (op_request op) @ rest)
    \<and> length (pdu_req_bytes (op_request op) @ rest) \<le> 253 \<and> pdu_req_wf (op_request op)"
  using assms(1,2)
proof (cases rule: run_cases)
  case (parsed ec1 h ec2 bs ec' v rest op')
  have "ec' = no_error \<and> pdu_req_wf v \<and> bs = pdu_req_bytes v @ rest"
    using parsed assms(3) by (cases rule: read_pdu_req_cases [of bs v0]) auto
  moreover have "length bs \<le> 253"
    using parsed by (auto simp: valid_length_bounds)
  ultimately show ?thesis
    using parsed header_of_inverse [of h bs]
    by (intro exI [of _ "hdr_protocol (header_of h)"] exI [of _ rest]) (auto simp: request_size_bytes)
qed (use assms(3) in \<open>auto simp: server_start\<close>)

theorem server_request_sound_witness:
  "\<exists>op. read_run (server_start (replicate 320 0) pdu_req_init)
      [(no_error, [0, 1, 0, 0, 0, 6, 9]), (no_error, [3, 0, 0x10, 0, 2])] (Called 1 9 no_error op)
    \<and> (\<exists>proto rest. [0, 1, 0, 0, 0, 6, 9, 3, 0, 0x10, 0, 2] =
         mbap_frame 1 proto 9 (pdu_req_bytes (op_request op) @ rest) \<and> pdu_req_wf (op_request op))"
proof -
  let ?h = "[0, 1, 0, 0, 0, 6, 9] :: u8 list" and ?bs = "[3, 0, 0x10, 0, 2] :: u8 list"
  have h: "header_of ?h = \<lparr>hdr_transaction_id = 1, hdr_protocol = 0, hdr_length = 6, hdr_unit_id = 9\<rparr>"
    by (simp add: be16_def)
  have "?bs = pdu_req_bytes (Read_holding \<lparr>rh_starting_address = 0x10, rh_quantity_of_registers = 2\<rparr>) @ []"
    by (simp add: pdu_req_bytes_def encodings protocol_consts hi8_def lo8_def take_bit_eq_mod)
  then have "read_pdu_req checked_read ?bs pdu_req_init =
      Some (no_error, Read_holding \<lparr>rh_starting_address = 0x10, rh_quantity_of_registers = 2\<rparr>, [])"
    by (simp only: read_pdu_req_bytes pdu_req_wf.simps)
  then obtain op where run: "read_run (server_start (replicate 320 0) pdu_req_init) [(no_error, ?h), (no_error, ?bs)]
      (Called 1 9 no_error op)"
    using server_accepts [of "replicate 320 0" ?h ?bs pdu_req_init no_error _ "[]" no_error no_error] h
    by (auto simp: is_valid_length_def protocol_consts)
  show ?thesis
    using run server_request_sound [OF _ run] by auto
qed

text \<open>C35. When the callback is called with an error, one of four things has happened, and nothing else. The
  last transfer failed, and its error is handed over; the length in the header is not in 2 to 254; in both
  cases nothing was parsed, the transaction identifier and slave handed over are 0 and the request object
  is unchanged. Or one complete frame was received whose body has fewer bytes than its function code and
  count byte announce, and the request object is unchanged; or one whose function code the library does not
  know.\<close>

theorem server_error_reasons:
  assumes "length array = 320" "read_run (server_start array v0) cs (Called tid slave ec op)" "failed ec"
  shows "(tid = 0 \<and> slave = 0 \<and> op_request op = v0 \<and>
      (cs \<noteq> [] \<and> ec = fst (last cs)
       \<or> (\<exists>ec1 a b c d e f u. cs = [(ec1, [a, b, c, d, e, f, u])] \<and> failed ec1 = False \<and>
            ec = make_error_code request_too_big \<and>
            unat (be16 e f) \<notin> {2..254})))
    \<or> (\<exists>proto pdu. concat (map snd cs) = mbap_frame tid proto slave pdu \<and> 1 \<le> length pdu \<and> length pdu \<le> 253 \<and>
        (ec = make_error_code too_many_bytes_received \<and> op_request op = v0 \<and>
           supported_fc (hd pdu) \<and> length pdu < request_size pdu
         \<or> ec = make_error_code illegal_function \<and> op_request op = Not_implemented \<lparr>ni_fc = 0\<rparr> \<and>
           supported_fc (hd pdu) = False))"
  using assms(1,2)
proof (cases rule: run_cases)
  case (parsed ec1 h ec2 bs ec' v rest op')
  have len: "1 \<le> length bs" "length bs \<le> 253"
    using parsed by (auto simp: valid_length_bounds)
  have "request_result bs v0 ec v"
    using read_pdu_req_result [of bs v0] parsed by auto
  then have "ec' = ec \<and> (ec = make_error_code too_many_bytes_received \<and> v = v0 \<and>
        supported_fc (hd bs) \<and> length bs < request_size bs
      \<or> ec = make_error_code illegal_function \<and> v = Not_implemented \<lparr>ni_fc = 0\<rparr> \<and> \<not> supported_fc (hd bs))"
    using parsed assms(3) len by (auto simp: request_result_def request_short_def split: if_splits)
  then show ?thesis
    using parsed header_of_inverse [of h bs] len
    by (intro disjI2 exI [of _ "hdr_protocol (header_of h)"] exI [of _ bs]) auto
next
  case (too_big ec1 h op')
  then show ?thesis
    by (auto simp: valid_length_bounds numeral_eq_Suc length_Suc_conv)
qed (use assms(3) in \<open>auto simp: server_start\<close>)

theorem server_error_reasons_witness:
  "\<exists>op. read_run (server_start (replicate 320 0) pdu_req_init) [(no_error, [0, 1, 0, 0, 0, 2, 9]), (no_error, [3])]
      (Called 1 9 (make_error_code too_many_bytes_received) op) \<and> op_request op = pdu_req_init"
proof -
  let ?h = "[0, 1, 0, 0, 0, 2, 9] :: u8 list"
  have h: "header_of ?h = \<lparr>hdr_transaction_id = 1, hdr_protocol = 0, hdr_length = 2, hdr_unit_id = 9\<rparr>"
    by (simp add: be16_def)
  have "request_short [3]"
    by (simp add: request_short_def supported_fc_def protocol_consts)
  then have "read_pdu_req checked_read [3] pdu_req_init =
      Some (make_error_code too_many_bytes_received, pdu_req_init, [])"
    using read_pdu_req_result [of "[3]" pdu_req_init] by (auto simp: request_result_def)
  then obtain op where run: "read_run (server_start (replicate 320 0) pdu_req_init)
      [(no_error, ?h), (no_error, [3])] (Called 1 9 (make_error_code too_many_bytes_received) op)"
    using server_accepts [of "replicate 320 0" ?h "[3]" pdu_req_init _ _ "[]" no_error no_error] h
    by (auto simp: valid_length_bounds)
  have "op_request op = pdu_req_init"
    using server_error_reasons [OF _ run] by (auto simp: make_error_code_def protocol_consts failed_def)
  with run show ?thesis by blast
qed

end
