(* ===== verification/Crc.thy ===== *)
theory Crc
  imports Moth_Prelude
begin

text \<open>
  Model of \<^verbatim>\<open>include/mothbus/adu/crc.h\<close>: the table-driven checksum of Modbus over serial line, and
  a bitwise reference definition of the same checksum (the reflected polynomial \<open>0xA001\<close>, register
  preset to \<open>0xFFFF\<close>).
\<close>

definition auchCRCHi :: "u8 list" where
  "auchCRCHi =
  [0x00, 0xC1, 0x81, 0x40, 0x01, 0xC0, 0x80, 0x41, 0x01, 0xC0, 0x80, 0x41,
   0x00, 0xC1, 0x81, 0x40, 0x01, 0xC0, 0x80, 0x41, 0x00, 0xC1, 0x81, 0x40,
   0x00, 0xC1, 0x81, 0x40, 0x01, 0xC0, 0x80, 0x41, 0x01, 0xC0, 0x80, 0x41,
   0x00, 0xC1, 0x81, 0x40, 0x00, 0xC1, 0x81, 0x40, 0x01, 0xC0, 0x80, 0x41,
   0x00, 0xC1, 0x81, 0x40, 0x01, 0xC0, 0x80, 0x41, 0x01, 0xC0, 0x80, 0x41,
   0x00, 0xC1, 0x81, 0x40, 0x01, 0xC0, 0x80, 0x41, 0x00, 0xC1, 0x81, 0x40,
   0x00, 0xC1, 0x81, 0x40, 0x01, 0xC0, 0x80, 0x41, 0x00, 0xC1, 0x81, 0x40,
   0x01, 0xC0, 0x80, 0x41, 0x01, 0xC0, 0x80, 0x41, 0x00, 0xC1, 0x81, 0x40,
   0x00, 0xC1, 0x81, 0x40, 0x01, 0xC0, 0x80, 0x41, 0x01, 0xC0, 0x80, 0x41,
   0x00, 0xC1, 0x81, 0x40, 0x01, 0xC0, 0x80, 0x41, 0x00, 0xC1, 0x81, 0x40,
   0x00, 0xC1, 0x81, 0x40, 0x01, 0xC0, 0x80, 0x41, 0x01, 0xC0, 0x80, 0x41,
   0x00, 0xC1, 0x81, 0x40, 0x00, 0xC1, 0x81, 0x40, 0x01, 0xC0, 0x80, 0x41,
   0x00, 0xC1, 0x81, 0x40, 0x01, 0xC0, 0x80, 0x41, 0x01, 0xC0, 0x80, 0x41,
   0x00, 0xC1, 0x81, 0x40, 0x00, 0xC1, 0x81, 0x40, 0x01, 0xC0, 0x80, 0x41,
   0x01, 0xC0, 0x80, 0x41, 0x00, 0xC1, 0x81, 0x40, 0x01, 0xC0, 0x80, 0x41,
   0x00, 0xC1, 0x81, 0x40, 0x00, 0xC1, 0x81, 0x40, 0x01, 0xC0, 0x80, 0x41,
   0x00, 0xC1, 0x81, 0x40, 0x01, 0xC0, 0x80, 0x41, 0x01, 0xC0, 0x80, 0x41,
   0x00, 0xC1, 0x81, 0x40, 0x01, 0xC0, 0x80, 0x41, 0x00, 0xC1, 0x81, 0x40,
   0x00, 0xC1, 0x81, 0x40, 0x01, 0xC0, 0x80, 0x41, 0x01, 0xC0, 0x80, 0x41,
   0x00, 0xC1, 0x81, 0x40, 0x00, 0xC1, 0x81, 0x40, 0x01, 0xC0, 0x80, 0x41,
   0x00, 0xC1, 0x81, 0x40, 0x01, 0xC0, 0x80, 0x41, 0x01, 0xC0, 0x80, 0x41,
   0x00, 0xC1, 0x81, 0x40]"

definition auchCRCLo :: "u8 list" where
  "auchCRCLo =
  [0x00, 0xC0, 0xC1, 0x01, 0xC3, 0x03, 0x02, 0xC2, 0xC6, 0x06, 0x07, 0xC7,
   0x05, 0xC5, 0xC4, 0x04, 0xCC, 0x0C, 0x0D, 0xCD, 0x0F, 0xCF, 0xCE, 0x0E,
   0x0A, 0xCA, 0xCB, 0x0B, 0xC9, 0x09, 0x08, 0xC8, 0xD8, 0x18, 0x19, 0xD9,
   0x1B, 0xDB, 0xDA, 0x1A, 0x1E, 0xDE, 0xDF, 0x1F, 0xDD, 0x1D, 0x1C, 0xDC,
   0x14, 0xD4, 0xD5, 0x15, 0xD7, 0x17, 0x16, 0xD6, 0xD2, 0x12, 0x13, 0xD3,
   0x11, 0xD1, 0xD0, 0x10, 0xF0, 0x30, 0x31, 0xF1, 0x33, 0xF3, 0xF2, 0x32,
   0x36, 0xF6, 0xF7, 0x37, 0xF5, 0x35, 0x34, 0xF4, 0x3C, 0xFC, 0xFD, 0x3D,
   0xFF, 0x3F, 0x3E, 0xFE, 0xFA, 0x3A, 0x3B, 0xFB, 0x39, 0xF9, 0xF8, 0x38,
   0x28, 0xE8, 0xE9, 0x29, 0xEB, 0x2B, 0x2A, 0xEA, 0xEE, 0x2E, 0x2F, 0xEF,
   0x2D, 0xED, 0xEC, 0x2C, 0xE4, 0x24, 0x25, 0xE5, 0x27, 0xE7, 0xE6, 0x26,
   0x22, 0xE2, 0xE3, 0x23, 0xE1, 0x21, 0x20, 0xE0, 0xA0, 0x60, 0x61, 0xA1,
   0x63, 0xA3, 0xA2, 0x62, 0x66, 0xA6, 0xA7, 0x67, 0xA5, 0x65, 0x64, 0xA4,
   0x6C, 0xAC, 0xAD, 0x6D, 0xAF, 0x6F, 0x6E, 0xAE, 0xAA, 0x6A, 0x6B, 0xAB,
   0x69, 0xA9, 0xA8, 0x68, 0x78, 0xB8, 0xB9, 0x79, 0xBB, 0x7B, 0x7A, 0xBA,
   0xBE, 0x7E, 0x7F, 0xBF, 0x7D, 0xBD, 0xBC, 0x7C, 0xB4, 0x74, 0x75, 0xB5,
   0x77, 0xB7, 0xB6, 0x76, 0x72, 0xB2, 0xB3, 0x73, 0xB1, 0x71, 0x70, 0xB0,
   0x50, 0x90, 0x91, 0x51, 0x93, 0x53, 0x52, 0x92, 0x96, 0x56, 0x57, 0x97,
   0x55, 0x95, 0x94, 0x54, 0x9C, 0x5C, 0x5D, 0x9D, 0x5F, 0x9F, 0x9E, 0x5E,
   0x5A, 0x9A, 0x9B, 0x5B, 0x99, 0x59, 0x58, 0x98, 0x88, 0x48, 0x49, 0x89,
   0x4B, 0x8B, 0x8A, 0x4A, 0x4E, 0x8E, 0x8F, 0x4F, 0x8D, 0x4D, 0x4C, 0x8C,
   0x44, 0x84, 0x85, 0x45, 0x87, 0x47, 0x46, 0x86, 0x82, 0x42, 0x43, 0x83,
   0x41, 0x81, 0x80, 0x40]"

text \<open>One turn of the loop; the pair is \<^verbatim>\<open>(uchCRCHi, uchCRCLo)\<close>.\<close>

definition crc_step :: "u8 \<times> u8 \<Rightarrow> u8 \<Rightarrow> u8 \<times> u8" where
  "crc_step crc b =
     (case crc of (uchCRCHi, uchCRCLo) \<Rightarrow>
        let uIndex = uchCRCLo XOR b;
            uchCRCLo = uchCRCHi XOR auchCRCHi ! unat uIndex;
            uchCRCHi = auchCRCLo ! unat uIndex
        in (uchCRCHi, uchCRCLo))"

fun crc_loop :: "u8 \<times> u8 \<Rightarrow> u8 list \<Rightarrow> u8 \<times> u8" where
  "crc_loop crc [] = crc"
| "crc_loop crc (b # msg) = crc_loop (crc_step crc b) msg"

definition CRC16 :: "u8 list \<Rightarrow> u16" where
  "CRC16 msg =
     (case crc_loop (0xFF, 0xFF) msg of (uchCRCHi, uchCRCLo) \<Rightarrow>
        push_bit 8 (ucast uchCRCHi) OR ucast uchCRCLo)"

section \<open>Bitwise reference\<close>

definition crc_bit :: "u16 \<Rightarrow> u16" where
  "crc_bit s = (if bit s 0 then drop_bit 1 s XOR 0xA001 else drop_bit 1 s)"

definition crc_byte :: "u16 \<Rightarrow> u8 \<Rightarrow> u16" where
  "crc_byte s b = (crc_bit ^^ 8) (s XOR ucast b)"

definition crc_ref :: "u8 list \<Rightarrow> u16" where
  "crc_ref msg = foldl crc_byte 0xFFFF msg"

lemma crc_bit8:
  "(crc_bit ^^ 8) x = crc_bit (crc_bit (crc_bit (crc_bit (crc_bit (crc_bit (crc_bit (crc_bit x)))))))"
  by (simp add: numeral_eq_Suc)

text \<open>Evaluation on numerals, kept apart so that symbolic arguments are not unfolded.\<close>

lemma crc_bit_eval:
  "crc_bit 0 = 0"
  "crc_bit 1 = 0xA001"
  "crc_bit (numeral n) = (if even (numeral n :: u16) then drop_bit 1 (numeral n)
     else drop_bit 1 (numeral n) XOR 0xA001)"
  by (simp_all add: crc_bit_def bit_0)

fun table_agrees :: "u16 \<Rightarrow> u8 list \<Rightarrow> u8 list \<Rightarrow> bool" where
  "table_agrees i (l # ls) (h # hs) \<longleftrightarrow> (crc_bit ^^ 8) i = be16 l h \<and> table_agrees (i + 1) ls hs"
| "table_agrees i ls hs \<longleftrightarrow> ls = [] \<and> hs = []"

lemma crc_tables_agree: "table_agrees 0 auchCRCLo auchCRCHi"
  unfolding auchCRCLo_def auchCRCHi_def
  by (simp add: crc_bit8 crc_bit_eval be16_def)

lemma table_agrees_nth:
  "table_agrees i ls hs \<Longrightarrow> k < length ls \<Longrightarrow> (crc_bit ^^ 8) (i + of_nat k) = be16 (ls ! k) (hs ! k)"
proof (induction i ls hs arbitrary: k rule: table_agrees.induct)
  case (1 i l ls h hs)
  then show ?case by (cases k) (auto simp: add.assoc)
qed auto

lemma length_auchCRCLo: "length auchCRCLo = 256"
  by (simp add: auchCRCLo_def)

lemma crc_table: "(crc_bit ^^ 8) (ucast i) = be16 (auchCRCLo ! unat i) (auchCRCHi ! unat i)"
  for i :: u8
proof -
  have "unat i < 2 ^ LENGTH(8)"
    by (rule unsigned_less)
  then have "unat i < length auchCRCLo"
    by (simp add: length_auchCRCLo)
  then have "(crc_bit ^^ 8) (0 + of_nat (unat i)) = be16 (auchCRCLo ! unat i) (auchCRCHi ! unat i)"
    by (rule table_agrees_nth [OF crc_tables_agree])
  then show ?thesis by simp
qed

section \<open>Linearity and injectivity of the bitwise register\<close>

lemma crc_bit_0 [simp]: "crc_bit 0 = 0"
  by (simp add: crc_bit_def)

lemma crc_bits_0 [simp]: "(crc_bit ^^ n) 0 = 0"
  by (induction n) simp_all

lemma crc_bit_xor: "crc_bit (x XOR y) = crc_bit x XOR crc_bit y"
  by (auto simp: crc_bit_def bit_simps xor.assoc xor.left_commute xor.commute)

lemma crc_bits_xor: "(crc_bit ^^ n) (x XOR y) = (crc_bit ^^ n) x XOR (crc_bit ^^ n) y"
  by (induction n) (simp_all add: crc_bit_xor)

lemma crc_bit_push: "n < 8 \<Longrightarrow> crc_bit (push_bit (Suc n) (ucast (h :: u8))) = push_bit n (ucast h)"
  by (rule bit_word_eqI)
    (auto simp: crc_bit_def bit_simps simp del: push_bit_Suc dest: bit_imp_le_length)

lemma crc_bits_push: "n \<le> 8 \<Longrightarrow> (crc_bit ^^ n) (push_bit n (ucast (h :: u8))) = ucast h"
  by (induction n) (simp_all add: funpow_Suc_right crc_bit_push del: funpow.simps push_bit_Suc)

lemma bit15_crc_bit: "bit (crc_bit s) 15 = bit s 0"
  by (auto simp: crc_bit_def bit_simps dest: bit_imp_le_length)

lemma xor_cancel [simp]:
  "(a XOR b = a XOR c) = (b = c)" "(b XOR a = c XOR a) = (b = c)" for a b c :: "'a::len word"
  by (metis xor.assoc xor_self_eq xor.left_neutral, metis xor.assoc xor_self_eq xor.right_neutral)

lemma inj_crc_bit: "inj crc_bit"
proof (rule injI)
  fix x y :: u16
  assume eq: "crc_bit x = crc_bit y"
  have b0: "bit x 0 = bit y 0"
    using bit15_crc_bit [of x] bit15_crc_bit [of y] eq by simp
  have "drop_bit 1 x = drop_bit 1 y"
    using eq b0 by (auto simp: crc_bit_def split: if_splits)
  then have "bit x (Suc n) = bit y (Suc n)" for n
    by (metis bit_drop_bit_eq comp_apply plus_1_eq_Suc)
  then show "x = y"
    using b0 by (intro bit_word_eqI) (metis not0_implies_Suc)
qed

lemma inj_crc_bits: "inj (crc_bit ^^ n)"
  by (rule inj_fn [OF inj_crc_bit])

lemma crc_bits_eq_iff [simp]: "(crc_bit ^^ n) x = (crc_bit ^^ n) y \<longleftrightarrow> x = y"
  by (rule inj_eq [OF inj_crc_bits])

lemma crc_byte_eq_iff_state [simp]: "crc_byte s b = crc_byte s' b \<longleftrightarrow> s = s'"
  by (simp add: crc_byte_def)

lemma ucast_be16: "ucast b = be16 0 b"
  by (simp add: be16_def)

lemma ucast_u8_eq_iff [simp]: "(ucast a :: u16) = ucast b \<longleftrightarrow> a = b" for a b :: u8
  by (simp add: ucast_be16)

lemma crc_byte_eq_iff_byte [simp]: "crc_byte s b = crc_byte s b' \<longleftrightarrow> b = b'"
  by (simp add: crc_byte_def)

lemma foldl_crc_eq_iff [simp]: "foldl crc_byte s msg = foldl crc_byte s' msg \<longleftrightarrow> s = s'"
  by (induction msg arbitrary: s s') auto

section \<open>The table-driven loop computes the bitwise register\<close>

lemma be16_xor: "be16 h l XOR be16 h' l' = be16 (h XOR h') (l XOR l')"
  by (rule bit_word_eqI) (auto simp: be16_def bit_simps dest: bit_imp_le_length)

lemma be16_xor_low: "be16 h l XOR ucast b = be16 h (l XOR b)"
  by (rule bit_word_eqI) (auto simp: be16_def bit_simps dest: bit_imp_le_length)

lemma be16_split: "be16 h l = push_bit 8 (ucast h) XOR ucast l"
  by (rule bit_word_eqI) (auto simp: be16_def bit_simps dest: bit_imp_le_length)

lemma crc_byte_be16:
  "crc_byte (be16 h l) b
     = be16 (auchCRCLo ! unat (l XOR b)) (h XOR auchCRCHi ! unat (l XOR b))"
proof -
  have "crc_byte (be16 h l) b = (crc_bit ^^ 8) (push_bit 8 (ucast h)) XOR (crc_bit ^^ 8) (ucast (l XOR b))"
    unfolding crc_byte_def be16_xor_low unfolding be16_split crc_bits_xor ..
  also have "\<dots> = be16 0 h XOR be16 (auchCRCLo ! unat (l XOR b)) (auchCRCHi ! unat (l XOR b))"
    by (simp only: crc_bits_push order_refl crc_table) (simp only: ucast_be16)
  finally show ?thesis by (simp add: be16_xor)
qed

lemma crc_loop_ref:
  "case_prod be16 (crc_loop crc msg) = foldl crc_byte (case_prod be16 crc) msg"
  by (induction crc msg rule: crc_loop.induct)
    (auto simp: crc_step_def Let_def crc_byte_be16 split: prod.splits)

lemma CRC16_ref: "CRC16 msg = crc_ref msg"
proof -
  have "CRC16 msg = case_prod be16 (crc_loop (0xFF, 0xFF) msg)"
    by (simp add: CRC16_def be16_def split: prod.splits)
  also have "\<dots> = crc_ref msg"
    by (simp add: crc_loop_ref crc_ref_def) (simp add: be16_def)
  finally show ?thesis .
qed

section \<open>Error detection\<close>

lemma crc_ref_append: "crc_ref (xs @ ys) = foldl crc_byte (crc_ref xs) ys"
  by (simp add: crc_ref_def)

text \<open>Feeding the register's own bytes, low byte first, clears it, and nothing else does.\<close>

lemma crc_byte_low: "crc_byte (be16 h l) l = be16 0 h"
proof -
  have "be16 h l XOR ucast l = push_bit 8 (ucast h)"
    by (simp add: be16_xor_low) (simp add: be16_def)
  then show ?thesis
    by (simp add: crc_byte_def crc_bits_push ucast_be16 [symmetric])
qed

lemma crc_byte_zero_iff: "crc_byte s b = 0 \<longleftrightarrow> s = ucast b"
proof -
  have "crc_byte s b = 0 \<longleftrightarrow> (crc_bit ^^ 8) (s XOR ucast b) = (crc_bit ^^ 8) 0"
    by (simp add: crc_byte_def)
  also have "\<dots> \<longleftrightarrow> s XOR ucast b = ucast b XOR ucast b"
    by (simp only: crc_bits_eq_iff xor_self_eq)
  finally show ?thesis by (simp only: xor_cancel)
qed

lemma crc_residue: "crc_byte (crc_byte s l) h = 0 \<longleftrightarrow> l = lo8 s \<and> h = hi8 s"
proof -
  have "crc_byte (crc_byte s l) h = 0 \<longleftrightarrow> crc_byte s l = crc_byte (be16 h l) l"
    by (simp add: crc_byte_zero_iff crc_byte_low ucast_be16)
  also have "\<dots> \<longleftrightarrow> s = be16 h l"
    by simp
  finally show ?thesis
    by (metis be16_hi8_lo8 hi8_be16 lo8_be16)
qed

text \<open>Two adjacent bytes: a change of both cannot cancel, since eight turns move the difference of
  the first byte out of the reach of the second.\<close>

lemma crc_two_bytes:
  assumes "crc_byte (crc_byte s a) b = crc_byte (crc_byte s a') b'"
  shows "a = a' \<and> b = b'"
proof -
  have pair: "crc_byte (crc_byte s x) y = (crc_bit ^^ 8) ((crc_bit ^^ 8) (s XOR be16 y x))" for x y
  proof -
    have "s XOR be16 y x = (s XOR ucast x) XOR push_bit 8 (ucast y)"
      by (simp add: be16_split xor.assoc xor.commute)
    then have "(crc_bit ^^ 8) (s XOR be16 y x) = (crc_bit ^^ 8) (s XOR ucast x) XOR ucast y"
      by (simp only: crc_bits_xor crc_bits_push order_refl)
    then show ?thesis by (simp add: crc_byte_def)
  qed
  have "be16 b a = be16 b' a'"
    using assms unfolding pair by simp
  then show ?thesis by simp
qed

section \<open>Properties\<close>

text \<open>C20. The table driven \<^verbatim>\<open>CRC16\<close> computes the checksum of the Modbus specification, shift register
  preset to 0xFFFF, one shift per bit, feedback polynomial 0xA001, on every message.\<close>

theorem CRC16_is_bitwise: "CRC16 msg = foldl (\<lambda>s b. (crc_bit ^^ 8) (s XOR ucast b)) 0xFFFF msg"
  unfolding CRC16_ref crc_ref_def crc_byte_def ..

text \<open>A message followed by its checksum, low byte first, has checksum zero, and no other two
  bytes do: comparing the two received bytes with the computed ones, as \<^verbatim>\<open>receive_response\<close> does, is the
  same as checking that the checksum of the whole frame vanishes.\<close>

lemma CRC16_zero_iff: "CRC16 (msg @ [l, h]) = 0 \<longleftrightarrow> l = lo8 (CRC16 msg) \<and> h = hi8 (CRC16 msg)"
  by (simp add: CRC16_ref crc_ref_append crc_residue)

text \<open>Changing one byte of a message, anywhere, changes its checksum.\<close>

lemma CRC16_single_byte: "CRC16 (xs @ [a] @ ys) = CRC16 (xs @ [b] @ ys) \<longleftrightarrow> a = b"
  by (simp add: CRC16_ref crc_ref_append)

text \<open>Changing two neighbouring bytes, so any burst of errors within 16 aligned bits, changes the
  checksum.\<close>

lemma CRC16_two_bytes: "CRC16 (xs @ [a, b] @ ys) = CRC16 (xs @ [a', b'] @ ys) \<longleftrightarrow> a = a' \<and> b = b'"
  by (auto simp: CRC16_ref crc_ref_append dest: crc_two_bytes)

end
