(* ===== verification/Rtu.thy ===== *)
theory Rtu
  imports Transport Crc
begin

text \<open>
  Model of \<^verbatim>\<open>include/mothbus/adu/rtu.h\<close>: the serial line stream. A request is the slave address, the
  PDU and the checksum, low byte first. A response is received byte by byte until no byte arrives within
  the inter-character time-out.
\<close>

section \<open>The stream\<close>

record 'n rtu_stream =
  m_messageBuffer :: "u8 list"
  rtu_next_layer :: 'n
  rtu_transaction_id :: u16
  m_timeoutInterCharacter :: nat
  m_timeoutResponse :: nat

definition rtu_stream_ctor :: "'n \<Rightarrow> 'n rtu_stream" where
  "rtu_stream_ctor next_layer =
     \<lparr>m_messageBuffer = replicate 320 0, rtu_next_layer = next_layer, rtu_transaction_id = 0,
      m_timeoutInterCharacter = 1800, m_timeoutResponse = 10000\<rparr>"

text \<open>\<^verbatim>\<open>span(m_messageBuffer.data(), n)\<close>, for a callee that reads all of it.\<close>

definition array_prefix :: "nat \<Rightarrow> u8 list \<Rightarrow> u8 list option" where
  "array_prefix n array = (if n \<le> length array then Some (take n array) else None)"

section \<open>Writing a request\<close>

definition rtu_write_frame :: "u8 \<Rightarrow> (buffer \<Rightarrow> buffer option) \<Rightarrow> u8 list \<Rightarrow> buffer option" where
  "rtu_write_frame slave write_pdu array = do {
     let sink = buffer_of array;
     sink \<leftarrow> write_uint8 buffer_put slave sink;
     sink \<leftarrow> write_pdu sink;
     msg \<leftarrow> array_prefix (output_start sink) (message_buffer sink);
     let crc = CRC16 msg;
     let low = ucast (crc AND 0xff);
     let high = ucast (drop_bit 8 crc AND 0xff);
     sink \<leftarrow> write_uint8 buffer_put low sink;
     sink \<leftarrow> write_uint8 buffer_put high sink;
     let index = output_start sink;
     Some (buffer_commit index sink)
   }"

text \<open>The error code of the transfer is dropped.\<close>

definition rtu_write_request ::
    "'n network \<Rightarrow> u8 \<Rightarrow> (buffer \<Rightarrow> buffer option) \<Rightarrow> ('n rtu_stream, u16) operation" where
  "rtu_write_request net slave write_pdu st =
     (case do {
        sink \<leftarrow> rtu_write_frame slave write_pdu (m_messageBuffer st);
        data \<leftarrow> buffer_data sink;
        Some (sink, data)
      } of
        None \<Rightarrow> Undefined
      | Some (sink, data) \<Rightarrow>
          let (ec, n) = mothbus_write_ec net data (rtu_next_layer st)
          in Return (rtu_transaction_id st)
               (st\<lparr>m_messageBuffer := message_buffer sink, rtu_next_layer := n,
                   rtu_transaction_id := rtu_transaction_id st + 1\<rparr>))"

section \<open>Receiving\<close>

text \<open>The read is raced against a timer; the handler records the size of a read that succeeded.\<close>

definition read_byte_with_timeout :: "'n network \<Rightarrow> nat \<Rightarrow> (buffer \<times> 'n, nat) operation" where
  "read_byte_with_timeout net timeout st =
     (let (source, n) = st;
          region = buffer_prepare source 1;
          (e, bs, n) = net_read_until net timeout (snd region) n
      in case store_region region bs source of
           None \<Rightarrow> Undefined
         | Some source \<Rightarrow> Return (if \<not> failed e \<and> length bs > 0 then length bs else 0) (source, n))"

text \<open>The loop ends: every turn that does not leave it fills at least one byte of the array, and a
  byte behind the array is undefined behaviour.\<close>

lemma read_byte_progress:
  "read_byte_with_timeout net timeout st = Return k (source, n) \<Longrightarrow> k \<noteq> 0 \<Longrightarrow>
   output_start (fst st) + k \<le> length (message_buffer (fst st)) \<and>
   output_start source = output_start (fst st) \<and>
   length (message_buffer source) = length (message_buffer (fst st))"
  by (auto simp: read_byte_with_timeout_def store_region_def buffer_prepare_def Let_def
      split: prod.splits if_splits)

function receive_rest :: "'n network \<Rightarrow> nat \<Rightarrow> (buffer \<times> 'n, unit) operation" where
  "receive_rest net timeout st =
     (case read_byte_with_timeout net timeout st of
        Return readSize (source, n) \<Rightarrow>
          if readSize = 0 then Return () (source, n)
          else receive_rest net timeout (buffer_commit readSize source, n)
      | Throw ec st \<Rightarrow> Throw ec st
      | Assert_failed \<Rightarrow> Assert_failed
      | Undefined \<Rightarrow> Undefined)"
  by pat_completeness auto
termination
proof (relation "measure (\<lambda>(net, timeout, (source, n)). length (message_buffer source) - output_start source)")
  fix net :: "'n network" and timeout st k source n p
  assume "read_byte_with_timeout net timeout st = Return k p" "(source, n) = p" "k \<noteq> 0"
  then show "((net, timeout, buffer_commit k source, n), net, timeout, st)
      \<in> measure (\<lambda>(net, timeout, (source, n)). length (message_buffer source) - output_start source)"
    using read_byte_progress [of net timeout st k source n] by (cases st) (auto simp: buffer_commit_def)
qed simp

declare receive_rest.simps [simp del]

text \<open>\<^verbatim>\<open>boost::system::errc::timed_out\<close>; its value is the one of \<^verbatim>\<open>ETIMEDOUT\<close> on Linux, and only its being a failure matters.\<close>

definition timed_out :: error_code where
  "timed_out = \<lparr>ec_value = 110, ec_category = generic_category\<rparr>"

text \<open>The comparison of the received checksum. A variable whose read failed has no value; the second
  one is only looked at when the first agrees.\<close>

definition crc_verdict :: "u16 \<Rightarrow> u8 option \<Rightarrow> u8 option \<Rightarrow> error_code option" where
  "crc_verdict crc rcvCrcL rcvCrcH = do {
     l \<leftarrow> rcvCrcL;
     if ucast l \<noteq> crc AND 0xff then Some (make_error_code invalid_response)
     else do {
       h \<leftarrow> rcvCrcH;
       if ucast h \<noteq> drop_bit 8 crc AND 0xff then Some (make_error_code invalid_response)
       else Some no_error
     }
   }"

definition read_uninitialised :: "(buffer \<times> 'n, u8 option) operation" where
  "read_uninitialised =
     bind_op (lift_read buffer_read 0) (\<lambda>(ec, v). return_op (if failed ec then None else Some v))"

definition check_crc :: "'v \<Rightarrow> (buffer \<times> 'n, error_code \<times> 'v) operation" where
  "check_crc out st =
     (case array_prefix (input_start (fst st)) (message_buffer (fst st)) of
        None \<Rightarrow> Undefined
      | Some msg \<Rightarrow>
          let crc = CRC16 msg in
          bind_op read_uninitialised (\<lambda>rcvCrcL.
          bind_op read_uninitialised (\<lambda>rcvCrcH st.
            case crc_verdict crc rcvCrcL rcvCrcH of
              None \<Rightarrow> Undefined
            | Some ec \<Rightarrow> Return (ec, out) st)) st)"

definition receive_response ::
    "'n network \<Rightarrow> 'n rtu_stream \<Rightarrow> u8 \<Rightarrow> function_code \<Rightarrow>
     (buffer read8 \<Rightarrow> buffer \<Rightarrow> 'v \<Rightarrow> (buffer, 'v) read_result) \<Rightarrow> 'v \<Rightarrow>
     (buffer \<times> 'n, error_code \<times> 'v) operation" where
  "receive_response net st expectedSlave response_fc response_read out =
     (if expectedSlave = 0 then return_op (no_error, out) else
      bind_op (read_byte_with_timeout net (m_timeoutResponse st)) (\<lambda>readSize.
      if readSize = 0 then return_op (timed_out, out) else
      bind_op (\<lambda>(source, n). Return () (buffer_commit readSize source, n)) (\<lambda>_.
      bind_op read_uninitialised (\<lambda>receivedSlave.
      case receivedSlave of
        None \<Rightarrow> (\<lambda>_. Undefined)
      | Some receivedSlave \<Rightarrow>
          if receivedSlave \<noteq> expectedSlave then return_op (make_error_code slave_id_invalid, out) else
          bind_op (receive_rest net (m_timeoutInterCharacter st)) (\<lambda>_.
          bind_op (lift_read (read_pdu_resp buffer_read response_fc response_read) out) (\<lambda>(_, out).
          check_crc out))))))"

definition rtu_read_response ::
    "'n network \<Rightarrow> u16 \<Rightarrow> u8 \<Rightarrow> function_code \<Rightarrow>
     (buffer read8 \<Rightarrow> buffer \<Rightarrow> 'v \<Rightarrow> (buffer, 'v) read_result) \<Rightarrow> 'v \<Rightarrow>
     ('n rtu_stream, error_code \<times> 'v) operation" where
  "rtu_read_response net tid expected_slave response_fc response_read out st =
     (case receive_response net st expected_slave response_fc response_read out
             (buffer_of (m_messageBuffer st), rtu_next_layer st) of
        Return x (source, n) \<Rightarrow>
          Return x (st\<lparr>m_messageBuffer := message_buffer source, rtu_next_layer := n\<rparr>)
      | Throw ec (source, n) \<Rightarrow>
          Throw ec (st\<lparr>m_messageBuffer := message_buffer source, rtu_next_layer := n\<rparr>)
      | Assert_failed \<Rightarrow> Assert_failed
      | Undefined \<Rightarrow> Undefined)"

end
