(* ===== verification/Rtu_Laws.thy ===== *)
theory Rtu_Laws
  imports Rtu Response_Reader Wire
begin

text \<open>
  What the serial line stream sends, and what it makes of the bytes that arrive: the frame with its
  checksum, the receiving loop as the sequence of bytes before the line falls silent, and the response
  with the buffer abstracted away.
\<close>

section \<open>Frames\<close>

definition rtu_frame :: "u8 \<Rightarrow> u8 list \<Rightarrow> u8 list" where
  "rtu_frame slave pdu =
     (let crc = CRC16 (slave # pdu) in (slave # pdu) @ [lo8 crc, hi8 crc])"

lemma length_rtu_frame [simp]: "length (rtu_frame slave pdu) = 3 + length pdu"
  by (simp add: rtu_frame_def Let_def)

lemma crc_bytes: "ucast (crc AND 0xff) = lo8 crc" "lo8 (drop_bit 8 crc) = hi8 crc"
  for crc :: u16
  by (rule bit_word_eqI; simp add: lo8_def hi8_def and_255 bit_simps)+

lemma rtu_write_frame_form:
  "rtu_write_frame slave (put_all buffer_put pdu) array =
     (if 3 + length pdu \<le> length array
      then Some \<lparr>message_buffer = overwrite 0 (rtu_frame slave pdu) array,
                 input_start = 0, input_end = 3 + length pdu, output_start = 2 * (3 + length pdu)\<rparr>
      else None)"
proof -
  have front: "do {
      sink \<leftarrow> write_uint8 buffer_put slave (buffer_of array);
      sink \<leftarrow> put_all buffer_put pdu sink;
      f sink } = put_all buffer_put (slave # pdu) (buffer_of array) \<bind> f" for f :: "buffer \<Rightarrow> buffer option"
    by (simp add: write_forms put_all_unfold)
  have crc_tail: "do {
      sink \<leftarrow> write_uint8 buffer_put x sink;
      sink \<leftarrow> write_uint8 buffer_put y sink;
      f sink } = put_all buffer_put [x, y] sink \<bind> f" for x y sink and f :: "buffer \<Rightarrow> buffer option"
    by (simp add: write_forms put_all_unfold)
  have over: "overwrite (Suc (length pdu)) [x, y] (overwrite 0 (slave # pdu) array) =
      overwrite 0 ((slave # pdu) @ [x, y]) array" for x y
    by (simp add: overwrite_def)
  have "take (Suc (length pdu)) (overwrite 0 (slave # pdu) array) = slave # pdu"
    by (simp add: overwrite_def)
  with over show ?thesis
    unfolding rtu_write_frame_def Let_def front crc_tail
    unfolding buffer_put_all
    by (simp add: buffer_of_def buffer_commit_def array_prefix_def rtu_frame_def Let_def crc_bytes)
qed

lemma take_rtu_frame [simp]:
  "take (3 + length pdu) (overwrite 0 (rtu_frame slave pdu) mb) = rtu_frame slave pdu"
  by (simp add: overwrite_def)

lemma rtu_write_request_form:
  "rtu_write_request net slave (put_all buffer_put pdu) st =
     (if 3 + length pdu \<le> length (m_messageBuffer st)
      then let frame = rtu_frame slave pdu
           in Return (rtu_transaction_id st)
                (st\<lparr>m_messageBuffer := overwrite 0 frame (m_messageBuffer st),
                    rtu_next_layer := snd (net_write net frame (rtu_next_layer st)),
                    rtu_transaction_id := rtu_transaction_id st + 1\<rparr>)
      else Undefined)"
  by (simp add: rtu_write_request_def rtu_write_frame_form buffer_data_def mothbus_write_ec_def Let_def
      split: prod.splits)

section \<open>The receiving loop\<close>

text \<open>\<open>arrives net t n bs n'\<close>: one-byte reads with time-out \<open>t\<close> deliver the bytes \<open>bs\<close>, then one
  fails.\<close>

inductive arrives :: "'n network \<Rightarrow> nat \<Rightarrow> 'n \<Rightarrow> u8 list \<Rightarrow> 'n \<Rightarrow> bool" for net t where
  silence: "net_read_until net t 1 n = (ec, [], n') \<Longrightarrow> failed ec \<Longrightarrow> arrives net t n [] n'"
| byte: "net_read_until net t 1 n = (ec, [b], n') \<Longrightarrow> \<not> failed ec \<Longrightarrow> arrives net t n' bs n'' \<Longrightarrow>
    arrives net t n (b # bs) n''"

lemma read_byte_forms:
  "net_read_until net t 1 n = (ec, [], n') \<Longrightarrow> e \<le> length mb \<Longrightarrow>
   read_byte_with_timeout net t (received mb e k, n) = Return 0 (received mb e k, n')"
  "net_read_until net t 1 n = (ec, [b], n') \<Longrightarrow> \<not> failed ec \<Longrightarrow> e < length mb \<Longrightarrow>
   read_byte_with_timeout net t (received mb e k, n) =
     Return 1 ((received mb e k)\<lparr>message_buffer := mb[e := b]\<rparr>, n')"
  "net_read_until net t 1 n = (ec, [b], n') \<Longrightarrow> length mb \<le> e \<Longrightarrow>
   read_byte_with_timeout net t (received mb e k, n) = Undefined"
  by (simp_all add: read_byte_with_timeout_def store_region_def buffer_prepare_def overwrite_def
      upd_conv_take_nth_drop received_def)

lemma commit_received: "buffer_commit 1 ((received mb e k)\<lparr>message_buffer := mb'\<rparr>) = received mb' (e + 1) k"
  by (simp add: buffer_commit_def received_def)

lemma receive_rest_arrives:
  assumes "arrives net t n bs n'" "e + length bs \<le> length mb"
  shows "\<exists>mb'. receive_rest net t (received mb e k, n) = Return () (received mb' (e + length bs) k, n') \<and>
    length mb' = length mb \<and> take (e + length bs) mb' = take e mb @ bs"
  using assms
proof (induction arbitrary: mb e)
  case (silence n ec n')
  then show ?case
    by (subst receive_rest.simps) (auto simp: read_byte_forms)
next
  case (byte n ec b n' bs n'')
  have "e < length mb" using byte.prems by simp
  then have "receive_rest net t (received mb e k, n) = receive_rest net t (received (mb[e := b]) (e + 1) k, n')"
    using byte by (subst receive_rest.simps) (simp add: read_byte_forms commit_received [simplified])
  moreover have "take (e + 1) (mb[e := b]) = take e mb @ [b]"
    using \<open>e < length mb\<close> by (simp add: take_Suc_conv_app_nth)
  ultimately show ?case
    using byte.IH [of "e + 1" "mb[e := b]"] byte.prems by auto
qed

lemma receive_rest_overflow:
  assumes "arrives net t n bs n'" "e \<le> length mb" "length mb < e + length bs"
  shows "receive_rest net t (received mb e k, n) = Undefined"
  using assms
proof (induction arbitrary: mb e)
  case (silence n ec n')
  then show ?case by simp
next
  case (byte n ec b n' bs n'')
  show ?case
  proof (cases "e < length mb")
    case True
    then have "receive_rest net t (received mb e k, n) = receive_rest net t (received (mb[e := b]) (e + 1) k, n')"
      using byte by (subst receive_rest.simps) (simp add: read_byte_forms commit_received [simplified])
    then show ?thesis
      using byte True by simp
  next
    case False
    then show ?thesis
      using byte by (subst receive_rest.simps) (simp add: read_byte_forms)
  qed
qed

section \<open>The response\<close>

text \<open>The verdict on the bytes behind the slave address.\<close>

definition rtu_body_verdict ::
    "u8 \<Rightarrow> (u8 list \<Rightarrow> 'v \<Rightarrow> (u8 list, 'v) read_result) \<Rightarrow> u8 list \<Rightarrow> 'v \<Rightarrow> (error_code \<times> 'v) option" where
  "rtu_body_verdict slave rsp bs out = do {
     (_, out, rest) \<leftarrow> rsp bs out;
     let crc = CRC16 (slave # take (length bs - length rest) bs);
     (case rest of
        [] \<Rightarrow> None
      | [l] \<Rightarrow> if l \<noteq> lo8 crc then Some (make_error_code invalid_response, out) else None
      | l # h # _ \<Rightarrow>
          Some (if l = lo8 crc \<and> h = hi8 crc then no_error else make_error_code invalid_response, out))
   }"

lemma crc_byte_wide: "crc AND 0xff = ucast (lo8 crc)" for crc :: u16
  by (rule bit_word_eqI) (simp add: lo8_def and_255 bit_simps)

lemma crc_verdict_forms:
  "crc_verdict crc (Some l) (Some h) =
     Some (if l = lo8 crc \<and> h = hi8 crc then no_error else make_error_code invalid_response)"
  "crc_verdict crc (Some l) None =
     (if l \<noteq> lo8 crc then Some (make_error_code invalid_response) else None)"
  "crc_verdict crc None y = None"
  by (simp_all add: crc_verdict_def crc_byte_wide crc_bytes)

lemma read_uninitialised_forms:
  "k < e \<Longrightarrow> e \<le> length mb \<Longrightarrow>
   read_uninitialised (received mb e k, n) = Return (Some (mb ! k)) (received mb e (k + 1), n)"
  "e \<le> k \<Longrightarrow> read_uninitialised (received mb e k, n) = Return None (received mb e k, n)"
proof -
  show "k < e \<Longrightarrow> e \<le> length mb \<Longrightarrow>
     read_uninitialised (received mb e k, n) = Return (Some (mb ! k)) (received mb e (k + 1), n)"
    by (simp add: read_uninitialised_def bind_op_def lift_received)
  show "e \<le> k \<Longrightarrow> read_uninitialised (received mb e k, n) = Return None (received mb e k, n)"
    by (simp add: read_uninitialised_def bind_op_def lift_read_def buffer_read_def buffer_get_def)
qed

lemma check_crc_received:
  assumes mb: "mb = (slave # pre) @ rest @ junk"
  shows "check_crc out (received mb (length (slave # pre) + length rest) (length (slave # pre)), n) =
    (let crc = CRC16 (slave # pre);
         done = \<lambda>k ec. Return (ec, out)
           (received mb (length (slave # pre) + length rest) (length (slave # pre) + k), n)
     in case rest of
        [] \<Rightarrow> Undefined
      | [l] \<Rightarrow> if l \<noteq> lo8 crc then done 1 (make_error_code invalid_response) else Undefined
      | l # h # _ \<Rightarrow>
          done 2 (if l = lo8 crc \<and> h = hi8 crc then no_error else make_error_code invalid_response))"
proof -
  have prefix: "array_prefix (length (slave # pre)) mb = Some (slave # pre)"
    by (simp add: array_prefix_def mb)
  have at: "mb ! (length (slave # pre) + i) = rest ! i" if "i < length rest" for i
    using that by (simp add: mb nth_append)
  consider "rest = []" | l where "rest = [l]" | l h r where "rest = l # h # r"
    by (cases rest rule: remdups_adj.cases) auto
  then show ?thesis
  proof cases
    case 1
    then show ?thesis
      using prefix by (simp add: check_crc_def bind_op_def read_uninitialised_forms crc_verdict_forms)
  next
    case (2 l)
    then show ?thesis
      using prefix at [of 0] mb
      by (simp add: check_crc_def bind_op_def read_uninitialised_forms crc_verdict_forms Let_def)
  next
    case (3 l h r)
    then show ?thesis
      using prefix at [of 0] at [of 1] mb
      by (simp add: check_crc_def bind_op_def read_uninitialised_forms crc_verdict_forms Let_def)
  qed
qed

lemma first_byte:
  assumes "net_read_until net t 1 s = (ec, [b], n)" "\<not> failed ec" "0 < length mb"
  shows "bind_op (read_byte_with_timeout net t) (\<lambda>readSize.
      if readSize = 0 then f else
      bind_op (\<lambda>(source, n). Return () (buffer_commit readSize source, n)) (\<lambda>_.
      bind_op read_uninitialised g)) (received mb 0 0, s) =
    g (Some b) (received (mb[0 := b]) 1 1, n)"
  using assms read_byte_forms(2) [OF assms(1,2), where e = 0 and k = 0 and mb = mb] commit_received [where mb' = "mb[0 := b]" and mb = mb and e = 0 and k = 0]
    read_uninitialised_forms(1) [of 0 1 "mb[0 := b]" n]
  by (simp add: bind_op_def Suc_le_eq)

context response_reader
begin

lemma body_received:
  assumes mb: "take (1 + length bs) mb = slave # bs" "1 + length bs \<le> length mb"
  shows "\<exists>k. bind_op (lift_read (read_pdu_resp buffer_read fc rsp) out) (\<lambda>(_, out). check_crc out)
      (received mb (1 + length bs) 1, n) =
    (case rtu_body_verdict slave read_resp bs out of
       None \<Rightarrow> Undefined
     | Some r \<Rightarrow> Return r (received mb (1 + length bs) k, n))"
proof -
  obtain ec out' rest where read: "read_resp bs out = Some (ec, out', rest)" "suffix rest bs"
    by (rule resp_outcome)
  then obtain pre where bs: "bs = pre @ rest"
    by (auto simp: suffix_def)
  have split: "mb = (slave # pre) @ rest @ drop (1 + length bs) mb"
    using mb(1) append_take_drop_id [of "1 + length bs" mb] by (simp add: bs)
  have "take (1 + length bs - 1) (drop 1 mb) = bs"
    by (subst split) (simp add: bs)
  then have "lift_read (read_pdu_resp buffer_read fc rsp) out (received mb (1 + length bs) 1, n) =
      Return (ec, out') (received mb (1 + length bs) (1 + length bs - length rest), n)"
    using lift_read_received [OF _ mb(2) resp_alike, of 1 out n] read(1) by simp
  then have "bind_op (lift_read (read_pdu_resp buffer_read fc rsp) out) (\<lambda>(_, out). check_crc out)
      (received mb (1 + length bs) 1, n) =
    check_crc out' (received mb (length (slave # pre) + length rest) (length (slave # pre)), n)"
    by (simp add: bind_op_def bs)
  then show ?thesis
    unfolding check_crc_received [OF split] using read(1)
    by (simp add: rtu_body_verdict_def bs Let_def split: list.splits) auto
qed

text \<open>The first byte answers the request within the response time-out, the others follow without a
  gap and fit the array.\<close>

lemma rtu_read_response_body:
  assumes len: "length (m_messageBuffer st) = 320" and slave: "slave \<noteq> 0"
    and first: "net_read_until net (m_timeoutResponse st) 1 (rtu_next_layer st) = (ec, [slave], n)"
      "\<not> failed ec"
    and rest: "arrives net (m_timeoutInterCharacter st) n bs n'" "1 + length bs \<le> 320"
  shows "\<exists>mb. length mb = 320 \<and> rtu_read_response net tid slave fc rsp out st =
    (case rtu_body_verdict slave read_resp bs out of
       None \<Rightarrow> Undefined
     | Some r \<Rightarrow> Return r (st\<lparr>m_messageBuffer := mb, rtu_next_layer := n'\<rparr>))"
proof -
  let ?mb = "(m_messageBuffer st)[0 := slave]"
  have "take 1 ?mb = [slave]"
    using len by (cases "m_messageBuffer st") auto
  then obtain mb where loop: "receive_rest net (m_timeoutInterCharacter st) (received ?mb 1 1, n) =
        Return () (received mb (1 + length bs) 1, n')"
      and mb: "length mb = 320" "take (1 + length bs) mb = slave # bs"
    using receive_rest_arrives [OF rest(1), of 1 ?mb 1] rest(2) len by auto
  obtain k where "bind_op (lift_read (read_pdu_resp buffer_read fc rsp) out) (\<lambda>(_, out). check_crc out)
      (received mb (1 + length bs) 1, n') =
    (case rtu_body_verdict slave read_resp bs out of
       None \<Rightarrow> Undefined
     | Some r \<Rightarrow> Return r (received mb (1 + length bs) k, n'))"
    using body_received [OF mb(2), of out n'] mb(1) rest(2) by auto
  moreover have "receive_response net st slave fc rsp out (buffer_of (m_messageBuffer st), rtu_next_layer st) =
      bind_op (receive_rest net (m_timeoutInterCharacter st)) (\<lambda>_.
        bind_op (lift_read (read_pdu_resp buffer_read fc rsp) out) (\<lambda>(_, out). check_crc out))
      (received ?mb 1 1, n)"
    unfolding receive_response_def buffer_of_received using slave len
    by (simp add: first_byte [OF first])
  ultimately have "receive_response net st slave fc rsp out (buffer_of (m_messageBuffer st), rtu_next_layer st) =
      (case rtu_body_verdict slave read_resp bs out of
         None \<Rightarrow> Undefined
       | Some r \<Rightarrow> Return r (received mb (1 + length bs) k, n'))"
    by (simp only: bind_op_simps(1) [where m = "receive_rest net (m_timeoutInterCharacter st)", OF loop])
  then show ?thesis
    using mb(1) by (intro exI [of _ mb]) (simp add: rtu_read_response_def split: option.splits)
qed

lemma rtu_read_response_overflow:
  assumes len: "length (m_messageBuffer st) = 320" and slave: "slave \<noteq> 0"
    and first: "net_read_until net (m_timeoutResponse st) 1 (rtu_next_layer st) = (ec, [slave], n)"
      "\<not> failed ec"
    and rest: "arrives net (m_timeoutInterCharacter st) n bs n'" "320 \<le> length bs"
  shows "rtu_read_response net tid slave fc rsp out st = Undefined"
proof -
  let ?mb = "(m_messageBuffer st)[0 := slave]"
  have "receive_rest net (m_timeoutInterCharacter st) (received ?mb 1 1, n) = Undefined"
    using receive_rest_overflow [OF rest(1), of 1 ?mb 1] rest(2) len by simp
  then have "receive_response net st slave fc rsp out (buffer_of (m_messageBuffer st), rtu_next_layer st) = Undefined"
    unfolding receive_response_def buffer_of_received using slave len
    by (simp add: first_byte [OF first] bind_op_simps(4))
  then show ?thesis
    by (simp add: rtu_read_response_def)
qed

end

text \<open>The two bytes behind a response that was read decide.\<close>

lemma body_verdict_two:
  "rsp (pdu @ [l, h]) out = Some (ec, out', [l, h]) \<Longrightarrow>
   rtu_body_verdict slave rsp (pdu @ [l, h]) out =
     Some (if CRC16 ((slave # pdu) @ [l, h]) = 0 then no_error else make_error_code invalid_response, out')"
  by (simp only: CRC16_ref crc_ref_append) (simp add: rtu_body_verdict_def CRC16_ref crc_residue Let_def)

lemma wire_arrives:
  "incoming w = bs \<Longrightarrow> arrives wire_net t w bs (w\<lparr>incoming := []\<rparr>)"
proof (induction bs arbitrary: w)
  case Nil
  then show ?case
    by (intro arrives.silence [where ec = wire_eof]) (simp_all add: wire_read_def)
next
  case (Cons b bs)
  have "arrives wire_net t (w\<lparr>incoming := bs\<rparr>) bs (w\<lparr>incoming := []\<rparr>)"
    using Cons.IH [of "w\<lparr>incoming := bs\<rparr>"] by simp
  then show ?case
    by (rule arrives.byte [where ec = no_error, rotated 2]) (simp_all add: wire_read_def Cons.prems)
qed

lemma wire_arrives_record [simp]:
  "arrives wire_net t \<lparr>incoming = bs, outgoing = sent\<rparr> bs \<lparr>incoming = [], outgoing = sent\<rparr>"
  using wire_arrives [of "\<lparr>incoming = bs, outgoing = sent\<rparr>" bs t] by simp

section \<open>Properties\<close>

text \<open>C37. \<^verbatim>\<open>rtu::stream::write_request\<close> sends one frame: slave, encoded request, and the checksum of both
  with the low byte first, so that the checksum of the whole frame is zero. It does so exactly when the
  PDU has at most 317 bytes; a longer one writes behind the message buffer. A transfer error is not
  reported.\<close>

theorem rtu_write_request_sends:
  assumes "length (m_messageBuffer st) = 320" "pdu_req_writable v"
  shows "rtu_write_request net slave (write_pdu_req buffer_put v) st =
    (if length (pdu_req_bytes v) \<le> 317
     then let frame = rtu_frame slave (pdu_req_bytes v)
          in Return (rtu_transaction_id st)
               (st\<lparr>m_messageBuffer := overwrite 0 frame (m_messageBuffer st),
                   rtu_next_layer := snd (net_write net frame (rtu_next_layer st)),
                   rtu_transaction_id := rtu_transaction_id st + 1\<rparr>)
     else Undefined) \<and> CRC16 (rtu_frame slave (pdu_req_bytes v)) = 0"
proof -
  have "write_pdu_req buffer_put v = put_all buffer_put (pdu_req_bytes v)"
    using assms(2) by (intro ext) (simp add: write_pdu_req_form)
  moreover have "CRC16 (rtu_frame slave (pdu_req_bytes v)) = 0"
    unfolding rtu_frame_def Let_def CRC16_ref crc_ref_append by (simp add: crc_residue)
  ultimately show ?thesis
    using assms(1) by (simp add: rtu_write_request_form)
qed

theorem rtu_write_request_sends_witness:
  "rtu_write_request wire_net 9 (write_pdu_req buffer_put (Read_input
       \<lparr>ri_starting_address = 0, ri_quantity_of_registers = 1\<rparr>))
     (rtu_stream_ctor \<lparr>incoming = [], outgoing = []\<rparr>) =
   (let frame = rtu_frame 9 [4, 0, 0, 0, 1]
    in Return 0 ((rtu_stream_ctor \<lparr>incoming = [], outgoing = frame\<rparr>)
         \<lparr>m_messageBuffer := overwrite 0 frame (replicate 320 0), rtu_transaction_id := 1\<rparr>))"
proof -
  have "pdu_req_bytes (Read_input \<lparr>ri_starting_address = 0, ri_quantity_of_registers = 1\<rparr>) = [4, 0, 0, 0, 1]"
    by (simp add: pdu_req_bytes_def encodings protocol_consts hi8_def lo8_def)
  then show ?thesis
    using rtu_write_request_sends [of "rtu_stream_ctor \<lparr>incoming = [], outgoing = []\<rparr>"
        "Read_input \<lparr>ri_starting_address = 0, ri_quantity_of_registers = 1\<rparr>" wire_net 9]
    by (simp add: rtu_stream_ctor_def Let_def)
qed

text \<open>A response that was read in full is accepted exactly when the checksum over the whole received
  frame is zero, and refused as invalid otherwise. The error code of decoding the response plays no part.\<close>

lemma rtu_checksum_decides:
  assumes "response_reader fc rsp lrsp" "length (m_messageBuffer st) = 320" "slave \<noteq> 0"
    and "net_read_until net (m_timeoutResponse st) 1 (rtu_next_layer st) = (ec, [slave], n)" "\<not> failed ec"
    and "arrives net (m_timeoutInterCharacter st) n (pdu @ [l, h]) n'" "3 + length pdu \<le> 320"
    and "read_pdu_resp checked_read fc lrsp (pdu @ [l, h]) out = Some (ec', out', [l, h])"
  shows "\<exists>st'. rtu_read_response net tid slave fc rsp out st =
    Return (if CRC16 ((slave # pdu) @ [l, h]) = 0 then no_error else make_error_code invalid_response, out') st'"
  using response_reader.rtu_read_response_body [OF assms(1-6), of tid out] assms(7,8)
    body_verdict_two [of "read_pdu_resp checked_read fc lrsp" pdu l h out ec' out' slave]
  by auto

text \<open>A slave that refuses the request with an exception response and a correct checksum is reported
  as success, with the response object unchanged: the exception code is lost.\<close>

lemma rtu_exception_is_success:
  assumes "response_reader fc rsp lrsp" "length (m_messageBuffer st) = 320" "slave \<noteq> 0"
    and "net_read_until net (m_timeoutResponse st) 1 (rtu_next_layer st) = (ec, [slave], n)" "\<not> failed ec"
    and "arrives net (m_timeoutInterCharacter st) n ([f OR 0x80, code] @ [l, h]) n'"
    and "l = lo8 (CRC16 [slave, f OR 0x80, code])" "h = hi8 (CRC16 [slave, f OR 0x80, code])"
  shows "\<exists>st'. rtu_read_response net tid slave fc rsp out st = Return (no_error, out) st'"
proof -
  have "CRC16 ((slave # [f OR 0x80, code]) @ [l, h]) = 0"
    unfolding CRC16_ref crc_ref_append by (simp add: crc_residue assms(7,8) CRC16_ref)
  moreover have "read_pdu_resp checked_read fc lrsp ([f OR 0x80, code] @ [l, h]) out =
      Some (make_error_code (uint code), out, [l, h])"
    by (simp add: read_pdu_resp_forms(3))
  ultimately show ?thesis
    using response_reader.rtu_read_response_body [OF assms(1-6), of tid out]
      body_verdict_two [of "read_pdu_resp checked_read fc lrsp" "[f OR 0x80, code]" l h out]
    by auto
qed

text \<open>A slave that keeps sending, 320 bytes or more behind its address without a gap, makes
  \<^verbatim>\<open>receive_response\<close> write behind the message buffer.\<close>

lemma rtu_flood_overflows:
  assumes "response_reader fc rsp lrsp" "length (m_messageBuffer st) = 320" "slave \<noteq> 0"
    and "net_read_until net (m_timeoutResponse st) 1 (rtu_next_layer st) = (ec, [slave], n)" "\<not> failed ec"
    and "arrives net (m_timeoutInterCharacter st) n bs n'" "320 \<le> length bs"
  shows "rtu_read_response net tid slave fc rsp out st = Undefined"
  using response_reader.rtu_read_response_overflow [OF assms] .

text \<open>Without a byte within the response time-out the call reports a time-out; a first byte that is not
  the expected slave is reported as such at once. In both cases the response object is unchanged.\<close>

lemma rtu_no_answer:
  assumes "length (m_messageBuffer st) = 320" "slave \<noteq> 0"
    and "net_read_until net (m_timeoutResponse st) 1 (rtu_next_layer st) = (ec, bs, n)"
    and "failed ec \<and> bs = [] \<or> failed ec = False \<and> bs = [b] \<and> b \<noteq> slave"
  shows "\<exists>st'. rtu_read_response net tid slave fc rsp out st =
    Return (if bs = [] then timed_out else make_error_code slave_id_invalid, out) st'"
  using assms(4)
proof
  assume silent: "failed ec \<and> bs = []"
  then have "read_byte_with_timeout net (m_timeoutResponse st) (received (m_messageBuffer st) 0 0, rtu_next_layer st) =
      Return 0 (received (m_messageBuffer st) 0 0, n)"
    using read_byte_forms(1) [where mb = "m_messageBuffer st" and e = 0 and k = 0] assms(3) by simp
  then show ?thesis
    using assms(2) silent
    by (simp add: rtu_read_response_def receive_response_def buffer_of_received bind_op_def)
next
  assume other: "failed ec = False \<and> bs = [b] \<and> b \<noteq> slave"
  then have first: "net_read_until net (m_timeoutResponse st) 1 (rtu_next_layer st) = (ec, [b], n)" "\<not> failed ec"
    using assms(3) by auto
  have "receive_response net st slave fc rsp out (buffer_of (m_messageBuffer st), rtu_next_layer st) =
      Return (make_error_code slave_id_invalid, out) (received ((m_messageBuffer st)[0 := b]) 1 1, n)"
    unfolding receive_response_def buffer_of_received using assms(1,2) other
    by (simp add: first_byte [OF first])
  then show ?thesis
    using other by (simp add: rtu_read_response_def)
qed

end
