(* ===== verification/Master_Laws.thy ===== *)
theory Master_Laws
  imports Master Tcp_Server Rtu_Laws
begin

text \<open>
  The interface between the master and its stream as the locales \<open>modbus_stream\<close> and \<open>safe_stream\<close>,
  their interpretations for the TCP and the serial line stream, and what follows for the functions of
  the master: packed coils, calls that stay inside the message buffer, and the values a call returns
  when a server answers.
\<close>

section \<open>Packed coils\<close>

lemma push_coil_bit: "x \<in> {0, 1} \<Longrightarrow> c < 8 \<Longrightarrow> bit (push_bit c x :: u8) i \<longleftrightarrow> i = c \<and> x = 1"
  by (auto simp: bit_simps bit_1_iff)

lemma pack_coils_bit:
  assumes "set coils \<subseteq> {0, 1}" "\<And>j. c \<le> j \<Longrightarrow> \<not> bit pack j" "c + length coils \<le> 8"
  shows "bit (pack_coils c pack coils) i \<longleftrightarrow>
    (if i < c then bit pack i else i < c + length coils \<and> coils ! (i - c) = 1)"
  using assms
proof (induction coils arbitrary: c pack)
  case Nil
  then show ?case by auto
next
  case (Cons x coils)
  have x: "x \<in> {0, 1}" "c < 8"
    using Cons.prems by auto
  have "pack AND push_bit c x = 0"
    by (rule bit_word_eqI) (use Cons.prems(2) push_coil_bit [OF x] in \<open>auto simp: bit_and_iff\<close>)
  then have sum: "pack + push_bit c x = pack OR push_bit c x"
    by (rule disjunctive_add_eq_or)
  have step: "bit (pack + push_bit c x) j \<longleftrightarrow> bit pack j \<or> j = c \<and> x = 1" for j
    by (simp add: sum bit_or_iff push_coil_bit [OF x])
  have "bit (pack_coils (c + 1) (pack + push_bit c x) coils) i \<longleftrightarrow>
      (if i < c + 1 then bit (pack + push_bit c x) i else i < c + 1 + length coils \<and> coils ! (i - (c + 1)) = 1)"
    using Cons.prems by (intro Cons.IH) (auto simp: step)
  then show ?case
    using Cons.prems(2) [of i] by (auto simp: step nth_Cons' not_less less_Suc_eq)
qed

lemma pack_values_bit:
  assumes "set values \<subseteq> {0, 1}" "i < size'" "j < 8"
  shows "bit (pack_values size' values ! i) j \<longleftrightarrow> i * 8 + j < length values \<and> values ! (i * 8 + j) = 1"
proof -
  let ?coils = "take (min ((i + 1) * 8) (length values) - i * 8) (drop (i * 8) values)"
  have "set ?coils \<subseteq> {0, 1}"
    using assms(1) by (meson order_trans set_drop_subset set_take_subset)
  then have "bit (pack_coils 0 0 ?coils) j \<longleftrightarrow> j < length ?coils \<and> ?coils ! j = 1"
    using pack_coils_bit [of ?coils 0 0 j] by simp
  then show ?thesis
    using assms(2,3) by (auto simp: pack_values_def Let_def)
qed

section \<open>The interface of a stream\<close>

text \<open>An operation is well behaved when it returns or throws an error and keeps the stream's
  invariant.\<close>

fun well_behaved :: "('st \<Rightarrow> bool) \<Rightarrow> ('st, 'a) result \<Rightarrow> bool" where
  "well_behaved ok (Return x st) \<longleftrightarrow> ok st"
| "well_behaved ok (Throw ec st) \<longleftrightarrow> failed ec \<and> ok st"
| "well_behaved ok Assert_failed \<longleftrightarrow> False"
| "well_behaved ok Undefined \<longleftrightarrow> False"

lemma well_behaved_bind:
  "well_behaved ok (m st) \<Longrightarrow> (\<And>x st'. m st = Return x st' \<Longrightarrow> ok st' \<Longrightarrow> well_behaved ok (f x st')) \<Longrightarrow>
   well_behaved ok (bind_op m f st)"
  by (cases "m st") (auto simp: bind_op_def)

locale modbus_stream =
  fixes wr :: "'st write_request_op"
    and rr :: "('st, 'v) read_response_op"
    and ok :: "'st \<Rightarrow> bool"
    and room :: nat
  assumes wr_fits: "ok st \<Longrightarrow> length pdu \<le> room \<Longrightarrow> well_behaved ok (wr slave (put_all buffer_put pdu) st)"
    and wr_overflow: "ok st \<Longrightarrow> room < length pdu \<Longrightarrow> wr slave (put_all buffer_put pdu) st = Undefined"
    and rr_broadcast: "ok st \<Longrightarrow> \<exists>ec. \<not> failed ec \<and> rr tid 0 fc rsp v st = Return (ec, v) st"
begin

text \<open>A request to all slaves is sent and nothing is waited for.\<close>

lemma broadcast:
  assumes "ok st" "wr 0 (put_all buffer_put pdu) st = Return tid st'" "length pdu \<le> room"
  shows "\<exists>ec. \<not> failed ec \<and>
    bind_op (wr 0 (put_all buffer_put pdu)) (\<lambda>tid. bind_op (rr tid 0 fc rsp v) f) st = f (ec, v) st'"
proof -
  have "ok st'"
    using wr_fits [OF assms(1,3), of 0] assms(2) by simp
  then obtain ec where "\<not> failed ec" "rr tid 0 fc rsp v st' = Return (ec, v) st'"
    using rr_broadcast by blast
  then show ?thesis
    using assms(2) by (auto simp: bind_op_def)
qed

end

locale safe_stream = modbus_stream +
  assumes rr_safe: "response_reader fc rsp lrsp \<Longrightarrow> ok st \<Longrightarrow> well_behaved ok (rr tid slave fc rsp v st)"
begin

lemma exchange:
  assumes "ok st" "length pdu \<le> room" "response_reader fc rsp lrsp"
    and "\<And>x st'. ok st' \<Longrightarrow> well_behaved ok (f x st')"
  shows "well_behaved ok (bind_op (wr slave (put_all buffer_put pdu)) (\<lambda>tid. bind_op (rr tid slave fc rsp v) f) st)"
  using assms by (intro well_behaved_bind wr_fits rr_safe [where lrsp = lrsp]) auto

end

section \<open>The two streams\<close>

text \<open>The invariant of the TCP stream includes what it relies on of its network layer.\<close>

definition tcp_ok :: "'n network \<Rightarrow> 'n tcp_stream \<Rightarrow> bool" where
  "tcp_ok net st \<longleftrightarrow> asio_contract net \<and> length (m_message_buffer st) = 320"

definition rtu_ok :: "'n rtu_stream \<Rightarrow> bool" where
  "rtu_ok st \<longleftrightarrow> length (m_messageBuffer st) = 320"

lemma streams_ok_ctor: "tcp_ok net (tcp_stream_ctor n) \<longleftrightarrow> asio_contract net" "rtu_ok (rtu_stream_ctor n)"
  by (simp_all add: tcp_ok_def tcp_stream_ctor_def rtu_ok_def rtu_stream_ctor_def)

interpretation over_tcp: safe_stream "tcp_write_request net"
    "tcp_read_response net :: ('n tcp_stream, 'v) read_response_op" "tcp_ok net" 313
  for net :: "'n network"
proof
  fix st :: "'n tcp_stream" and pdu slave
  assume "tcp_ok net st"
  then show "length pdu \<le> 313 \<Longrightarrow> well_behaved (tcp_ok net) (tcp_write_request net slave (put_all buffer_put pdu) st)"
    and "313 < length pdu \<Longrightarrow> tcp_write_request net slave (put_all buffer_put pdu) st = Undefined"
    by (auto simp: tcp_write_request_form tcp_ok_def Let_def split: prod.splits)
next
  fix st :: "'n tcp_stream" and tid fc rsp and v :: 'v
  show "\<exists>ec. \<not> failed ec \<and> tcp_read_response net tid 0 fc rsp v st = Return (ec, v) st"
    by (simp add: tcp_read_response_def)
next
  fix st :: "'n tcp_stream" and tid slave fc rsp and v :: 'v
    and lrsp :: "u8 list read8 \<Rightarrow> u8 list \<Rightarrow> 'v \<Rightarrow> (u8 list, 'v) read_result"
  assume "response_reader fc rsp lrsp" "tcp_ok net st"
  then show "well_behaved (tcp_ok net) (tcp_read_response net tid slave fc rsp v st)"
    using response_reader.tcp_read_response_safe [of fc rsp lrsp net st tid slave v]
    by (auto simp: tcp_ok_def)
qed

interpretation over_rtu: modbus_stream "rtu_write_request net"
    "rtu_read_response net :: ('n rtu_stream, 'v) read_response_op" rtu_ok 317
  for net :: "'n network"
proof
  fix st :: "'n rtu_stream" and pdu slave
  assume "rtu_ok st"
  then show "length pdu \<le> 317 \<Longrightarrow> well_behaved rtu_ok (rtu_write_request net slave (put_all buffer_put pdu) st)"
    and "317 < length pdu \<Longrightarrow> rtu_write_request net slave (put_all buffer_put pdu) st = Undefined"
    by (auto simp: rtu_write_request_form rtu_ok_def Let_def split: prod.splits)
next
  fix st :: "'n rtu_stream" and tid fc rsp and v :: 'v
  show "\<exists>ec. \<not> failed ec \<and> rtu_read_response net tid 0 fc rsp v st = Return (ec, v) st"
    by (simp add: rtu_read_response_def receive_response_def buffer_of_def)
qed

section \<open>A call and its answer over TCP\<close>

text \<open>The stream after a request with PDU \<open>req\<close> was sent and a response with PDU \<open>pdu\<close> received.\<close>

definition tcp_after :: "'n tcp_stream \<Rightarrow> u8 \<Rightarrow> u8 list \<Rightarrow> u8 list \<Rightarrow> 'n \<Rightarrow> 'n tcp_stream" where
  "tcp_after st slave req pdu n =
     st\<lparr>m_message_buffer := overwrite 0 (mbap_frame (m_transaction_id st) (m_protocol st) slave pdu)
            (overwrite 0 (mbap_frame (m_transaction_id st) (m_protocol st) slave req) (m_message_buffer st)),
        m_next_layer := n, m_transaction_id := m_transaction_id st + 1\<rparr>"

text \<open>A peer answers the request frame with the response frame.\<close>

definition answers :: "'n network \<Rightarrow> 'n tcp_stream \<Rightarrow> u8 \<Rightarrow> u8 list \<Rightarrow> u8 list \<Rightarrow> 'n \<Rightarrow> bool" where
  "answers net st slave req pdu n' \<longleftrightarrow>
     (case net_write net (mbap_frame (m_transaction_id st) (m_protocol st) slave req) (m_next_layer st) of
        (ec, n) \<Rightarrow> \<not> failed ec \<and>
          receives_frame net n (mbap_frame (m_transaction_id st) (m_protocol st) slave pdu) n')"

context response_reader
begin

lemma tcp_call:
  assumes "tcp_ok net st" "slave \<noteq> 0" "length req \<le> 313" "answers net st slave req pdu n'"
    "1 \<le> length pdu" "length pdu \<le> 248" "read_resp pdu v = Some (ec, v', rest)"
  shows "bind_op (tcp_write_request net slave (put_all buffer_put req))
      (\<lambda>tid. bind_op (tcp_read_response net tid slave fc rsp v) f) st =
    f (if failed ec then ec else make_error_code success, v') (tcp_after st slave req pdu n')"
proof -
  let ?frame = "mbap_frame (m_transaction_id st) (m_protocol st) slave req"
  obtain ec0 n where w: "net_write net ?frame (m_next_layer st) = (ec0, n)" "\<not> failed ec0"
    "receives_frame net n (mbap_frame (m_transaction_id st) (m_protocol st) slave pdu) n'"
    using assms(4) by (auto simp: answers_def split: prod.splits)
  let ?st = "st\<lparr>m_message_buffer := overwrite 0 ?frame (m_message_buffer st), m_next_layer := n,
      m_transaction_id := m_transaction_id st + 1\<rparr>"
  have fits: "length (m_message_buffer st) = 320" "asio_contract net"
    using assms(1) by (simp_all add: tcp_ok_def)
  have "tcp_write_request net slave (put_all buffer_put req) st = Return (m_transaction_id st) ?st"
    using assms(3) w fits by (simp add: tcp_write_request_form Let_def)
  moreover have "length (m_message_buffer ?st) = 320"
    using assms(3) fits by simp
  moreover have "tcp_response_spec net (m_transaction_id st) slave read_resp v ?st =
      Return (if failed ec then ec else make_error_code success, v') (tcp_after st slave req pdu n')"
    using tcp_response_of_frame [of net ?st "m_transaction_id st" slave pdu n' read_resp v ec v' rest] w assms
    by (simp add: tcp_after_def)
  ultimately show ?thesis
    using fits(2) by (simp add: bind_op_def tcp_read_response_refines)
qed

end

text \<open>The classes that carry values read alike, whatever their function code.\<close>

lemma values_reader:
  "fc AND 0x80 = 0 \<Longrightarrow> response_reader fc read_coils_pdu_resp_read read_coils_pdu_resp_read"
  using coils_resp.response_reader_axioms by (simp add: response_reader_def)

lemma values_response:
  assumes "fc AND 0x80 = 0" "length vals \<le> 255" "length out = length vals"
  shows "read_pdu_resp checked_read fc read_coils_pdu_resp_read (fc # of_nat (length vals) # vals)
      (read_coils_pdu_resp_ctor (whole_span out)) =
    Some (no_error, \<lparr>byte_count = of_nat (length vals),
      resp_values = \<lparr>span_array = vals, span_size = length vals\<rparr>\<rparr>, [])"
  using assms by (simp add: read_pdu_resp_forms values_ctor_over values_read_ok)

text \<open>The tail the four reading functions share, on a response that fills the caller's array.\<close>

lemma tcp_values_call:
  assumes "tcp_ok net st" "slave \<noteq> 0" "length req \<le> 313" "fc AND 0x80 = 0"
    and "length vals \<le> 246" "length out = length vals"
    and "answers net st slave req (fc # of_nat (length vals) # vals) n'"
  shows "bind_op (tcp_write_request net slave (put_all buffer_put req)) (\<lambda>tid.
      bind_op (tcp_read_response net tid slave fc read_coils_pdu_resp_read (read_coils_pdu_resp_ctor (whole_span out)))
        (\<lambda>(ec, resp).
          let out' = span_array (resp_values resp) in
          if failed ec then return_op (ec, out')
          else if unat (byte_count resp) \<noteq> length out then return_op (make_error_code invalid_response, out')
          else return_op (no_error, out'))) st =
    Return (no_error, vals) (tcp_after st slave req (fc # of_nat (length vals) # vals) n')"
  using assms
  by (subst response_reader.tcp_call [OF values_reader])
    (auto simp: values_response Let_def)

lemmas values_forms = values_reads_eq values_ctors_eq Let_def write_forms encodings

lemma tcp_read_registers:
  assumes "tcp_ok net st" "slave \<noteq> 0" "length vals \<le> 246" "length out = length vals"
    and "answers net st slave
      [fc_read_holding_registers, hi8 address, lo8 address, hi8 (of_nat (length out div 2)), lo8 (of_nat (length out div 2))]
      (fc_read_holding_registers # of_nat (length vals) # vals) n'"
  shows "\<exists>st'. read_registers (tcp_write_request net) (tcp_read_response net) slave address out st =
    Return (no_error, vals) st' \<and> m_next_layer st' = n'"
  using tcp_values_call [OF assms(1,2) _ _ assms(3-5)]
  by (simp add: read_registers_def values_forms read_holding_pdu_req_init_def tcp_after_def)

text \<open>The same call when the server answers with an exception.\<close>

lemma exception_pdu_read:
  "fc AND 0x80 = 0 \<Longrightarrow> read_pdu_resp checked_read fc rsp [fc OR 0x80, c] v = Some (make_error_code (uint c), v, [])"
  by (simp add: read_pdu_resp_def read_modbus_exception_code_def checked_end_def bit.conj_disj_distrib2)

lemma tcp_read_registers_exception:
  assumes "tcp_ok net st" "slave \<noteq> 0"
    and "answers net st slave
      [fc_read_holding_registers, hi8 address, lo8 address, hi8 (of_nat (length out div 2)), lo8 (of_nat (length out div 2))]
      [fc_read_holding_registers OR 0x80, c] n'"
    and "c \<noteq> 0"
  shows "failed (make_error_code (uint c)) \<and>
    (\<exists>st'. read_registers (tcp_write_request net) (tcp_read_response net) slave address out st =
      Return (make_error_code (uint c), out) st' \<and> m_next_layer st' = n')"
proof -
  have "failed (make_error_code (uint c))"
    using assms(4) by (simp add: failed_def make_error_code_def uint_0_iff)
  moreover have fc: "fc_read_holding_registers AND 0x80 = 0"
    by (simp add: protocol_consts)
  ultimately show ?thesis
    by (simp add: read_registers_def values_forms read_holding_pdu_req_init_def tcp_after_def whole_span_def
        read_coils_pdu_resp_ctor_def
        holding_resp.tcp_call [OF assms(1,2) _ assms(3) _ _ exception_pdu_read [OF fc], unfolded values_reads_eq])
qed

text \<open>Facts for evaluating an exchange over the concrete connection.\<close>

lemmas wire_eval = tcp_ok_def answers_def receives_frame_def tcp_stream_ctor_def mbap_frame_def wire_read_def
  hi8_def lo8_def protocol_consts take_bit_eq_mod Let_def

lemma tcp_exchange_safe:
  assumes "response_reader fc rsp lrsp" "tcp_ok net st" "length pdu \<le> 313"
    and "\<And>x st'. tcp_ok net st' \<Longrightarrow> well_behaved (tcp_ok net) (f x st')"
  shows "well_behaved (tcp_ok net) (bind_op (tcp_write_request net slave (put_all buffer_put pdu))
    (\<lambda>tid. bind_op (tcp_read_response net tid slave fc rsp v) f) st)"
  using assms by (intro over_tcp.exchange)

lemma resize_copy_exact: "length src \<le> n \<Longrightarrow> n \<le> length src \<Longrightarrow> resize_copy n src values = Some src"
  by (simp add: resize_copy_def overwrite_def Let_def)

lemma construct_op_simps [simp]:
  "construct_op (Some x) f = f x" "construct_op None f s = Assert_failed"
  by (auto simp: construct_op_def)

text \<open>The calls of the writing functions with the assertions discharged and the request encoded.\<close>

lemma write_single_coil_call:
  "write_single_coil wr rr slave address on =
     bind_op (wr slave (put_all buffer_put [fc_write_single_coil, hi8 address, lo8 address, if on then 0xFF else 0, 0]))
       (\<lambda>tid. bind_op (rr tid slave fc_write_single_coil write_single_coil_pdu_resp_read
         \<lparr>wscr_address = address, wscr_value = if on then 0xFF00 else 0\<rparr>)
       (\<lambda>(ec, resp). if failed ec then return_op ec else return_op no_error))"
proof -
  have "write_single_coil_pdu_req_write buffer_put \<lparr>wsc_address = address, wsc_value = if on then 0xFF00 else 0\<rparr> =
      put_all buffer_put [fc_write_single_coil, hi8 address, lo8 address, if on then 0xFF else 0, 0]"
    unfolding write_single_coil_pdu_req_write_form
    by (rule ext) (simp add: write_single_coil_pdu_req_body_def hi8_def lo8_def take_bit_eq_mod)
  then show ?thesis
    by (cases on) (simp_all add: write_single_coil_def write_single_coil_pdu_req_init_def
        write_single_coil_pdu_resp_ctor_def Let_def)
qed

lemma write_multiple_coils_call:
  assumes "1 \<le> length coils" "length coils \<le> 1968" "count = (length coils - 1) div 8 + 1"
  shows "write_multiple_coils wr rr slave address coils =
     bind_op (wr slave (put_all buffer_put ([fc_write_multiple_coils, hi8 address, lo8 address,
         hi8 (of_nat (length coils)), lo8 (of_nat (length coils)), of_nat count] @ pack_values count coils)))
       (\<lambda>tid. bind_op (rr tid slave fc_write_multiple_coils write_multiple_coils_pdu_resp_read
         \<lparr>wmcr_starting_address = address, wmcr_quantity_of_coils = of_nat (length coils)\<rparr>)
       (\<lambda>(ec, resp). if failed ec then return_op ec else return_op no_error))"
proof -
  have "count < 256"
    using assms by simp
  then have count: "unat (of_nat count :: u8) = count"
    by (rule unat_of_nat_u8)
  have "write_multiple_coils_pdu_resp_ctor address (of_nat (length coils)) =
      Some \<lparr>wmcr_starting_address = address, wmcr_quantity_of_coils = of_nat (length coils)\<rparr>"
    using assms(1,2) by (simp add: write_multiple_coils_pdu_resp_ctor_def word_le_nat_alt)
  moreover have "unat (of_nat (length coils) :: u16) = length coils"
    using assms(2) by simp
  ultimately show ?thesis
    unfolding write_multiple_coils_def using assms(1,2)
    by (simp only: Let_def assms(3) [symmetric] count write_multiple_coils_pdu_req_write_form assert_op_simps
        write_multiple_coils_pdu_req_init_def write_multiple_coils_pdu_req.simps construct_op_simps
        write_multiple_coils_pdu_req_body_def append.simps simp_thms)
qed

lemma write_multiple_registers_call:
  assumes "length regs < 65536"
  shows "write_multiple_registers wr rr slave address regs =
     bind_op (wr slave (put_all buffer_put ([fc_write_multiple_registers, hi8 address, lo8 address,
         hi8 (of_nat (length regs)), lo8 (of_nat (length regs)), of_nat (length regs * 2)] @ be_bytes regs)))
       (\<lambda>tid. construct_op (write_multiple_registers_pdu_resp_ctor address (of_nat (length regs)))
         (\<lambda>resp. bind_op (rr tid slave fc_write_multiple_registers write_multiple_registers_pdu_resp_read resp)
         (\<lambda>(ec, resp). if failed ec then return_op ec else return_op no_error)))"
proof -
  have "unat (of_nat (length regs) :: u16) = length regs"
    using assms by simp
  moreover have "resize_copy (length regs) regs vs = Some regs" for vs
    by (simp add: resize_copy_exact)
  ultimately show ?thesis
    unfolding write_multiple_registers_def
    by (simp only: Let_def write_multiple_registers_pdu_req_write_form option.case
        write_multiple_registers_pdu_req_init_def write_multiple_registers_pdu_req.simps
        write_multiple_registers_pdu_req_body_def append.simps)
qed

lemma be_bytes_append: "be_bytes (xs @ ys) = be_bytes xs @ be_bytes ys"
  by (simp add: be_bytes_def)

lemma be_bytes_zeros: "be_bytes (replicate n 0) = replicate (n * 2) 0"
  by (induction n) (simp_all add: hi8_def lo8_def)

text \<open>The values of a response that may carry fewer values than the caller's array holds.\<close>

lemma partial_values_response:
  assumes "fc AND 0x80 = 0" "length vals \<le> 255" "length vals \<le> length out"
  shows "read_pdu_resp checked_read fc read_coils_pdu_resp_read (fc # of_nat (length vals) # vals)
      (read_coils_pdu_resp_ctor (whole_span out)) =
    Some (no_error, \<lparr>byte_count = of_nat (length vals),
      resp_values = \<lparr>span_array = vals @ drop (length vals) out, span_size = length vals\<rparr>\<rparr>, [])"
  using assms by (simp add: read_pdu_resp_forms values_ctor_over values_read_ok)

lemma read_write_multiple_registers_call:
  assumes "length vals < 65536"
  shows "read_write_multiple_registers wr rr slave address out address' vals =
     bind_op (wr slave (put_all buffer_put
       ([fc_read_write_multiple_registers, hi8 address, lo8 address, hi8 (of_nat (length out)), lo8 (of_nat (length out)),
         hi8 address', lo8 address', hi8 (of_nat (length vals)), lo8 (of_nat (length vals)), of_nat (length vals * 2)]
         @ be_bytes vals)))
       (\<lambda>tid. bind_op (rr tid slave fc_read_write_multiple_registers read_coils_pdu_resp_read
         (read_coils_pdu_resp_ctor (whole_span (replicate (length out * 2) 0))))
       (\<lambda>(ec, resp). if failed ec then return_op (ec, out)
         else bind_op (copy_registers (span_array (resp_values resp)) (length out)) (\<lambda>out. return_op (ec, out))))"
proof -
  have "unat (of_nat (length vals) :: u16) = length vals"
    using assms by simp
  moreover have "resize_copy (length vals) vals vs = Some vals" for vs
    by (simp add: resize_copy_exact)
  ultimately show ?thesis
    unfolding read_write_multiple_registers_def
    by (simp only: Let_def read_write_multiple_registers_pdu_req_write_form option.case
        read_write_multiple_registers_pdu_req_init_def read_write_multiple_registers_pdu_req.simps
        read_write_multiple_registers_pdu_req_body_def append.simps values_reads_eq values_ctors_eq)
qed

section \<open>Properties\<close>

text \<open>C32. \<^verbatim>\<open>write_multiple_coils\<close> over TCP sends the coils packed eight to a byte, the first coil in the
  lowest bit, and reports success when the server echoes address and quantity: bit \<open>j\<close> of byte \<open>i\<close> of
  the values in the request is coil \<open>8 * i + j\<close>, and bits beyond the last coil are zero.\<close>

theorem tcp_write_multiple_coils_packs:
  assumes "tcp_ok net st" "slave \<noteq> 0" "1 \<le> length coils" "length coils \<le> 1968" "set coils \<subseteq> {0, 1}"
    and "count = (length coils - 1) div 8 + 1"
    and "answers net st slave
      ([fc_write_multiple_coils, hi8 address, lo8 address, hi8 (of_nat (length coils)), lo8 (of_nat (length coils)),
        of_nat count] @ pack_values count coils)
      [fc_write_multiple_coils, hi8 address, lo8 address, hi8 (of_nat (length coils)), lo8 (of_nat (length coils))] n'"
  shows "(\<exists>st'. write_multiple_coils (tcp_write_request net) (tcp_read_response net) slave address coils st =
      Return no_error st' \<and> m_next_layer st' = n')
    \<and> length (pack_values count coils) = count
    \<and> (\<forall>i < count. \<forall>j < 8. bit (pack_values count coils ! i) j \<longleftrightarrow>
        i * 8 + j < length coils \<and> coils ! (i * 8 + j) = 1)"
proof -
  have "length (pack_values count coils) = count"
    by (simp add: pack_values_def)
  moreover have "\<exists>st'. write_multiple_coils (tcp_write_request net) (tcp_read_response net) slave address coils st =
      Return no_error st' \<and> m_next_layer st' = n'"
    unfolding write_multiple_coils_call [OF assms(3,4,6)]
    by (subst mcoils_resp.tcp_call [OF assms(1,2) _ assms(7), where ec = no_error and rest = "[]"])
      (use assms(3,4,6) in \<open>simp_all add: pack_values_def read_pdu_resp_forms write_multiple_coils_pdu_resp_read_ok
        tcp_after_def\<close>)
  ultimately show ?thesis
    using pack_values_bit [OF assms(5)] by blast
qed

theorem tcp_write_multiple_coils_packs_witness:
  "\<exists>st'. write_multiple_coils (tcp_write_request wire_net) (tcp_read_response wire_net) 9 0 [1, 0, 1]
      (tcp_stream_ctor \<lparr>incoming = [0, 0, 0, 0, 0, 6, 9, 0x0F, 0, 0, 0, 3], outgoing = []\<rparr>) = Return no_error st' \<and>
    m_next_layer st' = \<lparr>incoming = [], outgoing = [0, 0, 0, 0, 0, 8, 9, 0x0F, 0, 0, 0, 3, 1, 5]\<rparr>"
  using tcp_write_multiple_coils_packs [of wire_net
      "tcp_stream_ctor \<lparr>incoming = [0, 0, 0, 0, 0, 6, 9, 0x0F, 0, 0, 0, 3], outgoing = []\<rparr>" 9 "[1, 0, 1]" 1 0
      "\<lparr>incoming = [], outgoing = [0, 0, 0, 0, 0, 8, 9, 0x0F, 0, 0, 0, 3, 1, 5]\<rparr>"]
  by (simp add: wire_eval pack_values_def)

text \<open>\<^verbatim>\<open>read_write_multiple_registers\<close> over TCP does not compare the number of registers in the response
  with the number asked for: a shorter response is a success, and the registers it does not carry come back
  as zero.\<close>

lemma tcp_read_write_registers_values:
  assumes "tcp_ok net st" "slave \<noteq> 0" "length regs \<le> length out" "length out \<le> 123" "length vals \<le> 121"
    and "answers net st slave
      ([fc_read_write_multiple_registers, hi8 address, lo8 address, hi8 (of_nat (length out)), lo8 (of_nat (length out)),
        hi8 address', lo8 address', hi8 (of_nat (length vals)), lo8 (of_nat (length vals)), of_nat (length vals * 2)]
        @ be_bytes vals)
      (fc_read_write_multiple_registers # of_nat (length (be_bytes regs)) # be_bytes regs) n'"
  shows "\<exists>st'. read_write_multiple_registers (tcp_write_request net) (tcp_read_response net)
      slave address out address' vals st =
    Return (make_error_code success, regs @ replicate (length out - length regs) 0) st' \<and> m_next_layer st' = n'"
proof -
  let ?n = "length out - length regs"
  have read: "read_pdu_resp checked_read fc_read_write_multiple_registers read_coils_pdu_resp_read
      (fc_read_write_multiple_registers # of_nat (length (be_bytes regs)) # be_bytes regs)
      (read_coils_pdu_resp_ctor (whole_span (replicate (length out * 2) 0))) =
    Some (no_error, \<lparr>byte_count = of_nat (length (be_bytes regs)), resp_values =
      \<lparr>span_array = be_bytes regs @ replicate (?n * 2) 0, span_size = length (be_bytes regs)\<rparr>\<rparr>, [])"
    using partial_values_response [of fc_read_write_multiple_registers "be_bytes regs" "replicate (length out * 2) 0"]
      assms(3,4) by (simp add: diff_mult_distrib mult.commute)
  have "be_bytes regs @ replicate (?n * 2) 0 = be_bytes (regs @ replicate ?n 0) @ []"
    by (simp add: be_bytes_append be_bytes_zeros)
  then have "decode_registers (be_bytes regs @ replicate (?n * 2) 0) (length out) = regs @ replicate ?n 0"
    using decode_be_bytes [of "regs @ replicate ?n 0" "[]"] assms(3) by simp
  then show ?thesis
    using assms(3-5)
    by (subst read_write_multiple_registers_call, simp,
        subst response_reader.tcp_call [OF values_reader assms(1,2) _ assms(6) _ _ read])
      (simp_all add: tcp_after_def copy_registers_def bind_op_def)
qed

text \<open>\<^verbatim>\<open>write_multiple_registers\<close> has no limit on the number of registers: 154 or more of them write
  behind the message buffer of a TCP stream before anything is sent, although the response class asserts the
  limit of 123 registers, but only after sending.\<close>

lemma tcp_write_multiple_registers_overflow:
  assumes "tcp_ok net st" "154 \<le> length regs" "length regs < 65536"
  shows "write_multiple_registers (tcp_write_request net) (tcp_read_response net) slave address regs st = Undefined"
  using over_tcp.wr_overflow [OF assms(1), of "[fc_write_multiple_registers, hi8 address, lo8 address,
      hi8 (of_nat (length regs)), lo8 (of_nat (length regs)), of_nat (length regs * 2)] @ be_bytes regs" slave] assms(2)
  by (simp add: write_multiple_registers_call [OF assms(3)] bind_op_def del: put_all.simps)

text \<open>A write addressed to slave 0, the broadcast, succeeds on both streams as soon as the request is
  sent; no response is waited for.\<close>

lemma broadcast_write:
  assumes "tcp_ok net st" "rtu_ok st'"
    and "req = [fc_write_single_coil, hi8 address, lo8 address, if on then 0xFF else 0, 0]"
    and "tcp_write_request net 0 (put_all buffer_put req) st = Return tid st1"
    and "rtu_write_request net 0 (put_all buffer_put req) st' = Return tid' st2"
  shows "write_single_coil (tcp_write_request net) (tcp_read_response net) 0 address on st = Return no_error st1
    \<and> write_single_coil (rtu_write_request net) (rtu_read_response net) 0 address on st' = Return no_error st2"
proof -
  let ?f = "\<lambda>(ec, resp). if failed ec then return_op ec else return_op no_error"
  let ?v = "\<lparr>wscr_address = address, wscr_value = if on then 0xFF00 else 0\<rparr>"
  have "length req \<le> 313" "length req \<le> 317"
    by (simp_all add: assms(3))
  then show ?thesis
    unfolding write_single_coil_call assms(3) [symmetric]
    using over_tcp.broadcast [OF assms(1,4), of fc_write_single_coil write_single_coil_pdu_resp_read ?v ?f]
      over_rtu.broadcast [OF assms(2,5), of fc_write_single_coil write_single_coil_pdu_resp_read ?v ?f]
    by auto
qed

end
