(* ===== verification/Rtu_Master.thy ===== *)
theory Rtu_Master
  imports Master_Laws
begin

text \<open>
  The master over the serial line: waiting for an answer comes to an end, and a frame with its checksum has
  checksum zero.
\<close>

section \<open>The end of the receiving loop\<close>

text \<open>The loop of \<^verbatim>\<open>receive_response\<close> with a bound on its turns.\<close>

fun receive_rest_within :: "nat \<Rightarrow> 'n network \<Rightarrow> nat \<Rightarrow> buffer \<times> 'n \<Rightarrow> (buffer \<times> 'n, unit) result option" where
  "receive_rest_within 0 net timeout st = None"
| "receive_rest_within (Suc k) net timeout st =
     (case read_byte_with_timeout net timeout st of
        Return readSize (source, n) \<Rightarrow>
          if readSize = 0 then Some (Return () (source, n))
          else receive_rest_within k net timeout (buffer_commit readSize source, n)
      | Throw ec st \<Rightarrow> Some (Throw ec st)
      | Assert_failed \<Rightarrow> Some Assert_failed
      | Undefined \<Rightarrow> Some Undefined)"

lemma receive_rest_within_enough:
  "length (message_buffer (fst st)) - output_start (fst st) < k \<Longrightarrow>
   receive_rest_within k net timeout st = Some (receive_rest net timeout st)"
proof (induction k arbitrary: st)
  case 0
  then show ?case by simp
next
  case (Suc k)
  show ?case
  proof (cases "read_byte_with_timeout net timeout st")
    case (Return readSize p)
    obtain source n where p: "p = (source, n)" by (cases p)
    have "receive_rest_within k net timeout (buffer_commit readSize source, n) =
        Some (receive_rest net timeout (buffer_commit readSize source, n))" if "readSize \<noteq> 0"
      using read_byte_progress [OF Return [unfolded p] that] that Suc.prems
      by (intro Suc.IH) (simp add: buffer_commit_def, linarith)
    then show ?thesis
      by (subst receive_rest.simps) (simp add: Return p)
  qed (subst receive_rest.simps, simp)+
qed

text \<open>Every byte that arrives takes a turn, and the silence behind them one more.\<close>

lemma receive_rest_within_arrives:
  assumes "arrives net t n bs n'" "e + length bs \<le> length mb"
  shows "receive_rest_within k net t (received mb e i, n) = None \<longleftrightarrow> k \<le> length bs"
  using assms
proof (induction arbitrary: mb e k)
  case (silence n ec n')
  then show ?case
    by (cases k) (simp_all add: read_byte_forms)
next
  case (byte n ec b n' bs n'')
  then show ?case
    using byte.IH [of "e + 1" "mb[e := b]"]
    by (cases k) (simp_all add: read_byte_forms commit_received [simplified])
qed

lemma receive_rest_outcome: "(\<exists>p. receive_rest net t st = Return () p) \<or> receive_rest net t st = Undefined"
proof (induction net t st rule: receive_rest.induct)
  case (1 net t st)
  show ?case
  proof (cases "read_byte_with_timeout net t st")
    case (Return k p)
    then show ?thesis
      using 1 [OF Return] by (cases p) (subst (1 2) receive_rest.simps, auto)
  qed (auto simp: receive_rest.simps read_byte_with_timeout_def Let_def split: prod.splits option.splits)
qed

text \<open>Operations that return or are undefined.\<close>

definition throws_nothing :: "('s, 'a) operation \<Rightarrow> bool" where
  "throws_nothing m \<longleftrightarrow> (\<forall>s. m s = Undefined \<or> (\<exists>x s'. m s = Return x s'))"

lemma throws_nothing_bind: "throws_nothing m \<Longrightarrow> (\<And>x. throws_nothing (f x)) \<Longrightarrow> throws_nothing (bind_op m f)"
  unfolding throws_nothing_def bind_op_def by (metis result.case(1) result.case(4))

lemma throws_nothing_steps:
  "throws_nothing (return_op x)" "throws_nothing (\<lambda>_. Undefined)"
  "throws_nothing (lift_read rd v)" "throws_nothing (read_byte_with_timeout net t)"
  "throws_nothing (\<lambda>(source, n). Return () (buffer_commit k source, n))" "throws_nothing read_uninitialised"
  by (auto simp: throws_nothing_def lift_read_def read_byte_with_timeout_def read_uninitialised_def bind_op_def Let_def
      split: prod.splits option.splits)

lemma throws_nothing_rest: "throws_nothing (receive_rest net t)"
  unfolding throws_nothing_def using receive_rest_outcome [of net t] by auto

lemma throws_nothing_crc: "throws_nothing (check_crc out)"
  unfolding throws_nothing_def check_crc_def read_uninitialised_def bind_op_def lift_read_def
  by (auto simp: Let_def split: prod.splits option.splits)

lemma receive_response_throws_nothing: "throws_nothing (receive_response net st slave fc rsp out)"
  unfolding receive_response_def
  by (auto intro!: throws_nothing_bind throws_nothing_steps throws_nothing_rest throws_nothing_crc split: option.split)

section \<open>The response frame\<close>

lemma frame_checksum: "CRC16 ((slave # pdu) @ [lo8 (CRC16 (slave # pdu)), hi8 (CRC16 (slave # pdu))]) = 0"
  unfolding CRC16_ref crc_ref_append by (simp add: crc_residue CRC16_ref)

lemma rtu_frame_parts: "rtu_frame slave pdu = slave # pdu @ [lo8 (CRC16 (slave # pdu)), hi8 (CRC16 (slave # pdu))]"
  by (simp add: rtu_frame_def Let_def)

section \<open>Properties\<close>

text \<open>C27. Waiting for an answer on the serial line comes to an end, whatever arrives and however long: the
  receiving loop takes at most one turn per free byte of the message buffer and one more, and a call of
  \<^verbatim>\<open>read_response\<close> returns or is undefined, but throws nothing.\<close>

theorem rtu_receive_terminates:
  "receive_rest_within (Suc (length (message_buffer source) - output_start source)) net timeout (source, n) =
      Some (receive_rest net timeout (source, n))
    \<and> (rtu_read_response net tid slave fc rsp out st = Undefined
       \<or> (\<exists>r st'. rtu_read_response net tid slave fc rsp out st = Return r st'))"
proof
  show "receive_rest_within (Suc (length (message_buffer source) - output_start source)) net timeout (source, n) =
      Some (receive_rest net timeout (source, n))"
    by (rule receive_rest_within_enough) simp
  show "rtu_read_response net tid slave fc rsp out st = Undefined
       \<or> (\<exists>r st'. rtu_read_response net tid slave fc rsp out st = Return r st')"
    using receive_response_throws_nothing [of net st slave fc rsp out, unfolded throws_nothing_def, rule_format,
        of "(buffer_of (m_messageBuffer st), rtu_next_layer st)"]
    by (auto simp: rtu_read_response_def)
qed

end
