(* ===== verification/Master_Spec.thy ===== *)
theory Master_Spec
  imports Rtu_Master
begin

text \<open>
  What the functions of the master make of an answer, whatever it is. \<open>values_answer\<close> and \<open>echo_answer\<close> are
  the specifications: functions from the bytes of the answer to the result, without buffers, cursors and
  streams. Here the decoding of the response classes meets them, and the functions of \<open>Master\<close> are
  brought into one form each for reading and writing.
\<close>

section \<open>Specifications\<close>

text \<open>The answer to a read: error code, number of bytes announced, array of the caller, bytes not read.\<close>

fun values_answer :: "function_code \<Rightarrow> u8 list \<Rightarrow> u8 list \<Rightarrow> error_code \<times> u8 \<times> u8 list \<times> u8 list" where
  "values_answer fc out [] = (short_read, of_nat (length out), out, [])"
| "values_answer fc out (f # bs) =
     (if f AND 0x80 \<noteq> 0
      then (case bs of
              [] \<Rightarrow> (short_read, of_nat (length out), out, [])
            | c # bs \<Rightarrow> (make_error_code (uint c), of_nat (length out), out, bs))
      else if f \<noteq> fc then (make_error_code invalid_response, of_nat (length out), out, bs)
      else (case bs of
              [] \<Rightarrow> (short_read, of_nat (length out), out, [])
            | n # bs \<Rightarrow>
                if length out < unat n then (make_error_code too_many_bytes_received, n, out, bs)
                else if length bs < unat n then (short_read, n, bs @ drop (length bs) out, [])
                else (no_error, n, take (unat n) bs @ drop (unat n) out, drop (unat n) bs)))"

definition read_result :: "u8 list \<Rightarrow> error_code \<Rightarrow> u8 \<Rightarrow> u8 list \<Rightarrow> error_code \<times> u8 list" where
  "read_result out ec n array =
     (if failed ec then (ec, array)
      else if unat n \<noteq> length out then (make_error_code invalid_response, array)
      else (no_error, array))"

text \<open>The answer to a write: error code and bytes not read. The address and the value or quantity of the
  answer are decoded and dropped, except that single values have to be the ones of a coil.\<close>

fun echo_answer :: "function_code \<Rightarrow> bool \<Rightarrow> u8 list \<Rightarrow> error_code \<times> u8 list" where
  "echo_answer fc single [] = (short_read, [])"
| "echo_answer fc single (f # bs) =
     (if f AND 0x80 \<noteq> 0
      then (case bs of
              [] \<Rightarrow> (short_read, [])
            | c # bs \<Rightarrow> (make_error_code (uint c), bs))
      else if f \<noteq> fc then (make_error_code invalid_response, bs)
      else (case bs of
              a # b # c # d # bs \<Rightarrow>
                (if single \<and> be16 c d \<noteq> 0x0000 \<and> be16 c d \<noteq> 0xFF00 then make_error_code illegal_data_value
                 else no_error, bs)
            | _ \<Rightarrow> (short_read, [])))"

definition write_result :: "error_code \<Rightarrow> error_code" where
  "write_result ec = (if failed ec then ec else no_error)"

section \<open>Decoding meets the specifications\<close>

lemma values_answer_read:
  assumes "fc AND 0x80 = 0"
  shows "\<exists>resp. read_pdu_resp checked_read fc read_coils_pdu_resp_read bs (read_coils_pdu_resp_ctor (whole_span out)) =
      Some (fst (values_answer fc out bs), resp, snd (snd (snd (values_answer fc out bs)))) \<and>
    byte_count resp = fst (snd (values_answer fc out bs)) \<and>
    span_array (resp_values resp) = fst (snd (snd (values_answer fc out bs)))"
proof (cases bs)
  case Nil
  then show ?thesis
    by (simp add: read_pdu_resp_forms values_ctor_over) (simp add: whole_span_def)
next
  case (Cons f bs')
  consider "f AND 0x80 \<noteq> 0" | "f AND 0x80 = 0" "f \<noteq> fc" | "f = fc"
    by blast
  then show ?thesis
  proof cases
    case 1
    then show ?thesis
      by (cases bs') (simp_all add: Cons read_pdu_resp_forms values_ctor_over, simp_all add: whole_span_def)
  next
    case 2
    then show ?thesis
      by (simp add: Cons read_pdu_resp_forms values_ctor_over) (simp add: whole_span_def)
  next
    case 3
    show ?thesis
    proof (cases bs')
      case Nil
      then show ?thesis
        using assms 3 by (simp add: Cons read_pdu_resp_forms values_read_nothing values_ctor_over) (simp add: whole_span_def)
    next
      case (Cons n bs'')
      then show ?thesis
        using assms 3 \<open>bs = f # bs'\<close>
        by (cases "length out < unat n"; cases "length bs'' < unat n")
          (simp_all add: read_pdu_resp_forms values_ctor_over values_read_too_many values_read_short values_read_ok,
           simp_all add: whole_span_def)
    qed
  qed
qed

text \<open>The four response classes of the writing functions, by what they do with the first four bytes.\<close>

lemma echo_answer_read:
  assumes "fc AND 0x80 = 0"
    and ok: "\<And>a b c d bs. \<exists>resp'. lrsp checked_read (a # b # c # d # bs) resp =
      Some (if single \<and> be16 c d \<noteq> 0x0000 \<and> be16 c d \<noteq> 0xFF00 then make_error_code illegal_data_value else no_error, resp', bs)"
    and short: "\<And>bs. length bs < 4 \<Longrightarrow> \<exists>resp'. lrsp checked_read bs resp = Some (short_read, resp', [])"
  shows "\<exists>resp'. read_pdu_resp checked_read fc lrsp bs resp =
    Some (fst (echo_answer fc single bs), resp', snd (echo_answer fc single bs))"
proof (cases bs)
  case Nil
  then show ?thesis by (simp add: read_pdu_resp_forms)
next
  case (Cons f bs')
  consider "f AND 0x80 \<noteq> 0" | "f AND 0x80 = 0" "f \<noteq> fc" | "f = fc" "length bs' < 4" | "f = fc" "4 \<le> length bs'"
    by linarith
  then show ?thesis
  proof cases
    case 1
    then show ?thesis
      by (cases bs') (simp_all add: Cons read_pdu_resp_forms)
  next
    case 2
    then show ?thesis
      by (simp add: Cons read_pdu_resp_forms)
  next
    case 3
    then have "echo_answer fc single bs = (short_read, [])"
      using assms(1) by (auto simp: Cons split: list.splits)
    then show ?thesis
      using short [OF 3(2)] 3(1) assms(1) by (simp add: Cons read_pdu_resp_forms)
  next
    case 4
    then obtain a b c d bs'' where bs': "bs' = a # b # c # d # bs''"
      by (auto simp: numeral_eq_Suc Suc_le_length_iff)
    then show ?thesis
      using ok [of a b c d bs''] 4(1) assms(1) by (auto simp: Cons bs' read_pdu_resp_forms)
  qed
qed

section \<open>The reading functions\<close>

datatype reading =
    Read_coils u16 u16
  | Read_discrete_inputs u16 u16
  | Read_registers u16
  | Read_input_registers u16

fun run_reading ::
    "'st write_request_op \<Rightarrow> ('st, values_pdu_resp) read_response_op \<Rightarrow>
     u8 \<Rightarrow> reading \<Rightarrow> u8 list \<Rightarrow> ('st, error_code \<times> u8 list) operation" where
  "run_reading wr rr slave (Read_coils address quantity) out = read_coils wr rr slave address quantity out"
| "run_reading wr rr slave (Read_discrete_inputs address quantity) out = read_discrete_inputs wr rr slave address quantity out"
| "run_reading wr rr slave (Read_registers address) out = read_registers wr rr slave address out"
| "run_reading wr rr slave (Read_input_registers address) out = read_input_registers wr rr slave address out"

fun reading_fc :: "reading \<Rightarrow> function_code" where
  "reading_fc (Read_coils address quantity) = fc_read_coils"
| "reading_fc (Read_discrete_inputs address quantity) = fc_read_discrete_inputs"
| "reading_fc (Read_registers address) = fc_read_holding_registers"
| "reading_fc (Read_input_registers address) = fc_read_input_registers"

fun reading_range :: "reading \<Rightarrow> u8 list \<Rightarrow> u16 \<times> u16" where
  "reading_range (Read_coils address quantity) out = (address, quantity)"
| "reading_range (Read_discrete_inputs address quantity) out = (address, quantity)"
| "reading_range (Read_registers address) out = (address, of_nat (length out div 2))"
| "reading_range (Read_input_registers address) out = (address, of_nat (length out div 2))"

definition reading_request :: "reading \<Rightarrow> u8 list \<Rightarrow> u8 list" where
  "reading_request c out =
     (case reading_range c out of (address, quantity) \<Rightarrow>
        [reading_fc c, hi8 address, lo8 address, hi8 quantity, lo8 quantity])"

text \<open>The arguments the assertions and the comments of \<^verbatim>\<open>master.h\<close> allow.\<close>

fun reading_documented :: "reading \<Rightarrow> u8 list \<Rightarrow> bool" where
  "reading_documented (Read_coils address quantity) out \<longleftrightarrow>
     1 \<le> quantity \<and> quantity \<le> 2000 \<and> (unat quantity - 1) div 8 + 1 \<le> length out"
| "reading_documented (Read_discrete_inputs address quantity) out \<longleftrightarrow>
     1 \<le> quantity \<and> quantity \<le> 2000 \<and> (unat quantity - 1) div 8 + 1 \<le> length out"
| "reading_documented _ out \<longleftrightarrow> True"

text \<open>The result of a reading function for an answer on which the stream has a verdict.\<close>

definition reading_outcome ::
    "(u8 list \<Rightarrow> error_code \<Rightarrow> u8 list \<Rightarrow> error_code option) \<Rightarrow> reading \<Rightarrow> u8 list \<Rightarrow> u8 list \<Rightarrow> (error_code \<times> u8 list) option" where
  "reading_outcome verdict c out bs =
     (case values_answer (reading_fc c) out bs of (ec, n, array, rest) \<Rightarrow>
        map_option (\<lambda>ec. read_result out ec n array) (verdict bs ec rest))"

text \<open>All four have the same tail.\<close>

lemma run_reading_call:
  assumes "reading_documented c out"
  shows "run_reading wr rr slave c out =
    bind_op (wr slave (put_all buffer_put (reading_request c out))) (\<lambda>tid.
      bind_op (rr tid slave (reading_fc c) read_coils_pdu_resp_read (read_coils_pdu_resp_ctor (whole_span out)))
        (\<lambda>(ec, resp).
          let out' = span_array (resp_values resp) in
          if failed ec then return_op (ec, out')
          else if unat (byte_count resp) \<noteq> length out then return_op (make_error_code invalid_response, out')
          else return_op (no_error, out')))"
  using assms
  by (cases c) (simp_all add: reading_request_def read_coils_def read_discrete_inputs_def read_registers_def
      read_input_registers_def values_forms read_coils_pdu_req_init_def read_discrete_inputs_pdu_req_init_def
      read_holding_pdu_req_init_def read_input_pdu_req_init_def)

lemma reading_request_length [simp]: "length (reading_request c out) = 5"
  by (simp add: reading_request_def split: prod.split)

lemma reading_fc_normal [simp]: "reading_fc c AND 0x80 = 0"
  by (cases c) simp_all

section \<open>The writing functions\<close>

datatype writing =
    Write_single_coil u16 bool
  | Write_multiple_coils u16 "u8 list"
  | Write_single_register u16 u16
  | Write_multiple_registers u16 "u16 list"

text \<open>The response classes of the writing functions are four types, so the functions are put together for
  each stream.\<close>

fun tcp_writing :: "'n network \<Rightarrow> u8 \<Rightarrow> writing \<Rightarrow> ('n tcp_stream, error_code) operation" where
  "tcp_writing net slave (Write_single_coil address on) =
     write_single_coil (tcp_write_request net) (tcp_read_response net) slave address on"
| "tcp_writing net slave (Write_multiple_coils address coils) =
     write_multiple_coils (tcp_write_request net) (tcp_read_response net) slave address coils"
| "tcp_writing net slave (Write_single_register address value) =
     write_single_register (tcp_write_request net) (tcp_read_response net) slave address value"
| "tcp_writing net slave (Write_multiple_registers address regs) =
     write_multiple_registers (tcp_write_request net) (tcp_read_response net) slave address regs"

fun rtu_writing :: "'n network \<Rightarrow> u8 \<Rightarrow> writing \<Rightarrow> ('n rtu_stream, error_code) operation" where
  "rtu_writing net slave (Write_single_coil address on) =
     write_single_coil (rtu_write_request net) (rtu_read_response net) slave address on"
| "rtu_writing net slave (Write_multiple_coils address coils) =
     write_multiple_coils (rtu_write_request net) (rtu_read_response net) slave address coils"
| "rtu_writing net slave (Write_single_register address value) =
     write_single_register (rtu_write_request net) (rtu_read_response net) slave address value"
| "rtu_writing net slave (Write_multiple_registers address regs) =
     write_multiple_registers (rtu_write_request net) (rtu_read_response net) slave address regs"

fun writing_fc :: "writing \<Rightarrow> function_code" where
  "writing_fc (Write_single_coil address on) = fc_write_single_coil"
| "writing_fc (Write_multiple_coils address coils) = fc_write_multiple_coils"
| "writing_fc (Write_single_register address value) = fc_write_single_register"
| "writing_fc (Write_multiple_registers address regs) = fc_write_multiple_registers"

fun writing_single :: "writing \<Rightarrow> bool" where
  "writing_single (Write_single_coil address on) = True"
| "writing_single (Write_single_register address value) = True"
| "writing_single _ = False"

fun writing_request :: "writing \<Rightarrow> u8 list" where
  "writing_request (Write_single_coil address on) =
     [fc_write_single_coil, hi8 address, lo8 address, if on then 0xFF else 0, 0]"
| "writing_request (Write_multiple_coils address coils) =
     (let count = (length coils - 1) div 8 + 1 in
      [fc_write_multiple_coils, hi8 address, lo8 address, hi8 (of_nat (length coils)), lo8 (of_nat (length coils)),
       of_nat count] @ pack_values count coils)"
| "writing_request (Write_single_register address value) =
     [fc_write_single_register, hi8 address, lo8 address, hi8 value, lo8 value]"
| "writing_request (Write_multiple_registers address regs) =
     [fc_write_multiple_registers, hi8 address, lo8 address, hi8 (of_nat (length regs)), lo8 (of_nat (length regs)),
      of_nat (length regs * 2)] @ be_bytes regs"

fun writing_documented :: "writing \<Rightarrow> bool" where
  "writing_documented (Write_multiple_coils address coils) \<longleftrightarrow> 1 \<le> length coils \<and> length coils \<le> 1968"
| "writing_documented (Write_multiple_registers address regs) \<longleftrightarrow> 1 \<le> length regs \<and> length regs \<le> 123"
| "writing_documented _ \<longleftrightarrow> True"

definition writing_outcome ::
    "(u8 list \<Rightarrow> error_code \<Rightarrow> u8 list \<Rightarrow> error_code option) \<Rightarrow> writing \<Rightarrow> u8 list \<Rightarrow> error_code option" where
  "writing_outcome verdict c bs =
     (case echo_answer (writing_fc c) (writing_single c) bs of (ec, rest) \<Rightarrow>
        map_option write_result (verdict bs ec rest))"

lemma writing_outcome_eq:
  "writing_outcome verdict c bs =
     map_option write_result (verdict bs (fst (echo_answer (writing_fc c) (writing_single c) bs))
       (snd (echo_answer (writing_fc c) (writing_single c) bs)))"
  by (simp add: writing_outcome_def split: prod.split)

lemma writing_request_length: "writing_documented c \<Longrightarrow> length (writing_request c) \<le> 252"
  by (cases c) (auto simp: Let_def pack_values_def)

lemma write_single_register_call:
  "write_single_register wr rr slave address value =
     bind_op (wr slave (put_all buffer_put [fc_write_single_register, hi8 address, lo8 address, hi8 value, lo8 value]))
       (\<lambda>tid. bind_op (rr tid slave fc_write_single_register write_single_register_pdu_resp_read
         (write_single_register_pdu_resp_ctor address value))
       (\<lambda>(ec, resp). if failed ec then return_op ec else return_op no_error))"
  unfolding write_single_register_def
  by (simp only: Let_def write_single_register_pdu_req_write_form write_single_register_pdu_req_init_def
      write_single_register_pdu_req.simps write_single_register_pdu_req_body_def)

lemma write_multiple_registers_documented:
  assumes "1 \<le> length regs" "length regs \<le> 123"
  shows "write_multiple_registers wr rr slave address regs =
     bind_op (wr slave (put_all buffer_put (writing_request (Write_multiple_registers address regs))))
       (\<lambda>tid. bind_op (rr tid slave fc_write_multiple_registers write_multiple_registers_pdu_resp_read
         \<lparr>wmrr_starting_address = address, wmrr_quantity_of_registers = of_nat (length regs)\<rparr>)
         (\<lambda>(ec, resp). if failed ec then return_op ec else return_op no_error))"
proof -
  have "write_multiple_registers_pdu_resp_ctor address (of_nat (length regs)) =
      Some \<lparr>wmrr_starting_address = address, wmrr_quantity_of_registers = of_nat (length regs)\<rparr>"
    using assms by (simp add: write_multiple_registers_pdu_resp_ctor_def word_le_nat_alt)
  then show ?thesis
    using assms(2) by (simp add: write_multiple_registers_call del: put_all.simps)
qed

lemmas writing_calls = write_single_coil_call write_single_register_call write_multiple_coils_call [OF _ _ refl]
  write_multiple_registers_documented

text \<open>The four response classes decode as the specification says.\<close>

lemmas echoes_read =
  echo_answer_read [of fc_write_single_coil write_single_coil_pdu_resp_read _ True]
  echo_answer_read [of fc_write_single_register write_single_register_pdu_resp_read _ True]
  echo_answer_read [of fc_write_multiple_coils write_multiple_coils_pdu_resp_read _ False]
  echo_answer_read [of fc_write_multiple_registers write_multiple_registers_pdu_resp_read _ False]

lemma echo_reads:
  "\<exists>resp'. read_pdu_resp checked_read fc_write_single_coil write_single_coil_pdu_resp_read bs v1 =
    Some (fst (echo_answer fc_write_single_coil True bs), resp', snd (echo_answer fc_write_single_coil True bs))"
  "\<exists>resp'. read_pdu_resp checked_read fc_write_single_register write_single_register_pdu_resp_read bs v2 =
    Some (fst (echo_answer fc_write_single_register True bs), resp', snd (echo_answer fc_write_single_register True bs))"
  "\<exists>resp'. read_pdu_resp checked_read fc_write_multiple_coils write_multiple_coils_pdu_resp_read bs v3 =
    Some (fst (echo_answer fc_write_multiple_coils False bs), resp', snd (echo_answer fc_write_multiple_coils False bs))"
  "\<exists>resp'. read_pdu_resp checked_read fc_write_multiple_registers write_multiple_registers_pdu_resp_read bs v4 =
    Some (fst (echo_answer fc_write_multiple_registers False bs), resp', snd (echo_answer fc_write_multiple_registers False bs))"
  by (intro echoes_read write_single_coil_pdu_resp_read_short write_single_register_pdu_resp_read_short
      write_multiple_coils_pdu_resp_read_short write_multiple_registers_pdu_resp_read_short fc_not_exception,
      simp_all add: write_single_coil_pdu_resp_read_ok write_single_register_pdu_resp_read_ok
        write_multiple_coils_pdu_resp_read_ok write_multiple_registers_pdu_resp_read_ok)+

text \<open>When a read is a success: the answer fills the array exactly, or it is an exception with the code 0,
  which the library takes for no error.\<close>

lemma values_success_iff:
  assumes "fc AND 0x80 = 0" "values_answer fc out bs = (ec, n, array', rest')" "length out < 256"
  shows "\<not> failed (fst (read_result out ec n array')) \<and> array' = array \<longleftrightarrow>
      (\<exists>rest. bs = fc # of_nat (length out) # array @ rest \<and> length array = length out)
    \<or> (\<exists>f rest. f AND 0x80 \<noteq> 0 \<and> bs = f # 0 # rest \<and> array = out)"
proof (cases bs)
  case Nil
  then show ?thesis
    using assms(2) by (auto simp: read_result_def protocol_consts)
next
  case (Cons f bs')
  consider "f AND 0x80 \<noteq> 0" | "f AND 0x80 = 0" "f \<noteq> fc" | "f = fc"
    by blast
  then show ?thesis
  proof cases
    case 1
    then show ?thesis
      using assms Cons by (cases bs') (auto simp: read_result_def protocol_consts uint_0_iff)
  next
    case 2
    then show ?thesis
      using assms Cons by (auto simp: read_result_def protocol_consts)
  next
    case 3
    show ?thesis
    proof (cases "\<exists>bs''. bs' = of_nat (length out) # bs'' \<and> length out \<le> length bs''")
      case True
      then obtain bs'' where bs': "bs' = of_nat (length out) # bs''" "length out \<le> length bs''"
        by blast
      then have "array' = take (length out) bs''" "\<not> failed (fst (read_result out ec n array'))"
        using assms Cons 3 by (auto simp: read_result_def not_less [symmetric])
      moreover have "(\<exists>rest. bs'' = array @ rest \<and> length array = length out) \<longleftrightarrow> take (length out) bs'' = array"
        using bs'(2) append_take_drop_id [of "length out" bs''] by (auto simp del: append_take_drop_id) metis
      ultimately show ?thesis
        using assms(1) Cons 3 bs' by auto
    next
      case False
      have "failed (fst (read_result out ec n array'))"
      proof (cases bs')
        case Nil
        then show ?thesis
          using assms(1,2) Cons 3 by (auto simp: read_result_def protocol_consts)
      next
        fix m bs''
        assume bs': "bs' = m # bs''"
        have "unat m \<noteq> length out" if "unat m \<le> length bs''"
          using False that bs' by (metis of_nat_unat ucast_id)
        then show ?thesis
          using assms(1,2) Cons 3 bs' by (auto simp: read_result_def protocol_consts split: if_splits)
      qed
      then show ?thesis
        using False assms(1) Cons 3 by auto
    qed
  qed
qed

lemma read_result_array: "read_result out ec n array = (fst (read_result out ec n array), array)"
  by (simp add: read_result_def)

end
