(* ===== verification/Master_Refinement.thy ===== *)
theory Master_Refinement
  imports Master_Spec
begin

text \<open>
  The functions of the master as transactions: what happens between master and network layer in one call,
  and the result that is computed from the bytes of the answer, without message buffers. The locale
  \<open>transacting_stream\<close> is the contract of a stream, interpreted for both streams; it covers every behaviour of
  the network layer within its own contract: refused transfers, answers that are cut short, foreign or
  damaged, and broadcasts.
\<close>

section \<open>Agreement with a specification\<close>

text \<open>An operation on a stream agrees with one on the network layer below it: same outcome, same state of the
  network layer, and the stream stays well formed.\<close>

definition agrees :: "('st \<Rightarrow> bool) \<Rightarrow> ('st \<Rightarrow> 'n) \<Rightarrow> ('st, 'a) result \<Rightarrow> ('n, 'a) result \<Rightarrow> bool" where
  "agrees ok line = rel_result (\<lambda>st n. ok st \<and> line st = n) (=)"

lemma agrees_simps [simp]:
  "agrees ok line (Return x st) r \<longleftrightarrow> r = Return x (line st) \<and> ok st"
  "agrees ok line (Throw ec st) r \<longleftrightarrow> r = Throw ec (line st) \<and> ok st"
  "agrees ok line Assert_failed r \<longleftrightarrow> r = Assert_failed"
  "agrees ok line Undefined r \<longleftrightarrow> r = Undefined"
  by (cases r; auto simp: agrees_def)+

lemma agrees_Return: "agrees ok line m (Return x n) \<longleftrightarrow> (\<exists>st. m = Return x st \<and> ok st \<and> line st = n)"
  by (cases m) auto

lemma agrees_Undefined: "agrees ok line m Undefined \<longleftrightarrow> m = Undefined"
  by (cases m) auto

lemma agrees_weaken: "agrees ok line m r \<Longrightarrow> (\<And>st. ok st \<Longrightarrow> ok' st) \<Longrightarrow> agrees ok' line m r"
  by (cases m) auto

lemma bind_op_assoc: "bind_op (bind_op m f) g = bind_op m (\<lambda>x. bind_op (f x) g)"
  by (rule ext) (simp add: bind_op_def split: result.split)

lemma agrees_tail:
  "agrees ok line (m st) (m' n) \<Longrightarrow> (\<And>x n' st'. m' n = Return x n' \<Longrightarrow> f x st' = Return (g x) st') \<Longrightarrow>
   agrees ok line (bind_op m f st) (bind_op m' (\<lambda>x. return_op (g x)) n)"
  by (cases "m st") (auto simp: bind_op_def)

section \<open>The contract of a stream\<close>

text \<open>A transaction ends without an answer to decode, with an error code, or with the bytes of the answer
  behind the slave address. The answer is decoded, and the stream judges it by the error code and the bytes
  left over; no verdict is undefined behaviour.\<close>

definition optional :: "'a option \<Rightarrow> ('n, 'a) operation" where
  "optional r = (case r of None \<Rightarrow> (\<lambda>_. Undefined) | Some x \<Rightarrow> return_op x)"

lemma optional_simps [simp]: "optional None n = Undefined" "optional (Some x) n = Return x n"
  by (simp_all add: optional_def)

definition decoded ::
    "(u8 list \<Rightarrow> error_code \<Rightarrow> u8 list \<Rightarrow> error_code option) \<Rightarrow> (u8 list \<Rightarrow> 'v \<Rightarrow> (u8 list, 'v) read_result) \<Rightarrow> 'v \<Rightarrow>
     error_code + u8 list \<Rightarrow> ('n, error_code \<times> 'v) operation" where
  "decoded judge rsp v r =
     (case r of
        Inl ec \<Rightarrow> return_op (ec, v)
      | Inr bs \<Rightarrow> optional (do {
          (ec, v', rest) \<leftarrow> rsp bs v;
          ec' \<leftarrow> judge bs ec rest;
          Some (ec', v')
        }))"

text \<open>What holds of the object before and of every object that is decoded holds of the one that is returned.\<close>

lemma decoded_keeps:
  assumes "bind_op m (decoded verdict rsp v) n = Return (ec, v') n'"
    and "Q v" "\<And>bs ec v' rest. rsp bs v = Some (ec, v', rest) \<Longrightarrow> Q v'"
  shows "Q v'"
  using assms by (auto simp: bind_op_def decoded_def optional_def return_op_def bind_eq_Some_conv
      split: result.splits sum.splits option.splits)

locale transacting_stream =
  fixes wr :: "'st write_request_op"
    and rr :: "('st, 'v) read_response_op"
    and ok :: "'st \<Rightarrow> bool"
    and room :: nat
    and line :: "'st \<Rightarrow> 'n"
    and transact :: "'st \<Rightarrow> u8 \<Rightarrow> u8 list \<Rightarrow> ('n, error_code + u8 list) operation"
    and judge :: "u8 \<Rightarrow> u8 list \<Rightarrow> error_code \<Rightarrow> u8 list \<Rightarrow> error_code option"
  assumes exchange: "response_reader fc rsp lrsp \<Longrightarrow> ok st \<Longrightarrow> length req \<le> room \<Longrightarrow>
      agrees ok line (bind_op (wr slave (put_all buffer_put req)) (\<lambda>tid. rr tid slave fc rsp v) st)
        (bind_op (transact st slave req) (decoded (judge slave) (read_pdu_resp checked_read fc lrsp) v) (line st))"
begin

lemma call_agrees:
  assumes "response_reader fc rsp lrsp" "ok st" "length req \<le> room"
    and Q: "Q v" "\<And>bs ec v' rest. read_pdu_resp checked_read fc lrsp bs v = Some (ec, v', rest) \<Longrightarrow> Q v'"
    and f: "\<And>ec v' st'. Q v' \<Longrightarrow> f (ec, v') st' = Return (g (ec, v')) st'"
  shows "agrees ok line (bind_op (wr slave (put_all buffer_put req)) (\<lambda>tid. bind_op (rr tid slave fc rsp v) f) st)
    (bind_op (transact st slave req) (\<lambda>r. bind_op (decoded (judge slave) (read_pdu_resp checked_read fc lrsp) v r)
      (\<lambda>x. return_op (g x))) (line st))"
  unfolding bind_op_assoc [symmetric]
proof (rule agrees_tail, rule exchange [OF assms(1-3)])
  fix x n' st'
  assume "bind_op (transact st slave req) (decoded (judge slave) (read_pdu_resp checked_read fc lrsp) v) (line st) = Return x n'"
  moreover obtain ec v' where x: "x = (ec, v')" by (cases x)
  ultimately have "Q v'" by (auto intro: decoded_keeps [where Q = Q, OF _ Q])
  then show "f x st' = Return (g x) st'" unfolding x by (rule f)
qed

end

section \<open>What a call is to return\<close>

definition reading_spec ::
    "('st \<Rightarrow> u8 \<Rightarrow> u8 list \<Rightarrow> ('n, error_code + u8 list) operation) \<Rightarrow>
     (u8 \<Rightarrow> u8 list \<Rightarrow> error_code \<Rightarrow> u8 list \<Rightarrow> error_code option) \<Rightarrow>
     'st \<Rightarrow> u8 \<Rightarrow> reading \<Rightarrow> u8 list \<Rightarrow> ('n, error_code \<times> u8 list) operation" where
  "reading_spec transact judge st slave c out =
     bind_op (transact st slave (reading_request c out)) (\<lambda>r.
       case r of
         Inl ec \<Rightarrow> return_op (read_result out ec (of_nat (length out)) out)
       | Inr bs \<Rightarrow> optional (reading_outcome (judge slave) c out bs))"

definition writing_spec ::
    "('st \<Rightarrow> u8 \<Rightarrow> u8 list \<Rightarrow> ('n, error_code + u8 list) operation) \<Rightarrow>
     (u8 \<Rightarrow> u8 list \<Rightarrow> error_code \<Rightarrow> u8 list \<Rightarrow> error_code option) \<Rightarrow>
     'st \<Rightarrow> u8 \<Rightarrow> writing \<Rightarrow> ('n, error_code) operation" where
  "writing_spec transact judge st slave c =
     bind_op (transact st slave (writing_request c)) (\<lambda>r.
       case r of
         Inl ec \<Rightarrow> return_op (write_result ec)
       | Inr bs \<Rightarrow> optional (writing_outcome (judge slave) c bs))"

lemma decoded_values:
  assumes "fc AND 0x80 = 0"
  shows "bind_op (decoded verdict (read_pdu_resp checked_read fc read_coils_pdu_resp_read)
      (read_coils_pdu_resp_ctor (whole_span out)) r)
     (\<lambda>x. return_op (case x of (ec, resp) \<Rightarrow> g ec (byte_count resp) (span_array (resp_values resp)))) =
   (case r of
      Inl ec \<Rightarrow> return_op (g ec (of_nat (length out)) out)
    | Inr bs \<Rightarrow> optional (case values_answer fc out bs of (ec, n, array, rest) \<Rightarrow>
        map_option (\<lambda>ec. g ec n array) (verdict bs ec rest)))"
proof (cases r)
  case (Inl ec)
  then show ?thesis
    by (intro ext) (simp add: decoded_def bind_op_def values_ctor_over, simp add: whole_span_def)
next
  case (Inr bs)
  obtain ec n array rest where spec: "values_answer fc out bs = (ec, n, array, rest)"
    by (metis prod_cases4)
  obtain resp where "read_pdu_resp checked_read fc read_coils_pdu_resp_read bs
      (read_coils_pdu_resp_ctor (whole_span out)) = Some (ec, resp, rest)"
      "byte_count resp = n" "span_array (resp_values resp) = array"
    using values_answer_read [OF assms, of bs out] by (auto simp: spec)
  then show ?thesis
    by (intro ext, cases "verdict bs ec rest") (simp_all add: decoded_def spec Inr bind_op_def)
qed

lemma decoded_echo:
  assumes "\<And>bs. \<exists>v'. read_pdu_resp checked_read (writing_fc c) lrsp bs v =
      Some (fst (echo_answer (writing_fc c) (writing_single c) bs), v', snd (echo_answer (writing_fc c) (writing_single c) bs))"
  shows "bind_op (decoded verdict (read_pdu_resp checked_read (writing_fc c) lrsp) v r) (\<lambda>x. return_op (write_result (fst x))) =
    (case r of
       Inl ec \<Rightarrow> return_op (write_result ec)
     | Inr bs \<Rightarrow> optional (writing_outcome verdict c bs))"
proof (cases r)
  case (Inl ec)
  then show ?thesis
    by (simp add: decoded_def bind_op_def fun_eq_iff)
next
  case (Inr bs)
  obtain v' where "read_pdu_resp checked_read (writing_fc c) lrsp bs v =
      Some (fst (echo_answer (writing_fc c) (writing_single c) bs), v', snd (echo_answer (writing_fc c) (writing_single c) bs))"
    using assms by blast
  then show ?thesis
    by (intro ext, cases "verdict bs (fst (echo_answer (writing_fc c) (writing_single c) bs))
        (snd (echo_answer (writing_fc c) (writing_single c) bs))")
      (simp_all add: decoded_def writing_outcome_eq bind_op_def Inr)
qed

lemma values_answer_array: "values_answer fc out bs = (ec, n, array, rest) \<Longrightarrow> length array = length out"
  by (cases "(fc, out, bs)" rule: values_answer.cases) (auto split: if_splits list.splits)

lemma values_answer_length:
  assumes "fc AND 0x80 = 0"
    and "read_pdu_resp checked_read fc read_coils_pdu_resp_read bs (read_coils_pdu_resp_ctor (whole_span out)) =
      Some (ec, resp, rest)"
  shows "length (span_array (resp_values resp)) = length out"
proof -
  obtain ec' n array rest' where spec: "values_answer fc out bs = (ec', n, array, rest')"
    by (metis prod_cases4)
  then show ?thesis
    using values_answer_read [OF assms(1), of bs out] assms(2) values_answer_array [OF spec] by auto
qed

context transacting_stream
begin

lemma writing_agrees:
  assumes "ok st" "length (writing_request c) \<le> room" "response_reader (writing_fc c) rsp lrsp"
    and "\<And>bs. \<exists>v'. read_pdu_resp checked_read (writing_fc c) lrsp bs v =
      Some (fst (echo_answer (writing_fc c) (writing_single c) bs), v', snd (echo_answer (writing_fc c) (writing_single c) bs))"
  shows "agrees ok line (bind_op (wr slave (put_all buffer_put (writing_request c))) (\<lambda>tid.
      bind_op (rr tid slave (writing_fc c) rsp v) (\<lambda>(ec, resp). if failed ec then return_op ec else return_op no_error)) st)
    (writing_spec transact judge st slave c (line st))"
  unfolding writing_spec_def decoded_echo [where verdict = "judge slave", OF assms(4), symmetric]
  by (rule call_agrees [OF assms(3,1,2), where Q = "\<lambda>_. True"]) (auto simp: write_result_def)

end

locale transacting_values = transacting_stream wr rr ok room line transact judge
  for wr :: "'st write_request_op"
    and rr :: "('st, values_pdu_resp) read_response_op"
    and ok :: "'st \<Rightarrow> bool"
    and room :: nat
    and line :: "'st \<Rightarrow> 'n"
    and transact :: "'st \<Rightarrow> u8 \<Rightarrow> u8 list \<Rightarrow> ('n, error_code + u8 list) operation"
    and judge :: "u8 \<Rightarrow> u8 list \<Rightarrow> error_code \<Rightarrow> u8 list \<Rightarrow> error_code option"
begin

text \<open>A call that decodes an answer with values into an array, and computes its result from error code, byte
  count and array.\<close>

lemma values_agrees:
  assumes "ok st" "length req \<le> room" "fc AND 0x80 = 0"
    and f: "\<And>ec resp st'. length (span_array (resp_values resp)) = length out \<Longrightarrow>
      f (ec, resp) st' = Return (g ec (byte_count resp) (span_array (resp_values resp))) st'"
  shows "agrees ok line (bind_op (wr slave (put_all buffer_put req)) (\<lambda>tid. bind_op
      (rr tid slave fc read_coils_pdu_resp_read (read_coils_pdu_resp_ctor (whole_span out))) f) st)
    (bind_op (transact st slave req) (\<lambda>r. case r of
        Inl ec \<Rightarrow> return_op (g ec (of_nat (length out)) out)
      | Inr bs \<Rightarrow> optional (case values_answer fc out bs of (ec, n, array, rest) \<Rightarrow>
          map_option (\<lambda>ec. g ec n array) (judge slave bs ec rest))) (line st))"
  unfolding decoded_values [OF assms(3), symmetric]
proof (rule call_agrees [OF values_reader [OF assms(3)] assms(1,2),
      where Q = "\<lambda>resp. length (span_array (resp_values resp)) = length out"])
  show "length (span_array (resp_values (read_coils_pdu_resp_ctor (whole_span out)))) = length out"
    by (simp add: values_ctor_over) (simp add: whole_span_def)
qed (auto simp: f dest: values_answer_length [OF assms(3)])

lemma reading_agrees:
  assumes "ok st" "5 \<le> room" "reading_documented c out"
  shows "agrees ok line (run_reading wr rr slave c out st) (reading_spec transact judge st slave c out (line st))"
  unfolding run_reading_call [OF assms(3)] reading_spec_def reading_outcome_def using assms(1,2)
  by (intro values_agrees reading_fc_normal) (auto simp: read_result_def Let_def)

end

section \<open>TCP\<close>

definition net_receive :: "'n network \<Rightarrow> nat \<Rightarrow> ('n, u8 list) operation" where
  "net_receive net k n = (case net_read net k n of (ec, bs, n) \<Rightarrow> if failed ec then Throw ec n else Return bs n)"

text \<open>The request frame is sent, the seven bytes of a header are received and checked, and the body the header
  announces is received. A header that is refused ends the transaction with the body still to come.\<close>

definition tcp_transaction ::
    "'n network \<Rightarrow> 'n tcp_stream \<Rightarrow> u8 \<Rightarrow> u8 list \<Rightarrow> ('n, error_code + u8 list) operation" where
  "tcp_transaction net st slave req =
     bind_op (mothbus_write net (mbap_frame (m_transaction_id st) (m_protocol st) slave req)) (\<lambda>_.
     if slave = 0 then return_op (Inl (make_error_code success)) else
     bind_op (net_receive net 7) (\<lambda>header.
     case header_check (m_transaction_id st) (m_protocol st) slave header of
       Inl ec \<Rightarrow> return_op (Inl ec)
     | Inr k \<Rightarrow> bind_op (net_receive net k) (\<lambda>body. return_op (Inr body))))"

definition tcp_verdict :: "u8 list \<Rightarrow> error_code \<Rightarrow> u8 list \<Rightarrow> error_code option" where
  "tcp_verdict bs ec rest = Some (if failed ec then ec else make_error_code success)"

text \<open>Calls keep the protocol identifier of the stream, too.\<close>

definition tcp_at :: "'n network \<Rightarrow> u16 \<Rightarrow> 'n tcp_stream \<Rightarrow> bool" where
  "tcp_at net p st \<longleftrightarrow> tcp_ok net st \<and> m_protocol st = p"

lemma tcp_exchange:
  fixes net :: "'n network" and v :: 'v
  assumes "response_reader fc rsp lrsp" "tcp_at net p st" "length req \<le> 313"
  shows "agrees (tcp_at net p) m_next_layer
    (bind_op (tcp_write_request net slave (put_all buffer_put req)) (\<lambda>tid. tcp_read_response net tid slave fc rsp v) st)
    (bind_op (tcp_transaction net st slave req) (decoded tcp_verdict (read_pdu_resp checked_read fc lrsp) v) (m_next_layer st))"
proof -
  let ?frame = "mbap_frame (m_transaction_id st) (m_protocol st) slave req"
  have st: "asio_contract net" "length (m_message_buffer st) = 320" "m_protocol st = p"
    using assms(2) by (simp_all add: tcp_at_def tcp_ok_def)
  obtain ec0 n0 where w: "net_write net ?frame (m_next_layer st) = (ec0, n0)"
    by (metis surj_pair)
  define st1 where "st1 = st\<lparr>m_message_buffer := overwrite 0 ?frame (m_message_buffer st), m_next_layer := n0,
      m_transaction_id := m_transaction_id st + 1\<rparr>"
  have st1: "length (m_message_buffer st1) = 320" "m_protocol st1 = p" "m_next_layer st1 = n0"
    using st assms(3) by (simp_all add: st1_def)
  show ?thesis
  proof (cases "failed ec0")
    case True
    then show ?thesis
      using st assms(3) w
      by (simp add: bind_op_def tcp_write_request_form Let_def tcp_transaction_def mothbus_write_def tcp_at_def tcp_ok_def)
  next
    case False
    have "tcp_write_request net slave (put_all buffer_put req) st = Return (m_transaction_id st) st1"
      using False st assms(3) w by (simp add: tcp_write_request_form Let_def st1_def)
    then have call: "bind_op (tcp_write_request net slave (put_all buffer_put req))
        (\<lambda>tid. tcp_read_response net tid slave fc rsp v) st =
      tcp_response_spec net (m_transaction_id st) slave (read_pdu_resp checked_read fc lrsp) v st1"
      by (simp add: bind_op_def tcp_read_response_refinement_eq [OF assms(1) st(1) st1(1)])
    obtain ec1 h n1 where h: "net_read net 7 n0 = (ec1, h, n1)"
      by (metis prod_cases3)
    have hl: "length h \<le> 7"
      by (rule asio_read_bound [OF st(1) h])
    have ok: "tcp_at net p (st1\<lparr>m_message_buffer := overwrite 0 bs (m_message_buffer st1), m_next_layer := n\<rparr>)"
      if "length bs \<le> 320" for bs n
      using that st1 st(1) by (simp add: tcp_at_def tcp_ok_def)
    have sent: "bind_op (tcp_transaction net st slave req) g (m_next_layer st) =
        bind_op (if slave = 0 then return_op (Inl (make_error_code success)) else
          bind_op (net_receive net 7) (\<lambda>header.
          case header_check (m_transaction_id st) p slave header of
            Inl ec \<Rightarrow> return_op (Inl ec)
          | Inr k \<Rightarrow> bind_op (net_receive net k) (\<lambda>body. return_op (Inr body)))) g n0"
      for g :: "error_code + u8 list \<Rightarrow> ('n, error_code \<times> 'v) operation"
      using False w by (simp add: tcp_transaction_def mothbus_write_def bind_op_def st(3))
    consider "slave = 0" | "slave \<noteq> 0" "failed ec1"
      | err where "slave \<noteq> 0" "\<not> failed ec1" "header_check (m_transaction_id st) p slave h = Inl err"
      | k where "slave \<noteq> 0" "\<not> failed ec1" "header_check (m_transaction_id st) p slave h = Inr k"
      by (metis sum.exhaust)
    then show ?thesis
    proof cases
      case 1
      then show ?thesis
        unfolding call sent using st1 st(1)
        by (simp add: tcp_response_spec_def bind_op_def decoded_def tcp_at_def tcp_ok_def)
    next
      case 2
      then show ?thesis
        unfolding call sent using h st1 ok [of h n1] hl
        by (simp add: tcp_response_spec_def bind_op_def net_receive_def header_size_def)
    next
      case 3
      then show ?thesis
        unfolding call sent using h st1 ok [of h n1] hl
        by (simp add: tcp_response_spec_def bind_op_def net_receive_def header_size_def decoded_def)
    next
      case 4
      obtain ec2 body n2 where b: "net_read net k n1 = (ec2, body, n2)"
        by (metis prod_cases3)
      have "length (h @ body) \<le> 320"
        using asio_read_bound [OF st(1) b] header_check_bound [OF 4(3)] by simp
      from ok [OF this, of n2] show ?thesis
        unfolding call sent using 4 h b st1
        by (simp add: tcp_response_spec_def bind_op_def net_receive_def header_size_def decoded_def tcp_verdict_def
            split: option.split)
    qed
  qed
qed

interpretation tcp_peer: transacting_stream "tcp_write_request net"
    "tcp_read_response net :: ('n tcp_stream, 'v) read_response_op" "tcp_at net p" 313 m_next_layer
    "tcp_transaction net" "\<lambda>slave. tcp_verdict"
  for net :: "'n network" and p
  by unfold_locales (rule tcp_exchange)

interpretation tcp_values: transacting_values "tcp_write_request net" "tcp_read_response net" "tcp_at net p" 313
    m_next_layer "tcp_transaction net" "\<lambda>slave. tcp_verdict"
  for net :: "'n network" and p ..

section \<open>The serial line\<close>

text \<open>The bytes that arrive one by one until a gap, for which there is room; one more is undefined
  behaviour.\<close>

fun rtu_collect :: "'n network \<Rightarrow> nat \<Rightarrow> nat \<Rightarrow> ('n, u8 list) operation" where
  "rtu_collect net t 0 n =
     (case net_read_until net t 1 n of (ec, bs, n) \<Rightarrow> if bs = [] then Return [] n else Undefined)"
| "rtu_collect net t (Suc room) n =
     (case net_read_until net t 1 n of (ec, bs, n) \<Rightarrow>
        if failed ec then Return [] n
        else bind_op (rtu_collect net t room) (\<lambda>rest. return_op (bs @ rest)) n)"

lemma asio_byte:
  assumes "asio_contract net" "net_read_until net t 1 n = (ec, bs, n')"
  obtains "failed ec" "bs = []" | b where "failed ec" "bs = [b]" | b where "\<not> failed ec" "bs = [b]"
proof -
  have "length bs \<le> 1" "failed ec \<or> length bs = 1"
    using assms unfolding asio_contract_def by (metis (mono_tags, lifting) case_prod_conv)+
  then show ?thesis
    using that by (cases bs) auto
qed

lemma read_byte_failed:
  "net_read_until net t 1 n = (ec, [b], n') \<Longrightarrow> failed ec \<Longrightarrow> e < length mb \<Longrightarrow>
   read_byte_with_timeout net t (received mb e k, n) = Return 0 (received (mb[e := b]) e k, n')"
  by (simp add: read_byte_with_timeout_def store_region_def buffer_prepare_def overwrite_def
      upd_conv_take_nth_drop received_def)

lemma receive_rest_collect:
  assumes "asio_contract net" "e + room = length mb"
  shows "(\<exists>bs n' mb'. rtu_collect net t room n = Return bs n' \<and> length bs \<le> room \<and>
      receive_rest net t (received mb e k, n) = Return () (received mb' (e + length bs) k, n') \<and>
      length mb' = length mb \<and> take (e + length bs) mb' = take e mb @ bs)
    \<or> rtu_collect net t room n = Undefined \<and> receive_rest net t (received mb e k, n) = Undefined"
  using assms(2)
proof (induction room arbitrary: mb e n)
  case 0
  obtain ec bs n' where r: "net_read_until net t 1 n = (ec, bs, n')"
    by (metis prod_cases3)
  from asio_byte [OF assms(1) r] show ?case
  proof cases
    case 1
    then have "receive_rest net t (received mb e k, n) = Return () (received mb e k, n')"
      using 0 r by (subst receive_rest.simps) (simp add: read_byte_forms)
    with 1 r show ?thesis by auto
  next
    case 2
    then have "receive_rest net t (received mb e k, n) = Undefined"
      using 0 r by (subst receive_rest.simps) (simp add: read_byte_forms)
    with 2 r show ?thesis by simp
  next
    case 3
    then have "receive_rest net t (received mb e k, n) = Undefined"
      using 0 r by (subst receive_rest.simps) (simp add: read_byte_forms)
    with 3 r show ?thesis by simp
  qed
next
  case (Suc room)
  obtain ec bs n' where r: "net_read_until net t 1 n = (ec, bs, n')"
    by (metis prod_cases3)
  from asio_byte [OF assms(1) r] show ?case
  proof cases
    case 1
    then have "receive_rest net t (received mb e k, n) = Return () (received mb e k, n')"
      using Suc.prems r by (subst receive_rest.simps) (simp add: read_byte_forms)
    with 1 r show ?thesis by auto
  next
    case (2 b)
    then have "receive_rest net t (received mb e k, n) = Return () (received (mb[e := b]) e k, n')"
      using Suc.prems r by (subst receive_rest.simps) (simp add: read_byte_failed)
    with 2 r show ?thesis by auto
  next
    case (3 b)
    have "e < length mb" using Suc.prems by simp
    then have step: "receive_rest net t (received mb e k, n) = receive_rest net t (received (mb[e := b]) (e + 1) k, n')"
      using 3 r by (subst receive_rest.simps) (simp add: read_byte_forms commit_received [simplified])
    have "take (e + 1) (mb[e := b]) = take e mb @ [b]"
      using \<open>e < length mb\<close> by (simp add: take_Suc_conv_app_nth)
    then show ?thesis
      unfolding step using Suc.IH [of "e + 1" "mb[e := b]" n'] Suc.prems 3 r
      by (auto simp: bind_op_def)
  qed
qed

text \<open>The address of the answer is awaited, and the bytes behind it are collected. A foreign address ends the
  reception with the rest of its frame still to come.\<close>

definition rtu_reception :: "'n network \<Rightarrow> 'n rtu_stream \<Rightarrow> u8 \<Rightarrow> ('n, error_code + u8 list) operation" where
  "rtu_reception net st slave n =
     (if slave = 0 then Return (Inl no_error) n
      else (case net_read_until net (m_timeoutResponse st) 1 n of (ec, bs, n) \<Rightarrow>
        if failed ec then Return (Inl timed_out) n
        else if bs \<noteq> [slave] then Return (Inl (make_error_code slave_id_invalid)) n
        else bind_op (rtu_collect net (m_timeoutInterCharacter st) 319) (\<lambda>bs. return_op (Inr bs)) n))"

text \<open>Before it the request frame is sent; a failure is not noticed.\<close>

definition rtu_transaction ::
    "'n network \<Rightarrow> 'n rtu_stream \<Rightarrow> u8 \<Rightarrow> u8 list \<Rightarrow> ('n, error_code + u8 list) operation" where
  "rtu_transaction net st slave req n = rtu_reception net st slave (snd (net_write net (rtu_frame slave req) n))"

definition rtu_verdict :: "u8 \<Rightarrow> u8 list \<Rightarrow> error_code \<Rightarrow> u8 list \<Rightarrow> error_code option" where
  "rtu_verdict slave bs ec rest =
     (let crc = CRC16 (slave # take (length bs - length rest) bs)
      in case rest of
           [] \<Rightarrow> None
         | [l] \<Rightarrow> if l = lo8 crc then None else Some (make_error_code invalid_response)
         | l # h # _ \<Rightarrow> Some (if l = lo8 crc \<and> h = hi8 crc then no_error else make_error_code invalid_response))"

lemma rtu_verdict_body:
  assumes "rsp bs v = Some (ec, v', rest)"
  shows "rtu_body_verdict slave rsp bs v = map_option (\<lambda>ec. (ec, v')) (rtu_verdict slave bs ec rest)"
  by (cases rest; cases "tl rest") (simp_all add: assms rtu_body_verdict_def rtu_verdict_def Let_def)

definition rtu_at :: "'n network \<Rightarrow> 'n rtu_stream \<Rightarrow> bool" where
  "rtu_at net st \<longleftrightarrow> asio_contract net \<and> rtu_ok st"

lemma rtu_first_refused:
  assumes "net_read_until net (m_timeoutResponse st) 1 (rtu_next_layer st) = (ec, [b], n)" "\<not> failed ec"
    and "rtu_ok st" "slave \<noteq> 0" "b \<noteq> slave"
  shows "rtu_read_response net tid slave fc rsp out st = Return (make_error_code slave_id_invalid, out)
    (st\<lparr>m_messageBuffer := (m_messageBuffer st)[0 := b], rtu_next_layer := n\<rparr>)"
proof -
  have "0 < length (m_messageBuffer st)"
    using assms(3) by (simp add: rtu_ok_def)
  note first = first_byte [OF assms(1,2) this]
  show ?thesis
    unfolding rtu_read_response_def receive_response_def buffer_of_received
    using assms(4,5) by (simp add: first)
qed

lemma rtu_first_failed:
  assumes "asio_contract net" "net_read_until net (m_timeoutResponse st) 1 (rtu_next_layer st) = (ec, bs, n)" "failed ec"
    and "rtu_ok st" "slave \<noteq> 0"
  obtains mb where "length mb = 320"
    "rtu_read_response net tid slave fc rsp out st = Return (timed_out, out) (st\<lparr>m_messageBuffer := mb, rtu_next_layer := n\<rparr>)"
proof -
  have "\<exists>mb. length mb = 320 \<and> read_byte_with_timeout net (m_timeoutResponse st)
      (received (m_messageBuffer st) 0 0, rtu_next_layer st) = Return 0 (received mb 0 0, n)"
  proof (rule asio_byte [OF assms(1,2)])
    assume "bs = []"
    then show ?thesis
      using assms(2-4) by (intro exI [of _ "m_messageBuffer st"]) (simp add: read_byte_forms rtu_ok_def)
  next
    fix b
    assume "bs = [b]"
    then show ?thesis
      using assms(2-4) by (intro exI [of _ "(m_messageBuffer st)[0 := b]"]) (simp add: read_byte_failed rtu_ok_def)
  next
    assume "\<not> failed ec"
    with assms(3) show ?thesis by simp
  qed
  then show ?thesis
    using assms(5)
    by (auto simp: rtu_read_response_def receive_response_def buffer_of_received bind_op_def intro: that)
qed

context response_reader
begin

lemma rtu_read_response_collect:
  assumes net: "asio_contract net" and ok: "rtu_ok st" and slave: "slave \<noteq> 0"
    and first: "net_read_until net (m_timeoutResponse st) 1 (rtu_next_layer st) = (ec, [slave], n)" "\<not> failed ec"
  shows "agrees (rtu_at net) rtu_next_layer (rtu_read_response net tid slave fc rsp v st)
    (bind_op (rtu_collect net (m_timeoutInterCharacter st) 319) (\<lambda>bs. decoded (rtu_verdict slave) read_resp v (Inr bs)) n)"
proof -
  let ?mb = "(m_messageBuffer st)[0 := slave]"
  have mb: "take 1 ?mb = [slave]" "1 + 319 = length ?mb"
    using ok by (cases "m_messageBuffer st", auto simp: rtu_ok_def)
  have start: "receive_response net st slave fc rsp v (buffer_of (m_messageBuffer st), rtu_next_layer st) =
      bind_op (receive_rest net (m_timeoutInterCharacter st)) (\<lambda>_.
        bind_op (lift_read (read_pdu_resp buffer_read fc rsp) v) (\<lambda>(_, out). check_crc out))
      (received ?mb 1 1, n)"
    unfolding receive_response_def buffer_of_received using slave mb(2)
    by (simp add: first_byte [OF first])
  from receive_rest_collect [OF net mb(2), of "m_timeoutInterCharacter st" n 1] show ?thesis
  proof (elim disjE exE conjE)
    fix bs n' mb'
    assume rest: "rtu_collect net (m_timeoutInterCharacter st) 319 n = Return bs n'" "length bs \<le> 319"
      "receive_rest net (m_timeoutInterCharacter st) (received ?mb 1 1, n) = Return () (received mb' (1 + length bs) 1, n')"
      "length mb' = length ?mb" "take (1 + length bs) mb' = take 1 ?mb @ bs"
    have "1 + length bs \<le> length mb'" "take (1 + length bs) mb' = slave # bs"
      using rest(2,4,5) mb by simp_all
    from body_received [OF this(2,1), of v n'] obtain k where
      "bind_op (lift_read (read_pdu_resp buffer_read fc rsp) v) (\<lambda>(_, out). check_crc out)
        (received mb' (1 + length bs) 1, n') =
      (case rtu_body_verdict slave read_resp bs v of
         None \<Rightarrow> Undefined
       | Some r \<Rightarrow> Return r (received mb' (1 + length bs) k, n'))"
      by blast
    then have recv: "receive_response net st slave fc rsp v (buffer_of (m_messageBuffer st), rtu_next_layer st) =
      (case rtu_body_verdict slave read_resp bs v of
         None \<Rightarrow> Undefined
       | Some r \<Rightarrow> Return r (received mb' (1 + length bs) k, n'))"
      unfolding start by (simp only: bind_op_simps(1) [where m = "receive_rest net (m_timeoutInterCharacter st)", OF rest(3)])
    obtain ec v' left where read: "read_resp bs v = Some (ec, v', left)"
      by (rule resp_outcome)
    have "rtu_ok (st\<lparr>m_messageBuffer := mb', rtu_next_layer := n'\<rparr>)"
      using rest(4) mb(2) by (simp add: rtu_ok_def)
    then show ?thesis
      unfolding rtu_read_response_def recv rtu_verdict_body [of read_resp, OF read]
      using net by (simp add: bind_op_def rest(1) decoded_def read rtu_at_def split: option.split)
  next
    assume "rtu_collect net (m_timeoutInterCharacter st) 319 n = Undefined"
      "receive_rest net (m_timeoutInterCharacter st) (received ?mb 1 1, n) = Undefined"
    then show ?thesis
      unfolding rtu_read_response_def start by (simp add: bind_op_def)
  qed
qed

end

lemma rtu_reception_agrees:
  assumes "response_reader fc rsp lrsp" "rtu_at net st"
  shows "agrees (rtu_at net) rtu_next_layer (rtu_read_response net tid slave fc rsp v st)
    (bind_op (rtu_reception net st slave) (decoded (rtu_verdict slave) (read_pdu_resp checked_read fc lrsp) v)
      (rtu_next_layer st))"
proof -
  have st: "asio_contract net" "rtu_ok st"
    using assms(2) by (simp_all add: rtu_at_def)
  obtain ec bs n where first: "net_read_until net (m_timeoutResponse st) 1 (rtu_next_layer st) = (ec, bs, n)"
    by (metis prod_cases3)
  consider "slave = 0" | "slave \<noteq> 0" "failed ec" | b where "slave \<noteq> 0" "\<not> failed ec" "bs = [b]" "b \<noteq> slave"
    | "slave \<noteq> 0" "\<not> failed ec" "bs = [slave]"
    using asio_byte [OF st(1) first] by metis
  then show ?thesis
  proof cases
    case 1
    then show ?thesis
      using st by (simp add: rtu_read_response_def receive_response_def buffer_of_def bind_op_def rtu_reception_def
          decoded_def rtu_at_def rtu_ok_def)
  next
    case 2
    obtain mb where "length mb = 320" "rtu_read_response net tid slave fc rsp v st =
        Return (timed_out, v) (st\<lparr>m_messageBuffer := mb, rtu_next_layer := n\<rparr>)"
      by (rule rtu_first_failed [OF st(1) first 2(2) st(2) 2(1)])
    then show ?thesis
      using st(1) 2 first by (simp add: bind_op_def rtu_reception_def decoded_def rtu_at_def rtu_ok_def)
  next
    case 3
    note refused = rtu_first_refused [OF first [unfolded 3(3)] 3(2) st(2) 3(1,4)]
    show ?thesis
      unfolding refused using st first 3
      by (simp add: bind_op_def rtu_reception_def decoded_def rtu_at_def rtu_ok_def)
  next
    case 4
    have "bind_op (rtu_reception net st slave) (decoded (rtu_verdict slave) (read_pdu_resp checked_read fc lrsp) v)
        (rtu_next_layer st) =
      bind_op (rtu_collect net (m_timeoutInterCharacter st) 319)
        (\<lambda>bs. decoded (rtu_verdict slave) (read_pdu_resp checked_read fc lrsp) v (Inr bs)) n"
      using 4 first by (auto simp: bind_op_def rtu_reception_def split: result.split)
    then show ?thesis
      using response_reader.rtu_read_response_collect [OF assms(1) st 4(1) _ 4(2)] first 4(3) by simp
  qed
qed

lemma rtu_exchange:
  assumes "response_reader fc rsp lrsp" "rtu_at net st" "length req \<le> 317"
  shows "agrees (rtu_at net) rtu_next_layer
    (bind_op (rtu_write_request net slave (put_all buffer_put req)) (\<lambda>tid. rtu_read_response net tid slave fc rsp v) st)
    (bind_op (rtu_transaction net st slave req) (decoded (rtu_verdict slave) (read_pdu_resp checked_read fc lrsp) v)
      (rtu_next_layer st))"
proof -
  let ?st1 = "st\<lparr>m_messageBuffer := overwrite 0 (rtu_frame slave req) (m_messageBuffer st),
      rtu_next_layer := snd (net_write net (rtu_frame slave req) (rtu_next_layer st)),
      rtu_transaction_id := rtu_transaction_id st + 1\<rparr>"
  have "rtu_write_request net slave (put_all buffer_put req) st = Return (rtu_transaction_id st) ?st1"
    using assms(2,3) by (simp add: rtu_at_def rtu_write_request_form rtu_ok_def Let_def)
  moreover have "rtu_at net ?st1"
    using assms(2,3) by (simp add: rtu_at_def rtu_ok_def)
  moreover have same: "rtu_reception net ?st1 slave = rtu_reception net st slave"
    by (rule ext) (simp add: rtu_reception_def split: prod.split)
  ultimately show ?thesis
    using rtu_reception_agrees [OF assms(1), of net ?st1 "rtu_transaction_id st" slave v]
    by (simp add: bind_op_def rtu_transaction_def same)
qed

interpretation rtu_peer: transacting_stream "rtu_write_request net"
    "rtu_read_response net :: ('n rtu_stream, 'v) read_response_op" "rtu_at net" 317 rtu_next_layer
    "rtu_transaction net" rtu_verdict
  for net :: "'n network"
  by unfold_locales (rule rtu_exchange)

interpretation rtu_values: transacting_values "rtu_write_request net" "rtu_read_response net" "rtu_at net" 317
    rtu_next_layer "rtu_transaction net" rtu_verdict
  for net :: "'n network" ..

section \<open>The writing functions\<close>

lemma tcp_writing_agrees:
  assumes "tcp_at net p st" "writing_documented c"
  shows "agrees (tcp_at net p) m_next_layer (tcp_writing net slave c st)
    (writing_spec (tcp_transaction net) (\<lambda>slave. tcp_verdict) st slave c (m_next_layer st))"
proof -
  have "length (writing_request c) \<le> 313"
    using writing_request_length [OF assms(2)] by simp
  note call = tcp_peer.writing_agrees [OF assms(1) this, where slave = slave]
  show ?thesis
  proof (cases c)
    case (Write_single_coil address on)
    show ?thesis
      using call [of write_single_coil_pdu_resp_read] echo_reads(1) coil_resp.response_reader_axioms
      by (simp add: Write_single_coil writing_calls del: put_all.simps)
  next
    case (Write_multiple_coils address coils)
    show ?thesis
      using call [of write_multiple_coils_pdu_resp_read] echo_reads(3) mcoils_resp.response_reader_axioms assms(2)
      by (simp add: Write_multiple_coils writing_calls Let_def del: put_all.simps)
  next
    case (Write_single_register address val)
    show ?thesis
      using call [of write_single_register_pdu_resp_read] echo_reads(2) register_resp.response_reader_axioms
      by (simp add: Write_single_register writing_calls del: put_all.simps)
  next
    case (Write_multiple_registers address regs)
    show ?thesis
      using call [of write_multiple_registers_pdu_resp_read] echo_reads(4) mregisters_resp.response_reader_axioms assms(2)
      by (simp add: Write_multiple_registers writing_calls Let_def del: put_all.simps)
  qed
qed

lemma rtu_writing_agrees:
  assumes "rtu_at net st" "writing_documented c"
  shows "agrees (rtu_at net) rtu_next_layer (rtu_writing net slave c st)
    (writing_spec (rtu_transaction net) (rtu_verdict) st slave c (rtu_next_layer st))"
proof -
  have "length (writing_request c) \<le> 317"
    using writing_request_length [OF assms(2)] by simp
  note call = rtu_peer.writing_agrees [OF assms(1) this, where slave = slave]
  show ?thesis
  proof (cases c)
    case (Write_single_coil address on)
    show ?thesis
      using call [of write_single_coil_pdu_resp_read] echo_reads(1) coil_resp.response_reader_axioms
      by (simp add: Write_single_coil writing_calls del: put_all.simps)
  next
    case (Write_multiple_coils address coils)
    show ?thesis
      using call [of write_multiple_coils_pdu_resp_read] echo_reads(3) mcoils_resp.response_reader_axioms assms(2)
      by (simp add: Write_multiple_coils writing_calls Let_def del: put_all.simps)
  next
    case (Write_single_register address val)
    show ?thesis
      using call [of write_single_register_pdu_resp_read] echo_reads(2) register_resp.response_reader_axioms
      by (simp add: Write_single_register writing_calls del: put_all.simps)
  next
    case (Write_multiple_registers address regs)
    show ?thesis
      using call [of write_multiple_registers_pdu_resp_read] echo_reads(4) mregisters_resp.response_reader_axioms assms(2)
      by (simp add: Write_multiple_registers writing_calls Let_def del: put_all.simps)
  qed
qed

section \<open>Answers\<close>

text \<open>What a transaction is for a peer that answers with the right header, and what it is not for one that does
  not.\<close>

lemma tcp_transaction_answers:
  assumes "answers net st slave req bs n" "slave \<noteq> 0" "1 \<le> length bs" "length bs \<le> 248"
  shows "tcp_transaction net st slave req (m_next_layer st) = Return (Inr bs) n"
proof -
  note check = header_check_frame [OF assms(3,4), of "m_transaction_id st" "m_protocol st" slave]
  show ?thesis
    using assms(1,2) check
    by (auto simp: answers_def receives_frame_def tcp_transaction_def mothbus_write_def net_receive_def bind_op_def
        mbap_frame_parts(2,3) split: prod.splits)
qed

lemma net_receive_length: "asio_contract net \<Longrightarrow> net_receive net k n = Return bs n' \<Longrightarrow> length bs = k"
  using asio_read_length by (fastforce simp: net_receive_def split: prod.splits if_splits)

lemma tcp_transaction_refused:
  assumes "asio_contract net" "slave \<noteq> 0" "tcp_transaction net st slave req n = Return (Inl ec) n'"
  shows "failed ec"
  using assms header_check_Inl net_receive_length [OF assms(1)]
  by (fastforce simp: tcp_transaction_def bind_op_def split: result.splits sum.splits if_splits)

lemma reading_outcome_tcp:
  "reading_outcome tcp_verdict c out bs =
     Some (case values_answer (reading_fc c) out bs of (ec, n, array, rest) \<Rightarrow> read_result out ec n array)"
  by (simp add: reading_outcome_def tcp_verdict_def read_result_def split: prod.split)

lemma writing_outcome_tcp:
  "writing_outcome tcp_verdict c bs = Some (write_result (fst (echo_answer (writing_fc c) (writing_single c) bs)))"
  by (simp add: writing_outcome_eq tcp_verdict_def write_result_def)

lemma rtu_collect_wire:
  "length (incoming w) \<le> room \<Longrightarrow> rtu_collect wire_net t room w = Return (incoming w) (w\<lparr>incoming := []\<rparr>)"
proof (induction room arbitrary: w)
  case 0
  then show ?case by (simp add: wire_read_def)
next
  case (Suc room)
  show ?case
  proof (cases "incoming w")
    case Nil
    then show ?thesis by (simp add: wire_read_def)
  next
    case (Cons b bs)
    then show ?thesis
      using Suc.IH [of "w\<lparr>incoming := bs\<rparr>"] Suc.prems by (simp add: wire_read_def bind_op_def)
  qed
qed

lemma rtu_transaction_wire:
  assumes "slave \<noteq> 0" "length bs \<le> 319"
  shows "rtu_transaction wire_net st slave req \<lparr>incoming = slave # bs, outgoing = sent\<rparr> =
    Return (Inr bs) \<lparr>incoming = [], outgoing = sent @ rtu_frame slave req\<rparr>"
  using assms by (simp add: rtu_transaction_def rtu_reception_def wire_read_def bind_op_def rtu_collect_wire)

lemma ctor_line [simp]: "m_next_layer (tcp_stream_ctor w) = w" "rtu_next_layer (rtu_stream_ctor w) = w"
  by (simp_all add: tcp_stream_ctor_def rtu_stream_ctor_def)

text \<open>A call over TCP with an answer of values never leaves its arrays.\<close>

lemma tcp_transaction_defined: "well_behaved (\<lambda>_. True) (tcp_transaction net st slave req n)"
  by (auto simp: tcp_transaction_def mothbus_write_def net_receive_def bind_op_def return_op_def
      split: prod.splits sum.splits)

lemma well_behaved_agrees:
  "agrees ok line m r \<Longrightarrow> well_behaved (\<lambda>_. True) r \<Longrightarrow> (\<And>st. ok st \<Longrightarrow> ok' st) \<Longrightarrow> well_behaved ok' m"
  by (cases m) auto

lemma tcp_values_safe:
  assumes "tcp_ok net st" "length req \<le> 313" "fc AND 0x80 = 0"
    and "\<And>ec resp st'. length (span_array (resp_values resp)) = length out \<Longrightarrow>
      f (ec, resp) st' = Return (g ec (byte_count resp) (span_array (resp_values resp))) st'"
  shows "well_behaved (tcp_ok net) (bind_op (tcp_write_request net slave (put_all buffer_put req)) (\<lambda>tid. bind_op
    (tcp_read_response net tid slave fc read_coils_pdu_resp_read (read_coils_pdu_resp_ctor (whole_span out))) f) st)"
proof (rule well_behaved_agrees)
  have "tcp_at net (m_protocol st) st" using assms(1) by (simp add: tcp_at_def)
  then show "agrees (tcp_at net (m_protocol st)) m_next_layer
    (bind_op (tcp_write_request net slave (put_all buffer_put req)) (\<lambda>tid. bind_op
      (tcp_read_response net tid slave fc read_coils_pdu_resp_read (read_coils_pdu_resp_ctor (whole_span out))) f) st)
    (bind_op (tcp_transaction net st slave req) (\<lambda>r. case r of
        Inl ec \<Rightarrow> return_op (g ec (of_nat (length out)) out)
      | Inr bs \<Rightarrow> optional (case values_answer fc out bs of (ec, n, array, rest) \<Rightarrow>
          map_option (\<lambda>ec. g ec n array) (tcp_verdict bs ec rest))) (m_next_layer st))"
    by (rule tcp_values.values_agrees [OF _ assms(2,3)]) (rule assms(4))
  show "well_behaved (\<lambda>_. True) (bind_op (tcp_transaction net st slave req) (\<lambda>r. case r of
        Inl ec \<Rightarrow> return_op (g ec (of_nat (length out)) out)
      | Inr bs \<Rightarrow> optional (case values_answer fc out bs of (ec, n, array, rest) \<Rightarrow>
          map_option (\<lambda>ec. g ec n array) (tcp_verdict bs ec rest))) (m_next_layer st))"
    by (rule well_behaved_bind [OF tcp_transaction_defined])
      (auto simp: tcp_verdict_def return_op_def split: sum.splits prod.splits)
qed (simp add: tcp_at_def)

lemma tcp_read_write_safe:
  assumes "tcp_ok net st" "length vals \<le> 151"
  shows "well_behaved (tcp_ok net)
    (read_write_multiple_registers (tcp_write_request net) (tcp_read_response net) slave address out address' vals st)"
proof -
  have "length vals < 65536" using assms(2) by simp
  then show ?thesis
    unfolding read_write_multiple_registers_call [OF \<open>length vals < 65536\<close>] using assms(2)
    by (intro tcp_values_safe [OF assms(1), where
          g = "\<lambda>ec n array. (ec, if failed ec then out else decode_registers array (length out))"])
      (auto simp: copy_registers_def bind_op_def)
qed

section \<open>Properties\<close>

text \<open>C2. The four byte reading functions of a master over TCP are refined from their specification, whatever
  the network layer does and for every slave: the request is sent, the header of the answer is checked, and the
  result is the one that is computed from the bytes of the body, without the message buffer and its cursors;
  network errors are thrown, and exactly the bytes of header and announced body are consumed. In particular an
  array larger than the values of a correct answer, which the documentation allows, makes the answer
  invalid.\<close>

theorem tcp_reads_refinement:
  assumes "tcp_ok net st" "reading_documented c out"
  shows "agrees (tcp_ok net) m_next_layer (run_reading (tcp_write_request net) (tcp_read_response net) slave c out st)
    (reading_spec (tcp_transaction net) (\<lambda>slave. tcp_verdict) st slave c out (m_next_layer st))"
  using tcp_values.reading_agrees [of net "m_protocol st" st c out slave] assms
  by (auto simp: tcp_at_def elim: agrees_weaken)

theorem tcp_reads_refinement_witness:
  "\<exists>st'. read_coils (tcp_write_request wire_net) (tcp_read_response wire_net) 9 0 3 [0, 0]
      (tcp_stream_ctor \<lparr>incoming = [0, 0, 0, 0, 0, 4, 9, 1, 1, 5], outgoing = []\<rparr>) =
    Return (make_error_code invalid_response, [5, 0]) st'"
proof -
  let ?st = "tcp_stream_ctor \<lparr>incoming = [0, 0, 0, 0, 0, 4, 9, 1, 1, 5], outgoing = []\<rparr>"
  have "answers wire_net ?st 9 (reading_request (Read_coils 0 3) [0, 0]) [1, 1, 5]
      \<lparr>incoming = [], outgoing = [0, 0, 0, 0, 0, 6, 9, 1, 0, 0, 0, 3]\<rparr>"
    by (simp add: wire_eval reading_request_def)
  from tcp_transaction_answers [OF this] show ?thesis
    using tcp_reads_refinement [of wire_net ?st "Read_coils 0 3" "[0, 0]" 9]
    by (auto simp: streams_ok_ctor reading_spec_def bind_op_def reading_outcome_tcp read_result_def protocol_consts
        agrees_Return)
qed

text \<open>C16. A read over TCP is a success with certain contents of the caller's array exactly when the transaction
  ends with an answer that carries as many bytes as the array holds, and these are its contents, or with an
  exception with the code 0, and the array is as the caller left it.\<close>

theorem tcp_read_success_iff:
  assumes "tcp_ok net st" "slave \<noteq> 0" "reading_documented c out" "length out < 256"
  shows "(\<exists>ec st'. run_reading (tcp_write_request net) (tcp_read_response net) slave c out st = Return (ec, array) st' \<and>
      \<not> failed ec) \<longleftrightarrow>
    (\<exists>bs n. tcp_transaction net st slave (reading_request c out) (m_next_layer st) = Return (Inr bs) n \<and>
      ((\<exists>rest. bs = reading_fc c # of_nat (length out) # array @ rest \<and> length array = length out)
      \<or> (\<exists>f rest. f AND 0x80 \<noteq> 0 \<and> bs = f # 0 # rest \<and> array = out)))"
proof -
  let ?call = "run_reading (tcp_write_request net) (tcp_read_response net) slave c out st"
  let ?exchange = "tcp_transaction net st slave (reading_request c out) (m_next_layer st)"
  have agree: "agrees (tcp_at net (m_protocol st)) m_next_layer ?call
      (reading_spec (tcp_transaction net) (\<lambda>slave. tcp_verdict) st slave c out (m_next_layer st))"
    using tcp_values.reading_agrees [of net "m_protocol st" st c out slave] assms by (simp add: tcp_at_def)
  consider ec n where "?exchange = Return (Inl ec) n" "failed ec" | bs n where "?exchange = Return (Inr bs) n"
    | "\<forall>x n. ?exchange \<noteq> Return x n"
    using tcp_transaction_refused [of net slave st] assms(1,2) by (metis obj_sumE tcp_ok_def)
  then show ?thesis
  proof cases
    case 1
    with agree have "\<exists>st'. ?call = Return (ec, out) st'"
      by (simp add: reading_spec_def bind_op_def read_result_def agrees_Return) blast
    with 1 show ?thesis by auto
  next
    case 2
    obtain ec m array' rest' where spec: "values_answer (reading_fc c) out bs = (ec, m, array', rest')"
      by (metis prod_cases4)
    have "\<exists>st'. ?call = Return (fst (read_result out ec m array'), array') st'"
      using agree by (simp add: reading_spec_def bind_op_def 2 reading_outcome_tcp spec agrees_Return)
        (metis read_result_array)
    then show ?thesis
      using values_success_iff [OF reading_fc_normal spec assms(4), of array] 2 by auto
  next
    case 3
    with agree have "\<forall>x st'. ?call \<noteq> Return x st'"
      by (cases ?exchange; cases ?call) (auto simp: reading_spec_def bind_op_def)
    with 3 show ?thesis by blast
  qed
qed

theorem tcp_read_success_iff_witness:
  "\<exists>ec st'. read_registers (tcp_write_request wire_net) (tcp_read_response wire_net) 9 0 [7, 7]
      (tcp_stream_ctor \<lparr>incoming = [0, 0, 0, 0, 0, 3, 9, 0x83, 0], outgoing = []\<rparr>) = Return (ec, [7, 7]) st' \<and> \<not> failed ec"
proof -
  let ?st = "tcp_stream_ctor \<lparr>incoming = [0, 0, 0, 0, 0, 3, 9, 0x83, 0], outgoing = []\<rparr>"
  have "answers wire_net ?st 9 (reading_request (Read_registers 0) [7, 7]) [0x83, 0]
      \<lparr>incoming = [], outgoing = [0, 0, 0, 0, 0, 6, 9, 3, 0, 0, 0, 1]\<rparr>"
    by (simp add: wire_eval reading_request_def)
  from tcp_transaction_answers [OF this] show ?thesis
    using tcp_read_success_iff [of wire_net ?st 9 "Read_registers 0" "[7, 7]" "[7, 7]"]
    by (simp add: streams_ok_ctor protocol_consts)
qed

text \<open>C6. The four writing functions of a master over TCP are refined from their specification, whatever the
  network layer does and for every slave: the result is the error of the refused header, the error found in the
  bytes of the answer, or success. The address and the value or quantity in the answer are never compared with
  the ones of the request; a single value has to be the one of a coil, even if a register was written.\<close>

theorem tcp_writes_refinement:
  assumes "tcp_ok net st" "writing_documented c"
  shows "agrees (tcp_ok net) m_next_layer (tcp_writing net slave c st)
    (writing_spec (tcp_transaction net) (\<lambda>slave. tcp_verdict) st slave c (m_next_layer st))"
  using tcp_writing_agrees [of net "m_protocol st" st c slave] assms
  by (auto simp: tcp_at_def elim: agrees_weaken)

text \<open>A coil is switched on, and the answer says that another one is off.\<close>

theorem tcp_writes_refinement_witness:
  "\<exists>st'. write_single_coil (tcp_write_request wire_net) (tcp_read_response wire_net) 9 0 True
      (tcp_stream_ctor \<lparr>incoming = [0, 0, 0, 0, 0, 6, 9, 5, 0x12, 0x34, 0, 0], outgoing = []\<rparr>) = Return no_error st'"
proof -
  let ?st = "tcp_stream_ctor \<lparr>incoming = [0, 0, 0, 0, 0, 6, 9, 5, 0x12, 0x34, 0, 0], outgoing = []\<rparr>"
  have "answers wire_net ?st 9 (writing_request (Write_single_coil 0 True)) [5, 0x12, 0x34, 0, 0]
      \<lparr>incoming = [], outgoing = [0, 0, 0, 0, 0, 6, 9, 5, 0, 0, 0xFF, 0]\<rparr>"
    by (simp add: wire_eval)
  from tcp_transaction_answers [OF this] show ?thesis
    using tcp_writes_refinement [of wire_net ?st "Write_single_coil 0 True" 9]
    by (auto simp: streams_ok_ctor writing_spec_def bind_op_def writing_outcome_tcp write_result_def be16_def
        protocol_consts agrees_Return)
qed

text \<open>C36. \<^verbatim>\<open>rtu::stream::read_response\<close> is refined from its specification for every response class, whatever the
  network layer does: the slave address is awaited, the bytes behind it are collected until a gap, the response
  is decoded from them, and the next two bytes are compared with the checksum of what was read. It is undefined
  when a byte of the checksum that is compared never arrived, or more bytes arrive than the message buffer
  takes.\<close>

theorem rtu_reception_refinement:
  assumes "response_reader fc rsp lrsp" "asio_contract net" "rtu_ok st"
  shows "agrees rtu_ok rtu_next_layer (rtu_read_response net tid slave fc rsp v st)
    (bind_op (rtu_reception net st slave) (decoded (rtu_verdict slave) (read_pdu_resp checked_read fc lrsp) v)
      (rtu_next_layer st))"
  using rtu_reception_agrees [OF assms(1), of net st tid slave v] assms(2,3)
  by (auto simp: rtu_at_def elim: agrees_weaken)

theorem rtu_reception_refinement_witness:
  "rtu_read_response wire_net 0 9 fc_write_single_coil write_single_coil_pdu_resp_read
     \<lparr>wscr_address = 0, wscr_value = 0\<rparr> (rtu_stream_ctor \<lparr>incoming = [9], outgoing = []\<rparr>) = Undefined"
  using rtu_reception_refinement [OF coil_resp.response_reader_axioms wire_contract,
      of "rtu_stream_ctor \<lparr>incoming = [9], outgoing = []\<rparr>" 0 9 "\<lparr>wscr_address = 0, wscr_value = 0\<rparr>"]
  by (simp add: streams_ok_ctor rtu_reception_def wire_read_def bind_op_def rtu_collect_wire decoded_def rtu_verdict_def
      read_pdu_resp_forms agrees_Undefined)

text \<open>C17. The four byte reading functions of a master on the serial line are refined from their specification,
  whatever the network layer does and for every slave: the array is filled as over TCP, but only the checksum
  behind the bytes that were decoded makes the result, which is undefined when the answer is cut short or longer
  than the message buffer. So an exception, a wrong function code and a wrong number of values are errors over
  TCP, and an exception is none here; nothing is thrown, and that the request could not be sent is not
  noticed.\<close>

theorem rtu_reads_refinement:
  assumes "asio_contract net" "rtu_ok st" "reading_documented c out"
  shows "agrees rtu_ok rtu_next_layer (run_reading (rtu_write_request net) (rtu_read_response net) slave c out st)
    (reading_spec (rtu_transaction net) rtu_verdict st slave c out (rtu_next_layer st))"
  using rtu_values.reading_agrees [of net st c out slave] assms
  by (auto simp: rtu_at_def elim: agrees_weaken)

theorem rtu_reads_refinement_witness:
  "read_input_registers (rtu_write_request wire_net) (rtu_read_response wire_net) 9 0 [0, 0]
     (rtu_stream_ctor \<lparr>incoming = [9, 4], outgoing = []\<rparr>) = Undefined"
  using rtu_reads_refinement [OF wire_contract, of "rtu_stream_ctor \<lparr>incoming = [9, 4], outgoing = []\<rparr>"
      "Read_input_registers 0" "[0, 0]" 9]
  by (simp add: streams_ok_ctor reading_spec_def bind_op_def rtu_transaction_wire reading_outcome_def rtu_verdict_def
      protocol_consts agrees_Undefined)

text \<open>C18. The four writing functions of a master on the serial line are refined from their specification,
  whatever the network layer does and for every slave: only the checksum decides, so refused writes are reported
  as done.\<close>

theorem rtu_writes_refinement:
  assumes "asio_contract net" "rtu_ok st" "writing_documented c"
  shows "agrees rtu_ok rtu_next_layer (rtu_writing net slave c st)
    (writing_spec (rtu_transaction net) rtu_verdict st slave c (rtu_next_layer st))"
  using rtu_writing_agrees [of net st c slave] assms
  by (auto simp: rtu_at_def elim: agrees_weaken)

theorem rtu_writes_refinement_witness:
  "\<exists>st'. write_single_register (rtu_write_request wire_net) (rtu_read_response wire_net) 9 0 5
      (rtu_stream_ctor \<lparr>incoming = rtu_frame 9 [fc_write_single_register OR 0x80, 2], outgoing = []\<rparr>) = Return no_error st'"
  using rtu_writes_refinement [OF wire_contract, of
      "rtu_stream_ctor \<lparr>incoming = rtu_frame 9 [fc_write_single_register OR 0x80, 2], outgoing = []\<rparr>"
      "Write_single_register 0 5" 9]
  by (auto simp: streams_ok_ctor writing_spec_def bind_op_def rtu_frame_parts rtu_transaction_wire writing_outcome_def
      rtu_verdict_def write_result_def agrees_Return)

end
