(* ===== verification/Master_Registers.thy ===== *)
theory Master_Registers
  imports Master_Refinement
begin

text \<open>
  The functions of the master that work on register values: the overloads for \<^verbatim>\<open>std::uint16_t\<close> of the reading
  functions, and \<^verbatim>\<open>read_write_multiple_registers\<close>. They refine a transaction whose answer carries the
  registers; \<open>registers_result\<close> is what they make of it.
\<close>

section \<open>The functions\<close>

datatype register_call =
    Registers_uint16 u16
  | Input_registers_uint16 u16
  | Read_write_registers u16 u16 "u16 list"

fun run_registers ::
    "'st write_request_op \<Rightarrow> ('st, values_pdu_resp) read_response_op \<Rightarrow>
     u8 \<Rightarrow> register_call \<Rightarrow> u16 list \<Rightarrow> ('st, error_code \<times> u16 list) operation" where
  "run_registers wr rr slave (Registers_uint16 address) out = read_registers_uint16 wr rr slave address out"
| "run_registers wr rr slave (Input_registers_uint16 address) out = read_input_registers_uint16 wr rr slave address out"
| "run_registers wr rr slave (Read_write_registers address address' vals) out =
     read_write_multiple_registers wr rr slave address out address' vals"

fun registers_fc :: "register_call \<Rightarrow> function_code" where
  "registers_fc (Registers_uint16 address) = fc_read_holding_registers"
| "registers_fc (Input_registers_uint16 address) = fc_read_input_registers"
| "registers_fc (Read_write_registers address address' vals) = fc_read_write_multiple_registers"

fun registers_request :: "register_call \<Rightarrow> nat \<Rightarrow> u8 list" where
  "registers_request (Registers_uint16 address) n =
     [fc_read_holding_registers, hi8 address, lo8 address, hi8 (of_nat n), lo8 (of_nat n)]"
| "registers_request (Input_registers_uint16 address) n =
     [fc_read_input_registers, hi8 address, lo8 address, hi8 (of_nat n), lo8 (of_nat n)]"
| "registers_request (Read_write_registers address address' vals) n =
     [fc_read_write_multiple_registers, hi8 address, lo8 address, hi8 (of_nat n), lo8 (of_nat n),
      hi8 address', lo8 address', hi8 (of_nat (length vals)), lo8 (of_nat (length vals)), of_nat (length vals * 2)]
     @ be_bytes vals"

text \<open>The number of registers that fits a request is 121; any number may be read.\<close>

fun registers_documented :: "register_call \<Rightarrow> bool" where
  "registers_documented (Read_write_registers address address' vals) \<longleftrightarrow> length vals \<le> 121"
| "registers_documented _ \<longleftrightarrow> True"

text \<open>Only the reading functions compare the byte count of the answer with the number of registers.\<close>

fun registers_counted :: "register_call \<Rightarrow> bool" where
  "registers_counted (Read_write_registers address address' vals) \<longleftrightarrow> False"
| "registers_counted _ \<longleftrightarrow> True"

section \<open>Specification\<close>

abbreviation register_bytes :: "u16 list \<Rightarrow> u8 list" where
  "register_bytes out \<equiv> replicate (length out * 2) 0"

text \<open>The array of the caller is filled on success only, and then completely: registers that the answer does not
  carry are zero.\<close>

definition registers_result :: "register_call \<Rightarrow> u16 list \<Rightarrow> error_code \<Rightarrow> u8 \<Rightarrow> u8 list \<Rightarrow> error_code \<times> u16 list" where
  "registers_result c out ec n array =
     (let ec' = if registers_counted c then fst (read_result (register_bytes out) ec n array) else ec
      in (ec', if failed ec' then out else decode_registers array (length out)))"

definition registers_spec ::
    "('st \<Rightarrow> u8 \<Rightarrow> u8 list \<Rightarrow> ('n, error_code + u8 list) operation) \<Rightarrow>
     (u8 \<Rightarrow> u8 list \<Rightarrow> error_code \<Rightarrow> u8 list \<Rightarrow> error_code option) \<Rightarrow>
     'st \<Rightarrow> u8 \<Rightarrow> register_call \<Rightarrow> u16 list \<Rightarrow> ('n, error_code \<times> u16 list) operation" where
  "registers_spec transact judge st slave c out =
     bind_op (transact st slave (registers_request c (length out))) (\<lambda>r.
       case r of
         Inl ec \<Rightarrow> return_op (registers_result c out ec (of_nat (length (register_bytes out))) (register_bytes out))
       | Inr bs \<Rightarrow> optional (case values_answer (registers_fc c) (register_bytes out) bs of (ec, n, array, rest) \<Rightarrow>
           map_option (\<lambda>ec. registers_result c out ec n array) (judge slave bs ec rest)))"

section \<open>Refinement\<close>

lemma registers_fc_normal [simp]: "registers_fc c AND 0x80 = 0"
  by (cases c) simp_all

lemma registers_request_length: "registers_documented c \<Longrightarrow> length (registers_request c n) \<le> 252"
  by (cases c) auto

text \<open>All three have the same form.\<close>

lemma run_registers_call:
  assumes "registers_documented c"
  obtains f where "run_registers wr rr slave c out =
    bind_op (wr slave (put_all buffer_put (registers_request c (length out)))) (\<lambda>tid. bind_op
      (rr tid slave (registers_fc c) read_coils_pdu_resp_read (read_coils_pdu_resp_ctor (whole_span (register_bytes out)))) f)"
    "\<And>ec resp st. length (span_array (resp_values resp)) = length (register_bytes out) \<Longrightarrow>
      f (ec, resp) st = Return (registers_result c out ec (byte_count resp) (span_array (resp_values resp))) st"
proof (cases c)
  case (Registers_uint16 address)
  show ?thesis
    using run_reading_call [of "Read_registers address" "register_bytes out" wr rr slave]
    by (intro that) (auto simp: Registers_uint16 read_registers_uint16_def bind_op_assoc reading_request_def
        registers_result_def read_result_def Let_def bind_op_def copy_registers_def simp del: put_all.simps)
next
  case (Input_registers_uint16 address)
  show ?thesis
    using run_reading_call [of "Read_input_registers address" "register_bytes out" wr rr slave]
    by (intro that) (auto simp: Input_registers_uint16 read_input_registers_uint16_def bind_op_assoc reading_request_def
        registers_result_def read_result_def Let_def bind_op_def copy_registers_def simp del: put_all.simps)
next
  case (Read_write_registers address address' vals)
  show ?thesis
    using assms read_write_multiple_registers_call [of vals wr rr slave address out address']
    by (intro that) (auto simp: Read_write_registers registers_result_def copy_registers_def bind_op_def
        simp del: put_all.simps)
qed

context transacting_values
begin

lemma registers_agrees:
  assumes "ok st" "252 \<le> room" "registers_documented c"
  shows "agrees ok line (run_registers wr rr slave c out st) (registers_spec transact judge st slave c out (line st))"
proof (rule run_registers_call [OF assms(3), of wr rr slave out])
  fix f
  assume f: "run_registers wr rr slave c out =
      bind_op (wr slave (put_all buffer_put (registers_request c (length out)))) (\<lambda>tid. bind_op
        (rr tid slave (registers_fc c) read_coils_pdu_resp_read (read_coils_pdu_resp_ctor (whole_span (register_bytes out)))) f)"
    "\<And>ec resp st. length (span_array (resp_values resp)) = length (register_bytes out) \<Longrightarrow>
      f (ec, resp) st = Return (registers_result c out ec (byte_count resp) (span_array (resp_values resp))) st"
  show ?thesis
    unfolding f(1) registers_spec_def using assms registers_request_length [OF assms(3), of "length out"]
    by (intro values_agrees registers_fc_normal f(2)) simp_all
qed

end

section \<open>When the serial line stream is undefined\<close>

text \<open>A call returns and keeps the stream well formed, except in one case, in which it is undefined.\<close>

definition defined_unless :: "bool \<Rightarrow> ('st \<Rightarrow> bool) \<Rightarrow> ('st, 'a) result \<Rightarrow> bool" where
  "defined_unless undef ok m \<longleftrightarrow> (if undef then m = Undefined else \<exists>x st. m = Return x st \<and> ok st)"

text \<open>An answer that is too long for the message buffer, or one that is cut short: behind what the response
  class reads (\<open>left\<close> are the bytes behind it) there is no checksum, or only its first byte, which is right.\<close>

definition rtu_unsafe :: "u8 \<Rightarrow> (u8 list \<Rightarrow> u8 list) \<Rightarrow> ('n, error_code + u8 list) result \<Rightarrow> bool" where
  "rtu_unsafe slave left r \<longleftrightarrow> r = Undefined \<or>
     (\<exists>bs n. r = Return (Inr bs) n \<and>
       (left bs = [] \<or> left bs = [lo8 (CRC16 (slave # take (length bs - 1) bs))]))"

lemma rtu_verdict_None:
  "rtu_verdict slave bs ec rest = None \<longleftrightarrow> rest = [] \<or> rest = [lo8 (CRC16 (slave # take (length bs - 1) bs))]"
  by (cases rest; cases "tl rest") (auto simp: rtu_verdict_def Let_def)

lemma rtu_collect_outcome: "rtu_collect net t k n = Undefined \<or> (\<exists>bs n'. rtu_collect net t k n = Return bs n')"
proof (induction k arbitrary: n)
  case 0
  then show ?case by (simp split: prod.split)
next
  case (Suc k)
  obtain ec bs n1 where "net_read_until net t 1 n = (ec, bs, n1)"
    by (metis prod_cases3)
  then show ?case
    using Suc.IH [of n1] by (auto simp: bind_op_def)
qed

lemma rtu_transaction_outcome:
  "rtu_transaction net st slave req n = Undefined \<or> (\<exists>r n'. rtu_transaction net st slave req n = Return r n')"
proof -
  obtain ec bs n1 where "net_read_until net (m_timeoutResponse st) 1 (snd (net_write net (rtu_frame slave req) n)) = (ec, bs, n1)"
    by (metis prod_cases3)
  then show ?thesis
    using rtu_collect_outcome [of net "m_timeoutInterCharacter st" 319 n1]
    by (auto simp: rtu_transaction_def rtu_reception_def bind_op_def simp del: rtu_collect.simps)
qed

lemma agrees_defined:
  assumes "agrees ok line m (bind_op (rtu_transaction net st slave req) (\<lambda>r. case r of
      Inl ec \<Rightarrow> return_op (g ec) | Inr bs \<Rightarrow> optional (h bs)) n)"
    and "\<And>bs. h bs = None \<longleftrightarrow> left bs = [] \<or> left bs = [lo8 (CRC16 (slave # take (length bs - 1) bs))]"
  shows "defined_unless (rtu_unsafe slave left (rtu_transaction net st slave req n)) ok m"
  using rtu_transaction_outcome [of net st slave req n]
proof
  assume "rtu_transaction net st slave req n = Undefined"
  with assms(1) show ?thesis
    by (simp add: bind_op_def defined_unless_def rtu_unsafe_def agrees_Undefined)
next
  assume "\<exists>r n'. rtu_transaction net st slave req n = Return r n'"
  then obtain r n' where r: "rtu_transaction net st slave req n = Return r n'"
    by blast
  show ?thesis
  proof (cases r)
    case (Inl ec)
    with assms(1) r show ?thesis
      by (auto simp: bind_op_def defined_unless_def rtu_unsafe_def agrees_Return)
  next
    case (Inr bs)
    with assms(1) r assms(2) [of bs] show ?thesis
      by (cases "h bs") (auto simp: bind_op_def defined_unless_def rtu_unsafe_def agrees_Return agrees_Undefined)
  qed
qed

section \<open>How many registers can be written\<close>

lemma resize_copy_truncated: "65536 \<le> length src \<Longrightarrow> resize_copy (unat (of_nat (length src) :: u16)) src values = None"
proof -
  have "unat (of_nat (length src) :: u16) < 65536"
    using unsigned_less [of "of_nat (length src) :: u16"] by simp
  then show "65536 \<le> length src \<Longrightarrow> ?thesis"
    by (simp add: resize_copy_def vector_resize_def)
qed

lemma write_multiple_registers_many:
  assumes "tcp_ok net st" "154 \<le> length regs"
  shows "write_multiple_registers (tcp_write_request net) (tcp_read_response net) slave address regs st = Undefined"
proof (cases "length regs < 65536")
  case True
  then show ?thesis
    by (rule tcp_write_multiple_registers_overflow [OF assms])
next
  case False
  then show ?thesis
    using resize_copy_truncated [of regs] by (simp add: write_multiple_registers_def Let_def)
qed

lemma write_multiple_registers_asserts:
  assumes "tcp_ok net st" "length regs = 0 \<or> 124 \<le> length regs" "length regs \<le> 153"
    and "net_write net (mbap_frame (m_transaction_id st) (m_protocol st) slave
      (writing_request (writing.Write_multiple_registers address regs))) (m_next_layer st) = (ec, n)"
  shows "if failed ec
    then \<exists>st'. write_multiple_registers (tcp_write_request net) (tcp_read_response net) slave address regs st = Throw ec st'
    else write_multiple_registers (tcp_write_request net) (tcp_read_response net) slave address regs st = Assert_failed"
proof -
  have "unat (of_nat (length regs) :: u16) = length regs"
    using assms(3) by (intro unat_of_nat_u16) simp
  then have "write_multiple_registers_pdu_resp_ctor address (of_nat (length regs)) = None"
    using assms(2) by (auto simp: write_multiple_registers_pdu_resp_ctor_def word_le_nat_alt)
  then show ?thesis
    using assms by (simp add: write_multiple_registers_call bind_op_def tcp_write_request_form tcp_ok_def Let_def
        del: put_all.simps)
qed

lemma read_write_multiple_registers_safe:
  assumes "tcp_ok net st"
  shows "if 152 \<le> length vals
    then read_write_multiple_registers (tcp_write_request net) (tcp_read_response net) slave address out address' vals st = Undefined
    else well_behaved (tcp_ok net)
      (read_write_multiple_registers (tcp_write_request net) (tcp_read_response net) slave address out address' vals st)"
proof (cases "length vals < 65536")
  case True
  show ?thesis
  proof (cases "152 \<le> length vals")
    case False
    then show ?thesis
      using tcp_read_write_safe [OF assms, of vals slave address out address'] by simp
  next
    case many: True
    then have long: "313 < length (registers_request (Read_write_registers address address' vals) (length out))"
      by simp
    with many show ?thesis
      using over_tcp.wr_overflow [OF assms long, of slave]
      by (simp add: read_write_multiple_registers_call [OF True] bind_op_def del: put_all.simps)
  qed
next
  case False
  then show ?thesis
    using resize_copy_truncated [of vals] by (simp add: read_write_multiple_registers_def Let_def)
qed

lemma tcp_registers_safe:
  assumes "tcp_ok net st" "registers_documented c"
  shows "well_behaved (tcp_ok net) (run_registers (tcp_write_request net) (tcp_read_response net) slave c out st)"
proof (rule well_behaved_agrees)
  have "tcp_at net (m_protocol st) st" using assms(1) by (simp add: tcp_at_def)
  then show "agrees (tcp_at net (m_protocol st)) m_next_layer
    (run_registers (tcp_write_request net) (tcp_read_response net) slave c out st)
    (registers_spec (tcp_transaction net) (\<lambda>slave. tcp_verdict) st slave c out (m_next_layer st))"
    using assms(2) by (intro tcp_values.registers_agrees) simp_all
  show "well_behaved (\<lambda>_. True) (registers_spec (tcp_transaction net) (\<lambda>slave. tcp_verdict) st slave c out (m_next_layer st))"
    unfolding registers_spec_def
    by (rule well_behaved_bind [OF tcp_transaction_defined])
      (auto simp: tcp_verdict_def return_op_def split: sum.splits prod.splits)
qed (simp add: tcp_at_def)

section \<open>Properties\<close>

text \<open>C12. For arguments within the documented ranges (up to 2000 coils and an array that holds them, up to 1968
  coils or 123 registers to write, up to 121 in a combined read and write), every function of a master over TCP
  returns or throws a network error, whatever the server sends: no assertion fails, no byte outside an array is
  accessed, and the stream stays usable.\<close>

theorem tcp_master_safe:
  assumes "tcp_ok net st" "reading_documented r out" "writing_documented w" "registers_documented c"
  shows "well_behaved (tcp_ok net) (run_reading (tcp_write_request net) (tcp_read_response net) slave r out st)
    \<and> well_behaved (tcp_ok net) (tcp_writing net slave w st)
    \<and> well_behaved (tcp_ok net) (run_registers (tcp_write_request net) (tcp_read_response net) slave c regs st)"
proof (intro conjI)
  show "well_behaved (tcp_ok net) (run_reading (tcp_write_request net) (tcp_read_response net) slave r out st)"
    unfolding run_reading_call [OF assms(2)]
    by (rule tcp_exchange_safe [OF values_reader [OF reading_fc_normal] assms(1)]) (auto simp: Let_def)
  have "length (writing_request w) \<le> 313"
    using writing_request_length [OF assms(3)] by simp
  then show "well_behaved (tcp_ok net) (tcp_writing net slave w st)"
    using assms(1,3)
    by (cases w) (auto simp: writing_calls Let_def simp del: put_all.simps
        intro!: tcp_exchange_safe [OF coil_resp.response_reader_axioms] tcp_exchange_safe [OF register_resp.response_reader_axioms]
          tcp_exchange_safe [OF mcoils_resp.response_reader_axioms] tcp_exchange_safe [OF mregisters_resp.response_reader_axioms])
  show "well_behaved (tcp_ok net) (run_registers (tcp_write_request net) (tcp_read_response net) slave c regs st)"
    by (rule tcp_registers_safe [OF assms(1,4)])
qed

theorem tcp_master_safe_witness:
  "well_behaved (tcp_ok wire_net) (write_multiple_coils (tcp_write_request wire_net) (tcp_read_response wire_net) 9 0
      (replicate 1968 1) (tcp_stream_ctor \<lparr>incoming = replicate 300 0xFF, outgoing = []\<rparr>))"
  using tcp_master_safe [of wire_net "tcp_stream_ctor \<lparr>incoming = replicate 300 0xFF, outgoing = []\<rparr>"
      "Read_coils 0 2000" "replicate 250 0" "Write_multiple_coils 0 (replicate 1968 1)" "Registers_uint16 0" 9]
  by (simp add: streams_ok_ctor)

text \<open>C7. The functions of the master on register values are refined from their specification over both streams,
  whatever the network layer does and for every slave. The array of the caller is written on success only. In
  contrast to the reading functions, \<^verbatim>\<open>read_write_multiple_registers\<close> does not compare the number of registers in
  the answer with the number asked for: a shorter answer is a success, and the registers that it does not carry
  come back as zero.\<close>

theorem registers_refinement:
  assumes "tcp_ok net st" "asio_contract net'" "rtu_ok st'" "registers_documented c"
  shows "agrees (tcp_ok net) m_next_layer (run_registers (tcp_write_request net) (tcp_read_response net) slave c out st)
      (registers_spec (tcp_transaction net) (\<lambda>slave. tcp_verdict) st slave c out (m_next_layer st))
    \<and> agrees rtu_ok rtu_next_layer (run_registers (rtu_write_request net') (rtu_read_response net') slave c out st')
      (registers_spec (rtu_transaction net') rtu_verdict st' slave c out (rtu_next_layer st'))"
proof
  have "tcp_at net (m_protocol st) st" "rtu_at net' st'"
    using assms by (simp_all add: tcp_at_def rtu_at_def)
  note agree = tcp_values.registers_agrees [OF this(1) _ assms(4), of slave out]
    rtu_values.registers_agrees [OF this(2) _ assms(4), of slave out]
  show "agrees (tcp_ok net) m_next_layer (run_registers (tcp_write_request net) (tcp_read_response net) slave c out st)
      (registers_spec (tcp_transaction net) (\<lambda>slave. tcp_verdict) st slave c out (m_next_layer st))"
    using agree(1) by (auto simp: tcp_at_def elim: agrees_weaken)
  show "agrees rtu_ok rtu_next_layer (run_registers (rtu_write_request net') (rtu_read_response net') slave c out st')
      (registers_spec (rtu_transaction net') rtu_verdict st' slave c out (rtu_next_layer st'))"
    using agree(2) by (auto simp: rtu_at_def elim: agrees_weaken)
qed

theorem registers_refinement_witness:
  "\<exists>st'. read_write_multiple_registers (tcp_write_request wire_net) (tcp_read_response wire_net) 9 0 [7, 7] 5 [3]
      (tcp_stream_ctor \<lparr>incoming = [0, 0, 0, 0, 0, 5, 9, 0x17, 2, 0x12, 0x34], outgoing = []\<rparr>) =
    Return (make_error_code success, [0x1234, 0]) st'"
proof -
  let ?st = "tcp_stream_ctor \<lparr>incoming = [0, 0, 0, 0, 0, 5, 9, 0x17, 2, 0x12, 0x34], outgoing = []\<rparr>"
  let ?c = "Read_write_registers 0 5 [3]"
  have "answers wire_net ?st 9 (registers_request ?c (length [7 :: u16, 7])) [0x17, 2, 0x12, 0x34]
      \<lparr>incoming = [], outgoing = [0, 0, 0, 0, 0, 13, 9, 0x17, 0, 0, 0, 2, 0, 5, 0, 1, 2, 0, 3]\<rparr>"
    by (simp add: wire_eval)
  from tcp_transaction_answers [OF this] have exchange: "tcp_transaction wire_net ?st 9 (registers_request ?c (length [7 :: u16, 7]))
      (m_next_layer ?st) = Return (Inr [0x17, 2, 0x12, 0x34])
        \<lparr>incoming = [], outgoing = [0, 0, 0, 0, 0, 13, 9, 0x17, 0, 0, 0, 2, 0, 5, 0, 1, 2, 0, 3]\<rparr>"
    by simp
  have "decode_registers (0x12 # 0x34 # replicate 2 0) (Suc (Suc 0)) = [0x1234, 0]"
    by (simp add: decode_registers_def make_uint16_be16 be16_def upt_rec)
  then have "registers_spec (tcp_transaction wire_net) (\<lambda>slave. tcp_verdict) ?st 9 ?c [7, 7] (m_next_layer ?st) =
      Return (make_error_code success, [0x1234, 0])
        \<lparr>incoming = [], outgoing = [0, 0, 0, 0, 0, 13, 9, 0x17, 0, 0, 0, 2, 0, 5, 0, 1, 2, 0, 3]\<rparr>"
    unfolding registers_spec_def bind_op_def exchange
    by (simp add: tcp_verdict_def registers_result_def protocol_consts)
  then show ?thesis
    using registers_refinement [of wire_net ?st wire_net "rtu_stream_ctor \<lparr>incoming = [], outgoing = []\<rparr>" ?c 9 "[7, 7]"]
    by (auto simp: streams_ok_ctor agrees_Return)
qed

text \<open>C13. For arguments within the documented ranges, a function of a master on the serial line always returns, and
  leaves the stream usable, unless the answer does not fit the message buffer, or ends before its checksum is
  complete (and nothing in it is wrong up to there): exactly then its behaviour is undefined.\<close>

theorem rtu_master_defined:
  assumes "asio_contract net" "rtu_ok st" "reading_documented r out" "writing_documented w" "registers_documented c"
  shows "defined_unless
      (rtu_unsafe slave (\<lambda>bs. snd (snd (snd (values_answer (reading_fc r) out bs))))
        (rtu_transaction net st slave (reading_request r out) (rtu_next_layer st)))
      rtu_ok (run_reading (rtu_write_request net) (rtu_read_response net) slave r out st)
    \<and> defined_unless
      (rtu_unsafe slave (\<lambda>bs. snd (echo_answer (writing_fc w) (writing_single w) bs))
        (rtu_transaction net st slave (writing_request w) (rtu_next_layer st)))
      rtu_ok (rtu_writing net slave w st)
    \<and> defined_unless
      (rtu_unsafe slave (\<lambda>bs. snd (snd (snd (values_answer (registers_fc c) (register_bytes regs) bs))))
        (rtu_transaction net st slave (registers_request c (length regs)) (rtu_next_layer st)))
      rtu_ok (run_registers (rtu_write_request net) (rtu_read_response net) slave c regs st)"
proof -
  have ok: "rtu_at net st" "\<And>st'. rtu_at net st' \<Longrightarrow> rtu_ok st'"
    using assms(1,2) by (simp_all add: rtu_at_def)
  note reading = agrees_weaken [OF rtu_values.reading_agrees [OF ok(1) _ assms(3), unfolded reading_spec_def] ok(2)]
  note writing = agrees_weaken [OF rtu_writing_agrees [OF ok(1) assms(4), unfolded writing_spec_def] ok(2)]
  note registers = agrees_weaken [OF rtu_values.registers_agrees [OF ok(1) _ assms(5), unfolded registers_spec_def] ok(2)]
  show ?thesis
    by (intro conjI agrees_defined [OF reading] agrees_defined [OF writing] agrees_defined [OF registers])
      (simp_all add: reading_outcome_def writing_outcome_eq rtu_verdict_None split: prod.split)
qed

theorem rtu_master_defined_witness:
  "read_registers (rtu_write_request wire_net) (rtu_read_response wire_net) 9 0 [0, 0]
     (rtu_stream_ctor \<lparr>incoming = [9, 3, 2, 0x12, 0x34], outgoing = []\<rparr>) = Undefined"
  using rtu_master_defined [OF wire_contract, of "rtu_stream_ctor \<lparr>incoming = [9, 3, 2, 0x12, 0x34], outgoing = []\<rparr>"
      "Read_registers 0" "[0, 0]" "Write_single_coil 0 True" "Registers_uint16 0" 9 "[0]"]
  by (simp add: streams_ok_ctor rtu_transaction_wire rtu_unsafe_def defined_unless_def protocol_consts)

text \<open>C14. The two functions that send registers do not check how many there are. \<^verbatim>\<open>write_multiple_registers\<close> over TCP
  is safe for the documented 1 to 123 registers; no register at all and 124 to 153 of them fail the assertion of the
  response class, but only after the request has been sent (unless sending throws); more write behind the message
  buffer before anything is sent. \<^verbatim>\<open>read_write_multiple_registers\<close> is safe for up to 151 registers, 30 more than
  the protocol allows, and overflows beyond.\<close>

theorem register_count_limits:
  assumes "tcp_ok net st"
  shows "(if 154 \<le> length regs
      then write_multiple_registers (tcp_write_request net) (tcp_read_response net) slave address regs st = Undefined
      else if 1 \<le> length regs \<and> length regs \<le> 123
      then well_behaved (tcp_ok net) (write_multiple_registers (tcp_write_request net) (tcp_read_response net) slave address regs st)
      else (case net_write net (mbap_frame (m_transaction_id st) (m_protocol st) slave
          (writing_request (writing.Write_multiple_registers address regs))) (m_next_layer st) of (ec, _) \<Rightarrow>
        if failed ec
        then \<exists>st'. write_multiple_registers (tcp_write_request net) (tcp_read_response net) slave address regs st = Throw ec st'
        else write_multiple_registers (tcp_write_request net) (tcp_read_response net) slave address regs st = Assert_failed))
    \<and> (if 152 \<le> length vals
      then read_write_multiple_registers (tcp_write_request net) (tcp_read_response net) slave address out address' vals st = Undefined
      else well_behaved (tcp_ok net)
        (read_write_multiple_registers (tcp_write_request net) (tcp_read_response net) slave address out address' vals st))"
proof (rule conjI [OF _ read_write_multiple_registers_safe [OF assms]])
  consider "154 \<le> length regs" | "1 \<le> length regs" "length regs \<le> 123" | "length regs = 0 \<or> 124 \<le> length regs" "length regs \<le> 153"
    by linarith
  then show "if 154 \<le> length regs
      then write_multiple_registers (tcp_write_request net) (tcp_read_response net) slave address regs st = Undefined
      else if 1 \<le> length regs \<and> length regs \<le> 123
      then well_behaved (tcp_ok net) (write_multiple_registers (tcp_write_request net) (tcp_read_response net) slave address regs st)
      else (case net_write net (mbap_frame (m_transaction_id st) (m_protocol st) slave
          (writing_request (writing.Write_multiple_registers address regs))) (m_next_layer st) of (ec, _) \<Rightarrow>
        if failed ec
        then \<exists>st'. write_multiple_registers (tcp_write_request net) (tcp_read_response net) slave address regs st = Throw ec st'
        else write_multiple_registers (tcp_write_request net) (tcp_read_response net) slave address regs st = Assert_failed)"
  proof cases
    case 1
    then show ?thesis
      using write_multiple_registers_many [OF assms 1] by simp
  next
    case 2
    then show ?thesis
      using assms unfolding write_multiple_registers_documented [OF 2]
      by (auto intro!: tcp_exchange_safe [OF mregisters_resp.response_reader_axioms] simp: Let_def simp del: put_all.simps)
  next
    case 3
    then show ?thesis
      using write_multiple_registers_asserts [OF assms 3, of slave address]
      by (auto split: prod.split simp del: writing_request.simps)
  qed
qed

theorem register_count_limits_witness:
  "write_multiple_registers (tcp_write_request wire_net) (tcp_read_response wire_net) 9 0 []
     (tcp_stream_ctor \<lparr>incoming = [], outgoing = []\<rparr>) = Assert_failed"
  using register_count_limits [of wire_net "tcp_stream_ctor \<lparr>incoming = [], outgoing = []\<rparr>" "[]" 9 0 "[]"]
  by (simp add: streams_ok_ctor)

end
