(* ===== verification/Master_Calls.thy ===== *)
theory Master_Calls
  imports Master_Registers
begin

text \<open>
  Every function of the master as one kind of call: the request it stands for, as a value of the variant that
  the server decodes, what it makes of the answer on either stream, and what it returns when the answer is
  refused before it is decoded. Calls are made one after the other on the same stream.
\<close>

section \<open>Calls\<close>

datatype master_call =
    Call_bytes reading "u8 list"
  | Call_registers register_call "u16 list"
  | Call_write writing

datatype call_result =
    Bytes_read error_code "u8 list"
  | Registers_read error_code "u16 list"
  | Write_done error_code

fun run_call :: "'n network \<Rightarrow> u8 \<Rightarrow> master_call \<Rightarrow> ('n tcp_stream, call_result) operation" where
  "run_call net slave (Call_bytes c out) =
     bind_op (run_reading (tcp_write_request net) (tcp_read_response net) slave c out)
       (\<lambda>(ec, out). return_op (Bytes_read ec out))"
| "run_call net slave (Call_registers c out) =
     bind_op (run_registers (tcp_write_request net) (tcp_read_response net) slave c out)
       (\<lambda>(ec, out). return_op (Registers_read ec out))"
| "run_call net slave (Call_write c) = bind_op (tcp_writing net slave c) (\<lambda>ec. return_op (Write_done ec))"

fun run_rtu_call :: "'n network \<Rightarrow> u8 \<Rightarrow> master_call \<Rightarrow> ('n rtu_stream, call_result) operation" where
  "run_rtu_call net slave (Call_bytes c out) =
     bind_op (run_reading (rtu_write_request net) (rtu_read_response net) slave c out)
       (\<lambda>(ec, out). return_op (Bytes_read ec out))"
| "run_rtu_call net slave (Call_registers c out) =
     bind_op (run_registers (rtu_write_request net) (rtu_read_response net) slave c out)
       (\<lambda>(ec, out). return_op (Registers_read ec out))"
| "run_rtu_call net slave (Call_write c) = bind_op (rtu_writing net slave c) (\<lambda>ec. return_op (Write_done ec))"

text \<open>A client makes calls to several slaves on one stream, one after the other.\<close>

fun run_calls ::
    "(u8 \<Rightarrow> master_call \<Rightarrow> ('st, call_result) operation) \<Rightarrow> (u8 \<times> master_call) list \<Rightarrow> ('st, call_result list) operation" where
  "run_calls run [] = return_op []"
| "run_calls run ((slave, call) # calls) =
     bind_op (run slave call) (\<lambda>r.
     bind_op (run_calls run calls) (\<lambda>rs. return_op (r # rs)))"

abbreviation client_calls :: "'n network \<Rightarrow> (u8 \<times> master_call) list \<Rightarrow> ('n tcp_stream, call_result list) operation" where
  "client_calls net \<equiv> run_calls (run_call net)"

abbreviation rtu_client_calls ::
    "'n network \<Rightarrow> (u8 \<times> master_call) list \<Rightarrow> ('n rtu_stream, call_result list) operation" where
  "rtu_client_calls net \<equiv> run_calls (run_rtu_call net)"

fun call_documented :: "master_call \<Rightarrow> bool" where
  "call_documented (Call_bytes c out) \<longleftrightarrow> reading_documented c out"
| "call_documented (Call_registers c out) \<longleftrightarrow> registers_documented c"
| "call_documented (Call_write c) \<longleftrightarrow> writing_documented c"

section \<open>The request of a call\<close>

fun reading_message :: "reading \<Rightarrow> u8 list \<Rightarrow> pdu_req" where
  "reading_message (reading.Read_coils address quantity) out =
     pdu_req.Read_coils \<lparr>rc_starting_address = address, rc_quantity_of_coils = quantity\<rparr>"
| "reading_message (reading.Read_discrete_inputs address quantity) out =
     pdu_req.Read_discrete_inputs \<lparr>rdi_starting_address = address, rdi_quantity_of_discrete_inputs = quantity\<rparr>"
| "reading_message (Read_registers address) out =
     Read_holding \<lparr>rh_starting_address = address, rh_quantity_of_registers = of_nat (length out div 2)\<rparr>"
| "reading_message (Read_input_registers address) out =
     Read_input \<lparr>ri_starting_address = address, ri_quantity_of_registers = of_nat (length out div 2)\<rparr>"

fun registers_message :: "register_call \<Rightarrow> nat \<Rightarrow> pdu_req" where
  "registers_message (Registers_uint16 address) n =
     Read_holding \<lparr>rh_starting_address = address, rh_quantity_of_registers = of_nat n\<rparr>"
| "registers_message (Input_registers_uint16 address) n =
     Read_input \<lparr>ri_starting_address = address, ri_quantity_of_registers = of_nat n\<rparr>"
| "registers_message (Read_write_registers address address' vals) n =
     Read_write_multiple_registers \<lparr>rwm_read_starting_address = address, rwm_read_quantity_of_registers = of_nat n,
       rwm_write_starting_address = address', rwm_write_quantity_of_registers = of_nat (length vals),
       rwm_write_byte_count = of_nat (length vals * 2), rwm_values = vals\<rparr>"

fun writing_message :: "writing \<Rightarrow> pdu_req" where
  "writing_message (writing.Write_single_coil address on) =
     pdu_req.Write_single_coil \<lparr>wsc_address = address, wsc_value = (if on then 0xFF00 else 0)\<rparr>"
| "writing_message (writing.Write_single_register address val) =
     pdu_req.Write_single_register \<lparr>wsr_address = address, wsr_value = val\<rparr>"
| "writing_message (writing.Write_multiple_coils address coils) =
     (let count = (length coils - 1) div 8 + 1 in
      pdu_req.Write_multiple_coils \<lparr>wmc_starting_address = address, wmc_quantity_of_coils = of_nat (length coils),
        wmc_byte_count = of_nat count, wmc_values = pack_values count coils\<rparr>)"
| "writing_message (writing.Write_multiple_registers address regs) =
     pdu_req.Write_multiple_registers \<lparr>wmr_starting_address = address, wmr_quantity_of_registers = of_nat (length regs),
       wmr_byte_count = of_nat (length regs * 2), wmr_values = regs\<rparr>"

fun call_message :: "master_call \<Rightarrow> pdu_req" where
  "call_message (Call_bytes c out) = reading_message c out"
| "call_message (Call_registers c out) = registers_message c (length out)"
| "call_message (Call_write c) = writing_message c"

lemma reading_message_bytes: "pdu_req_bytes (reading_message c out) = reading_request c out"
  by (cases c) (simp_all add: reading_request_def pdu_req_bytes_def encodings)

lemma registers_message_bytes: "pdu_req_bytes (registers_message c n) = registers_request c n"
  by (cases c) (simp_all add: pdu_req_bytes_def encodings)

lemma writing_message_bytes: "pdu_req_bytes (writing_message c) = writing_request c"
  by (cases c) (simp_all add: pdu_req_bytes_def encodings Let_def hi8_def lo8_def take_bit_eq_mod)

lemmas message_bytes = reading_message_bytes registers_message_bytes writing_message_bytes

lemma message_wf:
  "pdu_req_wf (reading_message c out)"
  "registers_documented r \<Longrightarrow> pdu_req_wf (registers_message r n)"
  "writing_documented w \<Longrightarrow> pdu_req_wf (writing_message w)"
proof -
  show "pdu_req_wf (reading_message c out)"
    by (cases c) simp_all
  have registers: "k \<le> 123 \<Longrightarrow> unat (of_nat (k * 2) :: u8) = k * 2" for k
    by (intro unat_of_nat_u8) simp
  have coils: "k \<le> 1968 \<Longrightarrow> unat (of_nat (Suc ((k - Suc 0) div 8)) :: u8) = Suc ((k - Suc 0) div 8)" for k
    by (intro unat_of_nat_u8) simp
  show "registers_documented r \<Longrightarrow> pdu_req_wf (registers_message r n)"
    using registers by (cases r) (simp_all add: request_wf_defs del: of_nat_mult)
  show "writing_documented w \<Longrightarrow> pdu_req_wf (writing_message w)"
    using registers
    by (cases w) (simp_all add: request_wf_defs Let_def pack_values_def del: of_nat_mult of_nat_Suc of_nat_add,
      metis coils)
qed

lemma call_message_wf:
  assumes "call_documented call"
  shows "pdu_req_wf (call_message call)" "length (pdu_req_bytes (call_message call)) \<le> 252"
  using assms registers_request_length writing_request_length
  by (cases call; simp add: message_wf message_bytes)+

section \<open>The result of a call\<close>

lemma writing_fc_normal [simp]: "writing_fc c AND 0x80 = 0"
  by (cases c) simp_all

fun call_answer :: "master_call \<Rightarrow> u8 list \<Rightarrow> call_result" where
  "call_answer (Call_bytes c out) bs =
     (case values_answer (reading_fc c) out bs of (ec, n, array, rest) \<Rightarrow>
        case read_result out ec n array of (ec, out) \<Rightarrow> Bytes_read ec out)"
| "call_answer (Call_registers c out) bs =
     (case values_answer (registers_fc c) (register_bytes out) bs of (ec, n, array, rest) \<Rightarrow>
        case registers_result c out (if failed ec then ec else make_error_code success) n array of (ec, out) \<Rightarrow>
          Registers_read ec out)"
| "call_answer (Call_write c) bs = Write_done (write_result (fst (echo_answer (writing_fc c) (writing_single c) bs)))"

lemma call_returns:
  assumes st: "tcp_at net p st" and call: "call_documented call"
    and exchange: "tcp_transaction net st slave (pdu_req_bytes (call_message call)) (m_next_layer st) = Return (Inr bs) n"
  shows "\<exists>st'. run_call net slave call st = Return (call_answer call bs) st' \<and> tcp_at net p st' \<and> m_next_layer st' = n"
proof (cases call)
  case (Call_bytes c out)
  then show ?thesis
    using exchange tcp_values.reading_agrees [OF st, of c out slave] call
    by (auto simp: reading_spec_def message_bytes reading_outcome_tcp agrees_Return bind_op_def split: prod.splits)
next
  case (Call_registers c out)
  then show ?thesis
    using exchange tcp_values.registers_agrees [OF st, of c slave out] call
    by (auto simp: registers_spec_def message_bytes tcp_verdict_def agrees_Return bind_op_def split: prod.splits)
next
  case (Call_write c)
  then show ?thesis
    using exchange tcp_writing_agrees [OF st, of c slave] call
    by (auto simp: writing_spec_def message_bytes writing_outcome_tcp agrees_Return bind_op_def)
qed

text \<open>On the serial line the checksum behind the bytes that were decoded decides, if it arrived.\<close>

fun rtu_call_answer :: "u8 \<Rightarrow> master_call \<Rightarrow> u8 list \<Rightarrow> call_result option" where
  "rtu_call_answer slave (Call_bytes c out) bs =
     (case values_answer (reading_fc c) out bs of (ec, n, array, rest) \<Rightarrow>
        map_option (\<lambda>ec. case read_result out ec n array of (ec, out) \<Rightarrow> Bytes_read ec out) (rtu_verdict slave bs ec rest))"
| "rtu_call_answer slave (Call_registers c out) bs =
     (case values_answer (registers_fc c) (register_bytes out) bs of (ec, n, array, rest) \<Rightarrow>
        map_option (\<lambda>ec. case registers_result c out ec n array of (ec, out) \<Rightarrow> Registers_read ec out)
          (rtu_verdict slave bs ec rest))"
| "rtu_call_answer slave (Call_write c) bs =
     (case echo_answer (writing_fc c) (writing_single c) bs of (ec, rest) \<Rightarrow>
        map_option (\<lambda>ec. Write_done (write_result ec)) (rtu_verdict slave bs ec rest))"

lemma rtu_call_returns:
  assumes st: "rtu_at net st" and call: "call_documented call"
    and exchange: "rtu_transaction net st slave (pdu_req_bytes (call_message call)) (rtu_next_layer st) = Return (Inr bs) n"
    and answer: "rtu_call_answer slave call bs = Some r"
  shows "\<exists>st'. run_rtu_call net slave call st = Return r st' \<and> rtu_at net st' \<and> rtu_next_layer st' = n"
proof (cases call)
  case (Call_bytes c out)
  obtain ec m array rest where "values_answer (reading_fc c) out bs = (ec, m, array, rest)"
    by (metis prod_cases4)
  then show ?thesis
    using exchange rtu_values.reading_agrees [OF st, of c out slave] call answer unfolding Call_bytes
    by (cases "rtu_verdict slave bs ec rest")
      (auto simp: reading_spec_def message_bytes reading_outcome_def agrees_Return bind_op_def split: prod.splits)
next
  case (Call_registers c out)
  obtain ec m array rest where "values_answer (registers_fc c) (register_bytes out) bs = (ec, m, array, rest)"
    by (metis prod_cases4)
  then show ?thesis
    using exchange rtu_values.registers_agrees [OF st, of c slave out] call answer unfolding Call_registers
    by (cases "rtu_verdict slave bs ec rest")
      (auto simp: registers_spec_def message_bytes agrees_Return bind_op_def split: prod.splits)
next
  case (Call_write c)
  obtain ec rest where "echo_answer (writing_fc c) (writing_single c) bs = (ec, rest)"
    by fastforce
  then show ?thesis
    using exchange rtu_writing_agrees [OF st, of c slave] call answer unfolding Call_write
    by (cases "rtu_verdict slave bs ec rest")
      (auto simp: writing_spec_def message_bytes writing_outcome_eq agrees_Return bind_op_def)
qed

section \<open>Calls that are refused\<close>

text \<open>The array of the caller keeps its values.\<close>

fun call_failed :: "master_call \<Rightarrow> error_code \<Rightarrow> call_result" where
  "call_failed (Call_bytes c out) ec = Bytes_read ec out"
| "call_failed (Call_registers c out) ec = Registers_read ec out"
| "call_failed (Call_write c) ec = Write_done ec"

lemma refused_results:
  assumes "failed ec"
  shows "read_result out ec n array = (ec, array)" "registers_result r regs ec n array = (ec, regs)" "write_result ec = ec"
  using assms by (simp_all add: read_result_def registers_result_def write_result_def Let_def)

lemma call_refused:
  assumes st: "tcp_at net p st" and call: "call_documented call" and ec: "failed ec"
    and exchange: "tcp_transaction net st slave (pdu_req_bytes (call_message call)) (m_next_layer st) = Return (Inl ec) n"
  shows "\<exists>st'. run_call net slave call st = Return (call_failed call ec) st' \<and> tcp_at net p st' \<and> m_next_layer st' = n"
proof (cases call)
  case (Call_bytes c out)
  then show ?thesis
    using exchange tcp_values.reading_agrees [OF st, of c out slave] call
    by (auto simp: reading_spec_def message_bytes refused_results [OF ec] agrees_Return bind_op_def)
next
  case (Call_registers c out)
  then show ?thesis
    using exchange tcp_values.registers_agrees [OF st, of c slave out] call
    by (auto simp: registers_spec_def message_bytes refused_results [OF ec] agrees_Return bind_op_def)
next
  case (Call_write c)
  then show ?thesis
    using exchange tcp_writing_agrees [OF st, of c slave] call
    by (auto simp: writing_spec_def message_bytes refused_results [OF ec] agrees_Return bind_op_def)
qed

lemma rtu_call_refused:
  assumes st: "rtu_at net st" and call: "call_documented call" and ec: "failed ec"
    and exchange: "rtu_transaction net st slave (pdu_req_bytes (call_message call)) (rtu_next_layer st) = Return (Inl ec) n"
  shows "\<exists>st'. run_rtu_call net slave call st = Return (call_failed call ec) st' \<and> rtu_at net st' \<and> rtu_next_layer st' = n"
proof (cases call)
  case (Call_bytes c out)
  then show ?thesis
    using exchange rtu_values.reading_agrees [OF st, of c out slave] call
    by (auto simp: reading_spec_def message_bytes refused_results [OF ec] agrees_Return bind_op_def)
next
  case (Call_registers c out)
  then show ?thesis
    using exchange rtu_values.registers_agrees [OF st, of c slave out] call
    by (auto simp: registers_spec_def message_bytes refused_results [OF ec] agrees_Return bind_op_def)
next
  case (Call_write c)
  then show ?thesis
    using exchange rtu_writing_agrees [OF st, of c slave] call
    by (auto simp: writing_spec_def message_bytes refused_results [OF ec] agrees_Return bind_op_def)
qed

section \<open>What a call does to the members of a stream\<close>

text \<open>An operation that returns has changed the member \<open>f\<close> of its state by \<open>k\<close>.\<close>

definition moves :: "('st \<Rightarrow> 'x) \<Rightarrow> ('x \<Rightarrow> 'x) \<Rightarrow> ('st, 'a) operation \<Rightarrow> bool" where
  "moves f k m \<longleftrightarrow> (\<forall>st r st'. m st = Return r st' \<longrightarrow> f st' = k (f st))"

named_theorems moves_intros

lemma moves_bind [moves_intros]: "moves f k m \<Longrightarrow> (\<And>x. moves f id (g x)) \<Longrightarrow> moves f k (bind_op m g)"
  unfolding moves_def bind_op_def by (auto split: result.splits)

lemma moves_steps [moves_intros]:
  "moves f id (return_op x)" "moves f k (\<lambda>_. Undefined)"
  "(\<And>x. moves f k (g x)) \<Longrightarrow> moves f k (construct_op c g)"
  "moves f k m \<Longrightarrow> moves f k (assert_op b m)"
  "moves f k m \<Longrightarrow> moves f k m' \<Longrightarrow> moves f k (if b then m else m')"
  "moves f k m \<Longrightarrow> (\<And>x. moves f k (g x)) \<Longrightarrow> moves f k (case c of None \<Rightarrow> m | Some x \<Rightarrow> g x)"
  by (auto simp: moves_def construct_op_def assert_op_def return_op_def split: option.splits)

lemma moves_case_prod [moves_intros]:
  "(\<And>x y. moves f k (h x y)) \<Longrightarrow> moves f k (case p of (x, y) \<Rightarrow> h x y)"
  by (cases p) simp

lemma moves_copy [moves_intros]: "moves f id (copy_registers buf n)"
  by (simp add: moves_def copy_registers_def)

lemma tcp_moves [moves_intros]:
  "moves m_transaction_id (\<lambda>t. t + 1) (tcp_write_request net slave wr)"
  "moves m_transaction_id id (tcp_read_response net tid slave fc rsp v)"
  by (auto simp: moves_def tcp_write_request_def tcp_read_response_def on_source_def Let_def
      split: option.splits result.splits if_splits prod.splits)

lemma rtu_moves [moves_intros]:
  "moves m_timeoutResponse id (rtu_write_request net slave wr)"
  "moves m_timeoutResponse id (rtu_read_response net tid slave fc rsp v)"
  by (auto simp: moves_def rtu_write_request_def rtu_read_response_def Let_def
      split: option.splits result.splits if_splits prod.splits)

lemmas reading_defs = read_coils_def read_discrete_inputs_def read_registers_def read_input_registers_def
  read_registers_uint16_def read_input_registers_uint16_def read_write_multiple_registers_def

lemmas writing_defs = write_single_coil_def write_single_register_def write_multiple_coils_def
  write_multiple_registers_def

lemma reading_moves:
  assumes "\<And>slave w. moves f k (wr slave w)" "\<And>tid slave fc rsp v. moves f id (rr tid slave fc rsp v)"
  shows "moves f k (run_reading wr rr slave c out)" "moves f k (run_registers wr rr slave r regs)"
proof -
  show "moves f k (run_reading wr rr slave c out)"
    by (cases c; simp only: run_reading.simps reading_defs Let_def) (intro moves_intros assms)+
  show "moves f k (run_registers wr rr slave r regs)"
    by (cases r; simp only: run_registers.simps reading_defs Let_def) (intro moves_intros assms)+
qed

lemma tcp_writing_moves: "moves m_transaction_id (\<lambda>t. t + 1) (tcp_writing net slave c)"
  by (cases c; simp only: tcp_writing.simps writing_defs Let_def) (intro moves_intros)+

lemma rtu_writing_moves: "moves m_timeoutResponse id (rtu_writing net slave c)"
  by (cases c; simp only: rtu_writing.simps writing_defs Let_def) (intro moves_intros)+

text \<open>A call over TCP takes the next transaction identifier, and a call on the serial line keeps the time-out.\<close>

lemma call_moves:
  "moves m_transaction_id (\<lambda>t. t + 1) (run_call net slave call)"
  "moves m_timeoutResponse id (run_rtu_call net' slave call)"
  by (cases call; simp only: run_call.simps; intro moves_intros reading_moves tcp_writing_moves)
    (cases call; simp only: run_rtu_call.simps; intro moves_intros reading_moves rtu_writing_moves)

end
