(* ===== verification/Example_Server.thy ===== *)
theory Example_Server
  imports Tcp_Server Moth_Util
begin

text \<open>
  Model of the servers under \<^verbatim>\<open>src/examples\<close>: the request handlers of \<^verbatim>\<open>tcpserver.cpp\<close>,
  \<^verbatim>\<open>tcpserver_coroutine.cpp\<close> and \<^verbatim>\<open>tcpserver_coroutine_with_data.cpp\<close>, and the coroutine
  \<^verbatim>\<open>handle_message\<close> the last two share, which reads one request after the other from a connection.

  The coroutine builds a stream on its socket and keeps a message buffer of its own; both use the same
  socket, which is the network state of the stream. The program has one thread that runs handlers, and
  the registers are only read inside the handler, between two suspension points. So the registers are an
  argument of a turn of the loop, and posted updates change them between turns.

  \<^verbatim>\<open>tcpserver_coroutine_with_data.cpp\<close> names \<^verbatim>\<open>slave\<close> where its class has \<^verbatim>\<open>unitID\<close>; the model takes the
  latter. \<^verbatim>\<open>tcpserver.cpp\<close> names the namespace \<^verbatim>\<open>moethbus\<close> and its visitor lacks overloads for eight of the
  request classes; the two overloads it has are modelled.
\<close>

section \<open>Request handlers\<close>

definition write_exception_response ::
    "'n network \<Rightarrow> function_code \<Rightarrow> modbus_exception_code \<Rightarrow> u16 \<Rightarrow> u8 \<Rightarrow> ('n tcp_stream, unit) operation" where
  "write_exception_response net fc ec transactionId unit_id =
     tcp_write_response net transactionId unit_id
       (pdu_exception_resp_write buffer_put \<lparr>exc_fc = fc, exceptionCode = ec\<rparr>)"

text \<open>\<^verbatim>\<open>reqest_handler::operator()\<close> of \<^verbatim>\<open>tcpserver_coroutine_with_data.cpp\<close>, for a read of holding
  registers and for every other request.\<close>

definition data_read_holding ::
    "'n network \<Rightarrow> endian \<Rightarrow> u16 list \<Rightarrow> u16 \<Rightarrow> u8 \<Rightarrow> read_holding_pdu_req \<Rightarrow> ('n tcp_stream, unit) operation" where
  "data_read_holding net native s_holding_registers transactionId unitID req st =
     (if \<not> (1 \<le> rh_quantity_of_registers req \<and> rh_quantity_of_registers req \<le> 125)
      then write_exception_response net fc_read_holding_registers illegal_data_value transactionId unitID st
      else if unat (rh_starting_address req) + unat (rh_quantity_of_registers req) > length s_holding_registers
      then write_exception_response net fc_read_holding_registers illegal_data_address transactionId unitID st
      else (case memcpy_msb native (replicate (unat (rh_quantity_of_registers req) * 2) 0)
                   (take (unat (rh_quantity_of_registers req))
                      (drop (unat (rh_starting_address req)) s_holding_registers)) of
              None \<Rightarrow> Assert_failed
            | Some regs \<Rightarrow>
                tcp_write_response net transactionId unitID
                  (read_holding_pdu_resp_write buffer_put (read_holding_pdu_resp_ctor (whole_span regs))) st))"

fun data_handler ::
    "'n network \<Rightarrow> endian \<Rightarrow> u16 list \<Rightarrow> u16 \<Rightarrow> u8 \<Rightarrow> pdu_req \<Rightarrow> ('n tcp_stream, unit) operation" where
  "data_handler net native regs transactionId unitID (Read_holding req) =
     data_read_holding net native regs transactionId unitID req"
| "data_handler net native regs transactionId unitID req =
     write_exception_response net (pdu_req_fc req) illegal_function transactionId unitID"

text \<open>\<^verbatim>\<open>reqest_handler::operator()\<close> of \<^verbatim>\<open>tcpserver_coroutine.cpp\<close>.\<close>

definition zero_read_holding ::
    "'n network \<Rightarrow> u16 \<Rightarrow> u8 \<Rightarrow> read_holding_pdu_req \<Rightarrow> ('n tcp_stream, unit) operation" where
  "zero_read_holding net transactionId unitID req st =
     (if \<not> (1 \<le> rh_quantity_of_registers req \<and> rh_quantity_of_registers req \<le> 125)
      then write_exception_response net fc_read_holding_registers illegal_data_value transactionId unitID st
      else let regs = replicate (unat (rh_quantity_of_registers req) * 2) 0
           in tcp_write_response net transactionId unitID
                (read_holding_pdu_resp_write buffer_put (read_holding_pdu_resp_ctor (whole_span regs))) st)"

fun zero_handler :: "'n network \<Rightarrow> unit \<Rightarrow> u16 \<Rightarrow> u8 \<Rightarrow> pdu_req \<Rightarrow> ('n tcp_stream, unit) operation" where
  "zero_handler net _ transactionId unitID (Read_holding req) =
     zero_read_holding net transactionId unitID req"
| "zero_handler net _ transactionId unitID req =
     write_exception_response net (pdu_req_fc req) illegal_function transactionId unitID"

text \<open>\<^verbatim>\<open>req_handler::operator()\<close> of \<^verbatim>\<open>tcpserver.cpp\<close>.\<close>

definition req_handler_not_implemented ::
    "'n network \<Rightarrow> u16 \<Rightarrow> u8 \<Rightarrow> not_implemented \<Rightarrow> ('n tcp_stream, unit) operation" where
  "req_handler_not_implemented net transactionId slave req =
     tcp_write_response net transactionId slave (pdu_exception_resp_write buffer_put
       \<lparr>exc_fc = fc_read_holding_registers, exceptionCode = illegal_function\<rparr>)"

definition req_handler_read_holding ::
    "'n network \<Rightarrow> u16 \<Rightarrow> u8 \<Rightarrow> read_holding_pdu_req \<Rightarrow> ('n tcp_stream, unit) operation" where
  "req_handler_read_holding net transactionId slave req st =
     (if slave \<noteq> 255
      then tcp_write_response net transactionId slave (pdu_exception_resp_write buffer_put
        \<lparr>exc_fc = fc_read_holding_registers, exceptionCode = gateway_path_unavailable\<rparr>) st
      else if rh_starting_address req = 100
      then let regs = replicate (unat (rh_quantity_of_registers req) * 2) 0
           in tcp_write_response net transactionId slave
                (read_holding_pdu_resp_write buffer_put (read_holding_pdu_resp_ctor (whole_span regs))) st
      else tcp_write_response net transactionId slave (pdu_exception_resp_write buffer_put
        \<lparr>exc_fc = fc_read_holding_registers, exceptionCode = illegal_data_address\<rparr>) st)"

section \<open>The coroutine\<close>

record 'n session =
  mothbus_stream :: "'n tcp_stream"
  session_buffer :: "u8 list"

definition session_start :: "'n \<Rightarrow> 'n session" where
  "session_start socket = \<lparr>mothbus_stream = tcp_stream_ctor socket, session_buffer = replicate 320 0\<rparr>"

text \<open>\<^verbatim>\<open>co_await boost::asio::async_read(socket, source.prepare(k), use_awaitable)\<close> throws the error of
  the transfer.\<close>

definition await_read :: "'n network \<Rightarrow> nat \<Rightarrow> (buffer \<times> 'n, nat) operation" where
  "await_read net k st = mothbus_read net (buffer_prepare (fst st) k) st"

definition await_header :: "nat \<Rightarrow> (buffer \<times> 'n, mbap_header) operation" where
  "await_header read_size st =
     (case parse_header (fst st) read_size of
        None \<Rightarrow> Undefined
      | Some (header, source) \<Rightarrow> Return header (source, snd st))"

text \<open>The condition in front of the body, with the precedence the language gives it: the negation
  belongs to the first comparison only.\<close>

definition refuses_length :: "u16 \<Rightarrow> bool" where
  "refuses_length messageLength \<longleftrightarrow> \<not> (1 + 1 + 0 \<le> messageLength) \<and> messageLength \<le> 1 + 253 + 0"

text \<open>The reading part of a turn: the header, and the outcome of parsing the body unless the length is
  refused.\<close>

definition read_message :: "'n network \<Rightarrow> (buffer \<times> 'n, mbap_header \<times> (error_code \<times> pdu_req) option) operation" where
  "read_message net =
     bind_op (await_read net 7) (\<lambda>read_size.
     bind_op (await_header read_size) (\<lambda>header.
     if refuses_length (hdr_length header) then return_op (header, None) else
     bind_op (await_read net (unat (hdr_length header) - 1)) (\<lambda>read_size.
     bind_op (lift_read (\<lambda>source. parse_body source read_size) pdu_req_init) (\<lambda>body.
     return_op (header, Some body)))))"

text \<open>An operation on the stream inside a turn that goes on.\<close>

definition on_stream :: "'n session \<Rightarrow> ('n tcp_stream, unit) operation \<Rightarrow> ('n session, bool) result" where
  "on_stream ses m =
     (case m (mothbus_stream ses) of
        Return _ stream \<Rightarrow> Return True (ses\<lparr>mothbus_stream := stream\<rparr>)
      | Throw ec stream \<Rightarrow> Throw ec (ses\<lparr>mothbus_stream := stream\<rparr>)
      | Assert_failed \<Rightarrow> Assert_failed
      | Undefined \<Rightarrow> Undefined)"

definition after_read :: "'n session \<Rightarrow> buffer \<times> 'n \<Rightarrow> 'n session" where
  "after_read ses st =
     ses\<lparr>mothbus_stream := (mothbus_stream ses)\<lparr>m_next_layer := snd st\<rparr>, session_buffer := message_buffer (fst st)\<rparr>"

text \<open>One turn of the loop; the result says whether the loop goes on.\<close>

definition message_turn ::
    "'n network \<Rightarrow> (u16 \<Rightarrow> u8 \<Rightarrow> pdu_req \<Rightarrow> ('n tcp_stream, unit) operation) \<Rightarrow> ('n session, bool) operation" where
  "message_turn net handler ses =
     (case read_message net (buffer_of (session_buffer ses), m_next_layer (mothbus_stream ses)) of
        Return (header, body) st \<Rightarrow>
          let ses = after_read ses st in
          (case body of
             None \<Rightarrow> on_stream ses
               (write_exception_response net 0 request_too_big (hdr_transaction_id header) (hdr_unit_id header))
           | Some (ec, request) \<Rightarrow>
               if failed ec then Return False ses
               else on_stream ses (handler (hdr_transaction_id header) (hdr_unit_id header) request))
      | Throw ec st \<Rightarrow> Throw ec (after_read ses st)
      | Assert_failed \<Rightarrow> Assert_failed
      | Undefined \<Rightarrow> Undefined)"

text \<open>The turn of \<^verbatim>\<open>tcpserver_coroutine.cpp\<close>, whose coroutine differs in the handler only.\<close>

definition zero_turn :: "'n network \<Rightarrow> ('n session, bool) operation" where
  "zero_turn net = message_turn net (zero_handler net ())"

text \<open>The first turns of the loop, one for each element of the list, which is what the handler reads in
  that turn.\<close>

fun handle_message ::
    "'n network \<Rightarrow> ('x \<Rightarrow> u16 \<Rightarrow> u8 \<Rightarrow> pdu_req \<Rightarrow> ('n tcp_stream, unit) operation) \<Rightarrow> 'x list \<Rightarrow>
     ('n session, bool) operation" where
  "handle_message net handler [] ses = Return True ses"
| "handle_message net handler (x # xs) ses =
     (case message_turn net (handler x) ses of
        Return True ses \<Rightarrow> handle_message net handler xs ses
      | r \<Rightarrow> r)"

text \<open>The update the second thread posts: a loop over all registers.\<close>

definition post_registers :: "int \<Rightarrow> u16 list \<Rightarrow> u16 list" where
  "post_registers i s_holding_registers =
     foldl (\<lambda>regs k. regs[k := word_of_int i]) s_holding_registers [0..<length s_holding_registers]"

end
