(* ===== verification/Example_Server_Laws.thy ===== *)
theory Example_Server_Laws
  imports Example_Server Master_Laws
begin

text \<open>
  What the example servers answer. \<open>register_reply\<close> and \<open>zero_reply\<close> say it as functions from the
  request to the PDU of the answer; the locale \<open>answering\<close> is the contract between the coroutine and
  its handler, interpreted for the handlers of both coroutine servers.
\<close>

section \<open>Answers\<close>

definition exception_pdu :: "function_code \<Rightarrow> modbus_exception_code \<Rightarrow> u8 list" where
  "exception_pdu fc ec = [fc OR 0x80, word_of_int ec]"

definition values_pdu :: "u8 list \<Rightarrow> u8 list" where
  "values_pdu vals = fc_read_holding_registers # of_nat (length vals) # vals"

fun register_reply :: "u16 list \<Rightarrow> pdu_req \<Rightarrow> u8 list" where
  "register_reply regs (Read_holding req) =
     (let a = unat (rh_starting_address req); q = unat (rh_quantity_of_registers req) in
      if q < 1 \<or> 125 < q then exception_pdu fc_read_holding_registers illegal_data_value
      else if length regs < a + q then exception_pdu fc_read_holding_registers illegal_data_address
      else values_pdu (be_bytes (take q (drop a regs))))"
| "register_reply regs req = exception_pdu (pdu_req_fc req) illegal_function"

fun zero_reply :: "unit \<Rightarrow> pdu_req \<Rightarrow> u8 list" where
  "zero_reply _ (Read_holding req) =
     (let q = unat (rh_quantity_of_registers req) in
      if q < 1 \<or> 125 < q then exception_pdu fc_read_holding_registers illegal_data_value
      else values_pdu (replicate (q * 2) 0))"
| "zero_reply _ req = exception_pdu (pdu_req_fc req) illegal_function"

text \<open>The stream after it has sent one PDU.\<close>

definition sent :: "'n network \<Rightarrow> u16 \<Rightarrow> u8 \<Rightarrow> u8 list \<Rightarrow> 'n tcp_stream \<Rightarrow> 'n tcp_stream" where
  "sent net tid unit_id pdu st =
     (let frame = mbap_frame tid (m_protocol st) unit_id pdu
      in st\<lparr>m_message_buffer := overwrite 0 frame (m_message_buffer st),
            m_next_layer := snd (net_write net frame (m_next_layer st))\<rparr>)"

lemma sent_simps [simp]:
  "m_protocol (sent net tid unit_id pdu st) = m_protocol st"
  "m_next_layer (sent net tid unit_id pdu st) =
     snd (net_write net (mbap_frame tid (m_protocol st) unit_id pdu) (m_next_layer st))"
  "length pdu \<le> 313 \<Longrightarrow> length (m_message_buffer st) = 320 \<Longrightarrow>
   length (m_message_buffer (sent net tid unit_id pdu st)) = 320"
  by (simp_all add: sent_def Let_def)

lemma write_exception_response_form:
  "length (m_message_buffer st) = 320 \<Longrightarrow>
   write_exception_response net fc ec tid unit_id st = Return () (sent net tid unit_id (exception_pdu fc ec) st)"
  by (simp add: write_exception_response_def pdu_exception_resp_write_form tcp_write_response_form sent_def
      exception_pdu_def Let_def)

lemma holding_response_form:
  "read_holding_pdu_resp_write buffer_put (read_holding_pdu_resp_ctor (whole_span vals)) =
     put_all buffer_put (values_pdu vals)"
  unfolding read_holding_pdu_resp_write_form values_ctors_eq values_ctor_over
  by (simp only: values_pdu_resp_body_def values_pdu_resp.simps span_elems_def whole_span_def byte_span.simps
      take_all order_refl values_pdu_def)

lemma write_values_form:
  "length (m_message_buffer st) = 320 \<Longrightarrow>
   tcp_write_response net tid unit_id
     (read_holding_pdu_resp_write buffer_put (read_holding_pdu_resp_ctor (whole_span vals))) st =
   (if length vals \<le> 311 then Return () (sent net tid unit_id (values_pdu vals) st) else Undefined)"
  by (simp add: holding_response_form tcp_write_response_form sent_def values_pdu_def Let_def)

lemma quantity_range: "1 \<le> (q :: u16) \<longleftrightarrow> 1 \<le> unat q" "q \<le> 125 \<longleftrightarrow> unat q \<le> 125"
  by (simp_all add: word_le_nat_alt)

section \<open>The contract of a handler\<close>

text \<open>A handler answers every request with one PDU, which fits the message buffer of the stream.\<close>

locale answering =
  fixes net :: "'n network"
    and handler :: "'x \<Rightarrow> u16 \<Rightarrow> u8 \<Rightarrow> pdu_req \<Rightarrow> ('n tcp_stream, unit) operation"
    and reply :: "'x \<Rightarrow> pdu_req \<Rightarrow> u8 list"
  assumes handler_answers: "length (m_message_buffer st) = 320 \<Longrightarrow>
      handler x tid unit_id v st = Return () (sent net tid unit_id (reply x v) st)"
    and reply_fits: "length (reply x v) \<le> 313"

lemma register_reply_length: "length (register_reply regs v) \<le> 313"
  by (cases v) (auto simp: exception_pdu_def values_pdu_def Let_def)

interpretation data: answering net "data_handler net native" register_reply for net native
proof unfold_locales
  fix st :: "'a tcp_stream" and regs tid unit_id v
  assume len: "length (m_message_buffer st) = 320"
  show "data_handler net native regs tid unit_id v st = Return () (sent net tid unit_id (register_reply regs v) st)"
  proof (cases v)
    case (Read_holding req)
    with len show ?thesis
      by (auto simp: data_read_holding_def write_exception_response_form write_values_form memcpy_msb_be_bytes
          quantity_range Let_def)
  qed (simp_all add: write_exception_response_form [OF len])
qed (rule register_reply_length)

interpretation zero: answering net "zero_handler net" zero_reply for net
proof unfold_locales
  fix st :: "'a tcp_stream" and x tid unit_id v
  assume len: "length (m_message_buffer st) = 320"
  show "zero_handler net x tid unit_id v st = Return () (sent net tid unit_id (zero_reply x v) st)"
  proof (cases v)
    case (Read_holding req)
    with len show ?thesis
      by (auto simp: zero_read_holding_def write_exception_response_form write_values_form quantity_range Let_def)
  qed (simp_all add: write_exception_response_form [OF len])
next
  fix x v
  show "length (zero_reply x v) \<le> 313"
    by (cases v) (auto simp: exception_pdu_def values_pdu_def Let_def)
qed

section \<open>Reading a message\<close>

lemma refuses_length_iff: "refuses_length len \<longleftrightarrow> unat len < 2"
  by (auto simp: refuses_length_def word_le_nat_alt)

lemma await_read_received:
  assumes "net_read net k n = (ec, bs, n')" "length bs \<le> k"
  shows "await_read net k (received mb e i, n) =
    (if length mb < e + length bs then Undefined
     else let source = (received mb e i)\<lparr>message_buffer := overwrite e bs mb\<rparr>
          in if failed ec then Throw ec (source, n') else Return (length bs) (source, n'))"
  using assms by (auto simp: await_read_def mothbus_read_def store_region_def buffer_prepare_def Let_def)

lemma await_header_received:
  "length h = 7 \<Longrightarrow> 7 \<le> length mb \<Longrightarrow>
   await_header 7 (received (overwrite 0 h mb) 0 0, n) = Return (header_of h) (received (overwrite 0 h mb) 7 7, n)"
  by (simp add: await_header_def parse_header_received)

lemma parse_body_received:
  assumes "length h = 7" "7 + length bs \<le> length mb"
  shows "parse_body (received (overwrite 0 (h @ bs) mb) 7 7) (length bs) v0 =
    (case read_pdu_req checked_read bs v0 of
       None \<Rightarrow> None
     | Some (ec, v, rest) \<Rightarrow>
         Some (ec, v, received (overwrite 0 (h @ bs) mb) (7 + length bs) (7 + length bs - length rest)))"
proof -
  have "buffer_commit (length bs) (received (overwrite 0 (h @ bs) mb) 7 7) =
      received (overwrite 0 (h @ bs) mb) (7 + length bs) 7"
    by (simp add: buffer_commit_def received_def)
  moreover have "take (7 + length bs - 7) (drop 7 (overwrite 0 (h @ bs) mb)) = bs"
    using assms by (simp add: overwrite_def)
  ultimately show ?thesis
    using read_received_case [OF _ _ reads_alike_pdu_req, of 7 "7 + length bs" "overwrite 0 (h @ bs) mb" v0] assms
    by (simp add: parse_body_def)
qed

text \<open>The reading part of a turn with the buffer abstracted away.\<close>

definition message_spec ::
    "'n network \<Rightarrow> u8 list \<Rightarrow> 'n \<Rightarrow> (u8 list \<times> 'n, mbap_header \<times> (error_code \<times> pdu_req) option) result" where
  "message_spec net mb n =
     (let (ec, h, n) = net_read net 7 n; header = header_of h in
      if failed ec then Throw ec (overwrite 0 h mb, n)
      else if unat (hdr_length header) < 2 then Return (header, None) (overwrite 0 h mb, n)
      else let (ec, bs, n) = net_read net (unat (hdr_length header) - 1) n in
        if length mb < 7 + length bs then Undefined
        else if failed ec then Throw ec (overwrite 0 (h @ bs) mb, n)
        else (case read_pdu_req checked_read bs pdu_req_init of
            None \<Rightarrow> Undefined
          | Some (ec, v, _) \<Rightarrow> Return (header, Some (ec, v)) (overwrite 0 (h @ bs) mb, n)))"

fun forget_buffer :: "(buffer \<times> 'n, 'a) result \<Rightarrow> (u8 list \<times> 'n, 'a) result" where
  "forget_buffer (Return x (source, n)) = Return x (message_buffer source, n)"
| "forget_buffer (Throw ec (source, n)) = Throw ec (message_buffer source, n)"
| "forget_buffer Assert_failed = Assert_failed"
| "forget_buffer Undefined = Undefined"

lemma read_message_refines:
  assumes net: "asio_contract net" and len: "7 \<le> length mb"
  shows "forget_buffer (read_message net (buffer_of mb, n)) = message_spec net mb n"
proof -
  obtain ec h n1 where h: "net_read net 7 n = (ec, h, n1)"
    by (metis prod_cases3)
  have hl: "length h \<le> 7" "\<not> failed ec \<Longrightarrow> length h = 7"
    using asio_read_bound [OF net h] asio_read_length [OF net h] by auto
  let ?k = "unat (hdr_length (header_of h)) - 1"
  obtain ec2 bs n2 where b: "net_read net ?k n1 = (ec2, bs, n2)"
    by (metis prod_cases3)
  have bl: "length bs \<le> ?k"
    by (rule asio_read_bound [OF net b])
  note forms = read_message_def buffer_of_received bind_op_def message_spec_def h b Let_def
    await_read_received [OF h hl(1)] refuses_length_iff received_update
  show ?thesis
  proof (cases "failed ec")
    case True
    then show ?thesis using hl len by (simp add: forms)
  next
    case ok: False
    have over: "7 + length bs \<le> length mb \<Longrightarrow> overwrite 7 bs (overwrite 0 h mb) = overwrite 0 (h @ bs) mb"
      using overwrite_overwrite [of h bs mb] hl(2) [OF ok] by simp
    have lh: "length (overwrite 0 h mb) = length mb"
      using hl len by simp
    show ?thesis
      using ok hl len over lh parse_body_received [OF hl(2) [OF ok], of bs mb pdu_req_init]
      by (auto simp: forms await_header_received await_read_received [OF b bl] lift_read_def
          simp del: One_nat_def split: option.splits)
  qed
qed

section \<open>Turns of the loop\<close>

definition session_ok :: "'n session \<Rightarrow> bool" where
  "session_ok ses \<longleftrightarrow> length (session_buffer ses) = 320 \<and> length (m_message_buffer (mothbus_stream ses)) = 320"

definition seen :: "'n session \<Rightarrow> u8 list \<times> 'n \<Rightarrow> 'n session" where
  "seen ses st = ses\<lparr>mothbus_stream := (mothbus_stream ses)\<lparr>m_next_layer := snd st\<rparr>, session_buffer := fst st\<rparr>"

definition answered :: "'n network \<Rightarrow> mbap_header \<Rightarrow> u8 list \<Rightarrow> 'n session \<Rightarrow> 'n session" where
  "answered net header pdu ses =
     ses\<lparr>mothbus_stream := sent net (hdr_transaction_id header) (hdr_unit_id header) pdu (mothbus_stream ses)\<rparr>"

text \<open>A turn with both buffers abstracted away: what is read, and what is sent for it.\<close>

definition turn_spec :: "'n network \<Rightarrow> (pdu_req \<Rightarrow> u8 list) \<Rightarrow> ('n session, bool) operation" where
  "turn_spec net reply ses =
     (case message_spec net (session_buffer ses) (m_next_layer (mothbus_stream ses)) of
        Return (header, None) st \<Rightarrow> Return True (answered net header (exception_pdu 0 request_too_big) (seen ses st))
      | Return (header, Some (ec, v)) st \<Rightarrow>
          if failed ec then Return False (seen ses st)
          else Return True (answered net header (reply v) (seen ses st))
      | Throw ec st \<Rightarrow> Throw ec (seen ses st)
      | Assert_failed \<Rightarrow> Assert_failed
      | Undefined \<Rightarrow> Undefined)"

lemma session_ok_start [simp]: "session_ok (session_start socket)"
  by (simp add: session_ok_def session_start_def tcp_stream_ctor_def)

lemma seen_simps [simp]:
  "session_buffer (seen ses st) = fst st"
  "mothbus_stream (seen ses st) = (mothbus_stream ses)\<lparr>m_next_layer := snd st\<rparr>"
  by (simp_all add: seen_def)

lemma answered_simps [simp]:
  "session_buffer (answered net header pdu ses) = session_buffer ses"
  "mothbus_stream (answered net header pdu ses) =
     sent net (hdr_transaction_id header) (hdr_unit_id header) pdu (mothbus_stream ses)"
  by (simp_all add: answered_def)

lemma session_ok_seen: "session_ok ses \<Longrightarrow> length (fst st) = 320 \<Longrightarrow> session_ok (seen ses st)"
  by (simp add: session_ok_def)

lemma session_ok_answered: "session_ok ses \<Longrightarrow> length pdu \<le> 313 \<Longrightarrow> session_ok (answered net header pdu ses)"
  by (simp add: session_ok_def)

lemma message_spec_buffer:
  assumes "asio_contract net" "length mb = 320"
  shows "message_spec net mb n = Return x st \<Longrightarrow> length (fst st) = 320"
    and "message_spec net mb n = Throw ec st \<Longrightarrow> failed ec \<and> length (fst st) = 320"
    and "message_spec net mb n \<noteq> Assert_failed"
proof -
  obtain ec h n1 where h: "net_read net 7 n = (ec, h, n1)"
    by (metis prod_cases3)
  have "length h \<le> 7"
    by (rule asio_read_bound [OF assms(1) h])
  then have hl: "length (overwrite 0 h mb) = 320"
    using assms(2) by simp
  have hb: "\<not> failed ec \<Longrightarrow> 7 + length bs \<le> 320 \<Longrightarrow> length (overwrite 0 (h @ bs) mb) = 320" for bs
    using asio_read_length [OF assms(1) h] assms(2) by simp
  note defs = message_spec_def h Let_def assms(2)
  show "message_spec net mb n = Return x st \<Longrightarrow> length (fst st) = 320"
    using hl hb by (auto simp: defs split: if_splits prod.splits option.splits)
  show "message_spec net mb n = Throw ec' st \<Longrightarrow> failed ec' \<and> length (fst st) = 320" for ec'
    using hl hb by (auto simp: defs split: if_splits prod.splits option.splits)
  show "message_spec net mb n \<noteq> Assert_failed"
    by (auto simp: defs split: prod.splits option.splits)
qed

lemma forget_buffer_cases:
  "forget_buffer r = Return x (mb, n) \<Longrightarrow> \<exists>source. r = Return x (source, n) \<and> message_buffer source = mb"
  "forget_buffer r = Throw ec (mb, n) \<Longrightarrow> \<exists>source. r = Throw ec (source, n) \<and> message_buffer source = mb"
  "forget_buffer r = Assert_failed \<Longrightarrow> r = Assert_failed"
  "forget_buffer r = Undefined \<Longrightarrow> r = Undefined"
  by (cases r rule: forget_buffer.cases; simp)+

lemma after_read_seen: "message_buffer source = mb \<Longrightarrow> after_read ses (source, n) = seen ses (mb, n)"
  by (simp add: after_read_def seen_def)

text \<open>An alternating exchange: a frame is received, then the answer is written.\<close>

fun conversation :: "'n network \<Rightarrow> (u8 list \<times> u8 list) list \<Rightarrow> 'n \<Rightarrow> 'n \<Rightarrow> bool" where
  "conversation net [] n n' \<longleftrightarrow> n' = n"
| "conversation net ((frame, answer) # xs) n n' \<longleftrightarrow>
     (\<exists>n1. receives_frame net n frame n1 \<and> conversation net xs (snd (net_write net answer n1)) n')"

definition request_answer ::
    "u16 \<Rightarrow> ('x \<Rightarrow> pdu_req \<Rightarrow> u8 list) \<Rightarrow> 'x \<Rightarrow> u16 \<times> u16 \<times> u8 \<times> pdu_req \<Rightarrow> u8 list \<times> u8 list" where
  "request_answer own_proto reply x req =
     (case req of (tid, proto, unit_id, v) \<Rightarrow>
        (mbap_frame tid proto unit_id (pdu_req_bytes v), mbap_frame tid own_proto unit_id (reply x v)))"

context answering
begin

lemma turn_refines:
  assumes net: "asio_contract net" and ok: "session_ok ses"
  shows "message_turn net (handler x) ses = turn_spec net (reply x) ses"
proof -
  let ?mb = "session_buffer ses" and ?n = "m_next_layer (mothbus_stream ses)"
  have "7 \<le> length ?mb" using ok by (simp add: session_ok_def)
  note read = read_message_refines [OF net this, of ?n]
  show ?thesis
  proof (cases "message_spec net ?mb ?n")
    case (Return hb st)
    obtain header body mb n where hb: "hb = (header, body)" "st = (mb, n)"
      by (metis surj_pair)
    obtain source where src: "read_message net (buffer_of ?mb, ?n) = Return hb (source, n)" "message_buffer source = mb"
      using forget_buffer_cases(1) [OF read [unfolded Return hb(2)]] by blast
    have "length (m_message_buffer (mothbus_stream (seen ses (mb, n)))) = 320"
      using ok by (simp add: session_ok_def)
    note send = handler_answers [OF this] write_exception_response_form [OF this]
    show ?thesis
      using src send
      by (auto simp: message_turn_def turn_spec_def Return hb after_read_seen on_stream_def answered_def Let_def
          split: option.splits)
  next
    case (Throw ec st)
    with read forget_buffer_cases(2) [of "read_message net (buffer_of ?mb, ?n)" ec "fst st" "snd st"] show ?thesis
      by (auto simp: message_turn_def turn_spec_def after_read_seen)
  next
    case Assert_failed
    then have "read_message net (buffer_of ?mb, ?n) = Assert_failed"
      using read by (intro forget_buffer_cases(3)) simp
    with Assert_failed show ?thesis
      by (simp add: message_turn_def turn_spec_def)
  next
    case Undefined
    then have "read_message net (buffer_of ?mb, ?n) = Undefined"
      using read by (intro forget_buffer_cases(4)) simp
    with Undefined show ?thesis
      by (simp add: message_turn_def turn_spec_def)
  qed
qed

lemma turn_session_ok:
  assumes "asio_contract net" "session_ok ses"
  shows "message_turn net (handler x) ses = Return go ses' \<Longrightarrow> session_ok ses'"
    and "message_turn net (handler x) ses = Throw ec ses' \<Longrightarrow> failed ec \<and> session_ok ses'"
    and "message_turn net (handler x) ses \<noteq> Assert_failed"
proof -
  have mb: "length (session_buffer ses) = 320"
    using assms(2) by (simp add: session_ok_def)
  note spec = turn_refines [OF assms] turn_spec_def
  note keep = message_spec_buffer [OF assms(1) mb]
  have sizes: "length (exception_pdu fc ec) \<le> 313" for fc ec
    by (simp add: exception_pdu_def)
  show "message_turn net (handler x) ses = Return go ses' \<Longrightarrow> session_ok ses'"
    by (auto simp: spec reply_fits sizes split: result.splits option.splits if_splits dest!: keep(1)
        intro!: session_ok_answered session_ok_seen [OF assms(2)])
  show "message_turn net (handler x) ses = Throw ec ses' \<Longrightarrow> failed ec \<and> session_ok ses'"
    by (auto simp: spec split: result.splits option.splits if_splits dest!: keep(2)
        intro!: session_ok_seen [OF assms(2)])
  show "message_turn net (handler x) ses \<noteq> Assert_failed"
    using keep(3) by (auto simp: spec split: result.splits option.splits)
qed

text \<open>A complete frame with a request is answered.\<close>

lemma turn_answers:
  assumes net: "asio_contract net" and ok: "session_ok ses"
    and v: "pdu_req_wf v" "pdu = pdu_req_bytes v @ rest" "length pdu \<le> 253"
    and frame: "receives_frame net (m_next_layer (mothbus_stream ses)) (mbap_frame tid proto unit_id pdu) n"
  shows "message_turn net (handler x) ses = Return True
    (answered net (header_of (take 7 (mbap_frame tid proto unit_id pdu))) (reply x v)
      (seen ses (overwrite 0 (mbap_frame tid proto unit_id pdu) (session_buffer ses), n)))"
proof -
  have len: "unat (of_nat (1 + length pdu) :: u16) = 1 + length pdu" and ge: "1 \<le> length pdu"
    using v(3) by (simp_all only: unat_of_nat_u16) (simp_all add: v(2) pdu_req_bytes_def)
  obtain ec1 n1 ec2 where r: "net_read net 7 (m_next_layer (mothbus_stream ses)) = (ec1, take 7 (mbap_frame tid proto unit_id pdu), n1)"
      "\<not> failed ec1" "net_read net (length pdu) n1 = (ec2, pdu, n)" "\<not> failed ec2"
    using frame by (auto simp: receives_frame_def mbap_frame_parts(2) split: prod.splits)
  have "unat (hdr_length (header_of (take 7 (mbap_frame tid proto unit_id pdu)))) = 1 + length pdu"
    using len by (simp only: header_of_frame mbap_header.simps)
  then have "message_spec net (session_buffer ses) (m_next_layer (mothbus_stream ses)) =
      Return (header_of (take 7 (mbap_frame tid proto unit_id pdu)), Some (no_error, v))
        (overwrite 0 (mbap_frame tid proto unit_id pdu) (session_buffer ses), n)"
    using ok r ge v(3) read_pdu_req_bytes [OF v(1), of checked_end rest pdu_req_init, folded v(2)]
    by (auto simp: message_spec_def mbap_frame_parts(3) session_ok_def Let_def)
  then show ?thesis
    unfolding turn_refines [OF net ok] turn_spec_def by simp
qed

text \<open>Requests that wait in the connection one behind the other are answered in their order, each with
  what the handler read in its turn.\<close>

lemma handle_message_answers:
  assumes net: "asio_contract net"
  shows "session_ok ses \<Longrightarrow> length xs = length reqs \<Longrightarrow>
    \<forall>(tid, proto, unit_id, v) \<in> set reqs. pdu_req_wf v \<and> length (pdu_req_bytes v) \<le> 253 \<Longrightarrow>
    conversation net (map2 (request_answer (m_protocol (mothbus_stream ses)) reply) xs reqs)
      (m_next_layer (mothbus_stream ses)) n' \<Longrightarrow>
    \<exists>ses'. handle_message net handler xs ses = Return True ses' \<and> session_ok ses' \<and>
      m_next_layer (mothbus_stream ses') = n'"
proof (induction xs arbitrary: ses reqs)
  case Nil
  then show ?case by simp
next
  case (Cons x xs)
  then obtain tid proto unit_id v reqs' where reqs: "reqs = (tid, proto, unit_id, v) # reqs'"
    by (metis length_Suc_conv prod_cases4)
  let ?frame = "mbap_frame tid proto unit_id (pdu_req_bytes v)"
  let ?answer = "mbap_frame tid (m_protocol (mothbus_stream ses)) unit_id (reply x v)"
  obtain n1 where n1: "receives_frame net (m_next_layer (mothbus_stream ses)) ?frame n1"
      "conversation net (map2 (request_answer (m_protocol (mothbus_stream ses)) reply) xs reqs')
        (snd (net_write net ?answer n1)) n'"
    using Cons.prems(4) by (auto simp: reqs request_answer_def)
  have v: "pdu_req_wf v" "length (pdu_req_bytes v) \<le> 253"
    using Cons.prems(3) by (auto simp: reqs)
  let ?ses = "answered net (header_of (take 7 ?frame)) (reply x v)
      (seen ses (overwrite 0 ?frame (session_buffer ses), n1))"
  have turn: "message_turn net (handler x) ses = Return True ?ses"
    using turn_answers [OF net Cons.prems(1) v(1) _ v(2) n1(1), of "[]"] by simp
  moreover have "session_ok ?ses"
    by (rule turn_session_ok(1) [OF net Cons.prems(1) turn])
  ultimately show ?case
    using Cons.IH [of ?ses reqs'] Cons.prems(2,3) n1(2) by (simp add: reqs header_of_frame)
qed

end

text \<open>Over the concrete connection the conversation is what waits in it and what is written to it.\<close>

lemma wire_receives:
  "7 \<le> length frame \<Longrightarrow> incoming w = frame @ rest \<Longrightarrow> receives_frame wire_net w frame (w\<lparr>incoming := rest\<rparr>)"
  by (simp add: receives_frame_def wire_read_def)

lemma wire_conversation:
  "\<forall>(frame, answer) \<in> set xs. 7 \<le> length frame \<Longrightarrow> incoming w = concat (map fst xs) @ rest \<Longrightarrow>
   conversation wire_net xs w (w\<lparr>incoming := rest, outgoing := outgoing w @ concat (map snd xs)\<rparr>)"
proof (induction xs arbitrary: w)
  case Nil
  then show ?case by simp
next
  case (Cons x xs)
  obtain frame answer where x: "x = (frame, answer)"
    by (cases x)
  let ?rest = "concat (map fst xs) @ rest"
  have "receives_frame wire_net w frame (w\<lparr>incoming := ?rest\<rparr>)"
    using Cons.prems by (intro wire_receives) (auto simp: x)
  moreover have "conversation wire_net xs (w\<lparr>incoming := ?rest, outgoing := outgoing w @ answer\<rparr>)
      (w\<lparr>incoming := rest, outgoing := (outgoing w @ answer) @ concat (map snd xs)\<rparr>)"
    using Cons.IH [of "w\<lparr>incoming := ?rest, outgoing := outgoing w @ answer\<rparr>"] Cons.prems(1) by simp
  ultimately show ?case
    by (auto simp: x)
qed

lemma wire_requests:
  assumes "length xs = length reqs"
    and "incoming w = concat (map (\<lambda>(tid, proto, unit_id, v). mbap_frame tid proto unit_id (pdu_req_bytes v)) reqs) @ rest"
  shows "conversation wire_net (map2 (request_answer own_proto reply) xs reqs) w
    \<lparr>incoming = rest, outgoing = outgoing w @ concat (map2 (\<lambda>x (tid, proto, unit_id, v).
       mbap_frame tid own_proto unit_id (reply x v)) xs reqs)\<rparr>"
proof -
  let ?ys = "map2 (request_answer own_proto reply) xs reqs"
  have fst: "map fst ?ys = map (\<lambda>(tid, proto, unit_id, v). mbap_frame tid proto unit_id (pdu_req_bytes v)) reqs"
    using assms(1) by (auto simp: request_answer_def list_eq_iff_nth_eq split: prod.splits)
  have snd: "map snd ?ys = map2 (\<lambda>x (tid, proto, unit_id, v). mbap_frame tid own_proto unit_id (reply x v)) xs reqs"
    by (auto simp: request_answer_def split: prod.splits)
  have "\<forall>(frame, answer) \<in> set ?ys. 7 \<le> length frame"
    by (auto simp: request_answer_def)
  then have "conversation wire_net ?ys w (w\<lparr>incoming := rest, outgoing := outgoing w @ concat (map snd ?ys)\<rparr>)"
    by (rule wire_conversation) (simp only: fst assms(2))
  then show ?thesis
    unfolding snd by (cases w) simp
qed

text \<open>What the server writes for the read of holding registers that a master sends.\<close>

lemma wire_turn_output:
  assumes "session_ok ses" "m_next_layer (mothbus_stream ses) = \<lparr>incoming = mbap_frame tid proto unit_id
      [fc_read_holding_registers, hi8 a, lo8 a, hi8 q, lo8 q], outgoing = []\<rparr>"
    and "message_turn wire_net (data_handler wire_net native regs) ses = Return go ses'"
  shows "outgoing (m_next_layer (mothbus_stream ses')) = mbap_frame tid (m_protocol (mothbus_stream ses)) unit_id
    (register_reply regs (Read_holding \<lparr>rh_starting_address = a, rh_quantity_of_registers = q\<rparr>))"
proof -
  let ?v = "Read_holding \<lparr>rh_starting_address = a, rh_quantity_of_registers = q\<rparr>"
  have bytes: "[fc_read_holding_registers, hi8 a, lo8 a, hi8 q, lo8 q] = pdu_req_bytes ?v @ []"
    by (simp add: pdu_req_bytes_def encodings)
  have "receives_frame wire_net (m_next_layer (mothbus_stream ses))
      (mbap_frame tid proto unit_id [fc_read_holding_registers, hi8 a, lo8 a, hi8 q, lo8 q])
      ((m_next_layer (mothbus_stream ses))\<lparr>incoming := []\<rparr>)"
    using assms(2) by (intro wire_receives) simp_all
  from data.turn_answers [OF wire_contract assms(1) _ bytes _ this, of native regs] assms(2,3) show ?thesis
    by (auto simp: header_of_frame)
qed

section \<open>Posted updates\<close>

lemma post_registers_eq: "post_registers i regs = replicate (length regs) (word_of_int i)"
proof -
  have "foldl (\<lambda>regs k. regs[k := word_of_int i]) regs [0..<k] = replicate k (word_of_int i) @ drop k regs"
    if "k \<le> length regs" for k
    using that
  proof (induction k)
    case 0
    then show ?case by simp
  next
    case (Suc k)
    then show ?case
      by (simp add: list_update_append Cons_nth_drop_Suc [symmetric] replicate_append_same)
  qed
  from this [of "length regs"] show ?thesis
    by (simp add: post_registers_def)
qed

lemma posted_registers:
  "fold post_registers posted (replicate m v) = replicate m (last (v # map word_of_int posted))"
proof (induction posted arbitrary: v)
  case Nil
  then show ?case by simp
next
  case (Cons i posted)
  then show ?case by (simp add: post_registers_eq)
qed

text \<open>The body of a message that is longer than the rest of the buffer.\<close>

definition body_overflows :: "'n network \<Rightarrow> 'n \<Rightarrow> bool" where
  "body_overflows net n \<longleftrightarrow>
     (let (ec, h, n) = net_read net 7 n; len = unat (hdr_length (header_of h));
          (_, bs, _) = net_read net (len - 1) n
      in \<not> failed ec \<and> 2 \<le> len \<and> 313 < length bs)"

lemma turn_undefined_iff:
  assumes "answering net handler reply" "asio_contract net" "session_ok ses"
  shows "message_turn net (handler x) ses = Undefined \<longleftrightarrow> body_overflows net (m_next_layer (mothbus_stream ses))"
proof -
  have some: "(read_pdu_req checked_read bs v = None) = False" for bs v
    by (cases rule: read_pdu_req_cases [of bs v]) simp_all
  have "length (session_buffer ses) = 320"
    using assms(3) by (simp add: session_ok_def)
  then show ?thesis
    unfolding answering.turn_refines [OF assms] turn_spec_def
    by (auto simp: some message_spec_def body_overflows_def Let_def split: prod.splits option.splits)
qed

section \<open>Properties\<close>

text \<open>C23. A turn of \<^verbatim>\<open>handle_message\<close> of the coroutine servers does what \<open>turn_spec\<close> says, on every network
  layer and in every state of the connection: it reads a header and, unless the length in it is below 2, a
  body; it sends one frame back with the transaction identifier and unit of the header, whose PDU is given
  by \<open>register_reply\<close> (the values, most significant byte first, for 1 to 125 registers inside the data, and
  the exceptions 3, 2 and 1 for a bad quantity, a bad address and any other request) or, for the server
  without data, by \<open>zero_reply\<close>; it ends the connection without an answer when the body is not a request,
  and throws what the transfer reports.\<close>

theorem coroutine_servers_refinement:
  assumes "asio_contract net" "session_ok ses"
  shows "message_turn net (data_handler net native regs) ses = turn_spec net (register_reply regs) ses
    \<and> zero_turn net ses = turn_spec net (zero_reply ()) ses"
  unfolding zero_turn_def using data.turn_refines [OF assms] zero.turn_refines [OF assms] by blast

theorem coroutine_servers_refinement_witness:
  "message_turn wire_net (data_handler wire_net little [7]) (session_start \<lparr>incoming = [], outgoing = []\<rparr>) =
   turn_spec wire_net (register_reply [7]) (session_start \<lparr>incoming = [], outgoing = []\<rparr>)"
  using coroutine_servers_refinement [OF wire_contract session_ok_start] by blast

text \<open>Requests that a client sends one behind the other without waiting are answered in their order by
  the server with data, one answer each, and each answer shows the registers as they are in the turn that
  handles the request, whatever updates are posted between the turns.\<close>

lemma data_server_pipeline:
  assumes "session_ok ses" "length regss = length reqs"
    and "\<forall>(tid, proto, unit_id, v) \<in> set reqs. pdu_req_wf v \<and> length (pdu_req_bytes v) \<le> 253"
    and "m_next_layer (mothbus_stream ses) =
      \<lparr>incoming = concat (map (\<lambda>(tid, proto, unit_id, v). mbap_frame tid proto unit_id (pdu_req_bytes v)) reqs) @ rest,
       outgoing = out\<rparr>"
  shows "\<exists>ses'. handle_message wire_net (data_handler wire_net native) regss ses = Return True ses'
    \<and> m_next_layer (mothbus_stream ses') =
      \<lparr>incoming = rest, outgoing = out @ concat (map2 (\<lambda>regs (tid, proto, unit_id, v).
         mbap_frame tid (m_protocol (mothbus_stream ses)) unit_id (register_reply regs v)) regss reqs)\<rparr>"
  using data.handle_message_answers [OF wire_contract assms(1-3) wire_requests [OF assms(2), where rest = rest],
      where native = native] assms(4)
  by auto

text \<open>The limit the servers put on the length of a message has no effect, because the negation covers
  the lower bound only: a turn writes behind the 320 bytes of the message buffer exactly when a header
  announces, and the network delivers, a body of more than 313 bytes. In every other case both buffers
  keep their size and no assertion fails.\<close>

lemma data_server_overflow:
  assumes "asio_contract net" "session_ok ses"
  shows "if body_overflows net (m_next_layer (mothbus_stream ses))
    then message_turn net (data_handler net native regs) ses = Undefined
    else well_behaved session_ok (message_turn net (data_handler net native regs) ses)"
  using turn_undefined_iff [OF data.answering_axioms assms, of native regs]
    data.turn_session_ok [OF assms, of native regs]
  by (cases "message_turn net (data_handler net native regs) ses") auto

text \<open>The updates posted by the second thread are never seen half done: whatever values have been posted,
  a read of registers inside the data is answered with one value, the last one posted (0 before the first),
  in all the registers asked for.\<close>

lemma data_server_snapshot:
  assumes "length (m_message_buffer st) = 320" "regs = fold post_registers posted (replicate 200 0)"
    and "1 \<le> q" "q \<le> 125" "unat a + q \<le> 200"
  shows "data_handler net native regs tid unit_id
      (Read_holding \<lparr>rh_starting_address = a, rh_quantity_of_registers = of_nat q\<rparr>) st =
    Return () (sent net tid unit_id
      (values_pdu (be_bytes (replicate q (last (0 # map word_of_int posted))))) st)"
proof -
  have "unat (of_nat q :: u16) = q" "min (200 - unat a) q = q"
    using assms(4,5) by auto
  then show ?thesis
    using assms(3-5) by (subst data.handler_answers [OF assms(1)]) (simp add: assms(2) posted_registers)
qed

text \<open>\<^verbatim>\<open>tcpserver.cpp\<close> does not check the quantity of registers: a read from its register 100 by unit 255
  writes behind the message buffer of the stream exactly when more than 155 registers are asked for.
  Every other read of holding registers is answered with one frame.\<close>

lemma simple_server_overflow:
  assumes "length (m_message_buffer st) = 320"
  shows "req_handler_read_holding net tid slave req st =
    (if slave = 255 \<and> rh_starting_address req = 100
     then if unat (rh_quantity_of_registers req) \<le> 155
       then Return () (sent net tid slave (values_pdu (replicate (unat (rh_quantity_of_registers req) * 2) 0)) st)
       else Undefined
     else Return () (sent net tid slave (exception_pdu fc_read_holding_registers
       (if slave = 255 then illegal_data_address else gateway_path_unavailable)) st))"
  using assms
  by (simp add: req_handler_read_holding_def write_values_form Let_def
      write_exception_response_form [unfolded write_exception_response_def])

end
