(* ===== verification/Accept_Loop.thy ===== *)
theory Accept_Loop
  imports Moth_Prelude
begin

text \<open>
  What the example servers have in common: an accept loop that starts a connection for every accepted
  socket, connections that react to the completion of their transfers, and data that all connections
  read. One thread runs all handlers, so an execution is a sequence of events, each handled to its end.
  How a connection starts and reacts, and what a posted handler does to the shared data, are arguments;
  the servers of \<^verbatim>\<open>src/examples\<close> supply them. A reaction that is undefined behaviour is \<open>None\<close>, and then the
  program as a whole has no further meaning.
\<close>

record ('x, 'c) server =
  srv_env :: 'x
  srv_connections :: "'c list"
  srv_accepting :: bool
  srv_running :: bool

text \<open>A socket is accepted or the acceptor fails, a transfer of connection \<open>i\<close> completes with a result,
  a posted handler is run, or the loop of handlers is stopped.\<close>

datatype ('s, 'e) server_event =
    Accepted 's
  | Accept_failed
  | Completed nat 'e
  | Posted
  | Stopped

definition accept_start :: "'x \<Rightarrow> ('x, 'c) server" where
  "accept_start x = \<lparr>srv_env = x, srv_connections = [], srv_accepting = True, srv_running = True\<rparr>"

fun run_handler ::
    "('s \<Rightarrow> 'c) \<Rightarrow> ('x \<Rightarrow> 'e \<Rightarrow> 'c \<Rightarrow> 'c option) \<Rightarrow> ('x \<Rightarrow> 'x) \<Rightarrow> ('x, 'c) server \<Rightarrow> ('s, 'e) server_event \<Rightarrow>
     ('x, 'c) server option" where
  "run_handler start react post sv (Accepted socket) =
     Some (if srv_accepting sv then sv\<lparr>srv_connections := srv_connections sv @ [start socket]\<rparr> else sv)"
| "run_handler start react post sv Accept_failed = Some (sv\<lparr>srv_accepting := False\<rparr>)"
| "run_handler start react post sv (Completed i e) =
     (if i < length (srv_connections sv) then do {
        c \<leftarrow> react (srv_env sv) e (srv_connections sv ! i);
        Some (sv\<lparr>srv_connections := (srv_connections sv)[i := c]\<rparr>)
      }
      else Some sv)"
| "run_handler start react post sv Posted = Some (sv\<lparr>srv_env := post (srv_env sv)\<rparr>)"
| "run_handler start react post sv Stopped = Some (sv\<lparr>srv_running := False\<rparr>)"

definition server_step ::
    "('s \<Rightarrow> 'c) \<Rightarrow> ('x \<Rightarrow> 'e \<Rightarrow> 'c \<Rightarrow> 'c option) \<Rightarrow> ('x \<Rightarrow> 'x) \<Rightarrow> ('x, 'c) server \<Rightarrow> ('s, 'e) server_event \<Rightarrow>
     ('x, 'c) server option" where
  "server_step start react post sv e = (if srv_running sv then run_handler start react post sv e else Some sv)"

fun server_run ::
    "('s \<Rightarrow> 'c) \<Rightarrow> ('x \<Rightarrow> 'e \<Rightarrow> 'c \<Rightarrow> 'c option) \<Rightarrow> ('x \<Rightarrow> 'x) \<Rightarrow> ('x, 'c) server \<Rightarrow> ('s, 'e) server_event list \<Rightarrow>
     ('x, 'c) server option" where
  "server_run start react post sv [] = Some sv"
| "server_run start react post sv (e # es) = server_step start react post sv e \<bind> (\<lambda>sv. server_run start react post sv es)"

section \<open>One connection among the others\<close>

text \<open>What a run looks like to connection \<open>i\<close>: the completions of its own transfers, each with the shared
  data at that moment.\<close>

fun own_event :: "nat \<Rightarrow> ('x, 'c) server \<Rightarrow> ('s, 'e) server_event \<Rightarrow> ('x \<times> 'e) list" where
  "own_event i sv (Completed j e) = (if srv_running sv \<and> j = i then [(srv_env sv, e)] else [])"
| "own_event i sv _ = []"

fun view ::
    "('s \<Rightarrow> 'c) \<Rightarrow> ('x \<Rightarrow> 'e \<Rightarrow> 'c \<Rightarrow> 'c option) \<Rightarrow> ('x \<Rightarrow> 'x) \<Rightarrow> nat \<Rightarrow> ('x, 'c) server \<Rightarrow>
     ('s, 'e) server_event list \<Rightarrow> ('x \<times> 'e) list" where
  "view start react post i sv [] = []"
| "view start react post i sv (e # es) = own_event i sv e @
     (case server_step start react post sv e of None \<Rightarrow> [] | Some sv \<Rightarrow> view start react post i sv es)"

text \<open>A connection on its own.\<close>

fun reacts :: "('x \<Rightarrow> 'e \<Rightarrow> 'c \<Rightarrow> 'c option) \<Rightarrow> ('x \<times> 'e) list \<Rightarrow> 'c \<Rightarrow> 'c option" where
  "reacts react [] c = Some c"
| "reacts react ((x, e) # xs) c = react x e c \<bind> reacts react xs"

lemma reacts_Nil: "m \<bind> reacts react [] = m"
  by (cases m) simp_all

lemma reacts_append: "reacts react (xs @ ys) c = reacts react xs c \<bind> reacts react ys"
  by (induction react xs c rule: reacts.induct) (auto split: Option.bind_splits)

lemma step_connection:
  assumes "server_step start react post sv e = Some sv'" "i < length (srv_connections sv)"
  shows "i < length (srv_connections sv') \<and>
    reacts react (own_event i sv e) (srv_connections sv ! i) = Some (srv_connections sv' ! i)"
  using assms
  by (cases e) (auto simp: server_step_def nth_append nth_list_update split: if_splits Option.bind_splits)

lemma run_connection:
  assumes "server_run start react post sv es = Some sv'" "i < length (srv_connections sv)"
  shows "i < length (srv_connections sv') \<and>
    reacts react (view start react post i sv es) (srv_connections sv ! i) = Some (srv_connections sv' ! i)"
  using assms
proof (induction es arbitrary: sv)
  case Nil
  then show ?case by simp
next
  case (Cons e es)
  then obtain sv1 where "server_step start react post sv e = Some sv1" "server_run start react post sv1 es = Some sv'"
    by (auto split: Option.bind_splits)
  with Cons.IH [of sv1] step_connection [of start react post sv e sv1 i] Cons.prems(2) show ?case
    by (auto simp: reacts_append)
qed

text \<open>The shared data depends on the posted handlers only, and on those that run before the loop of handlers
  is stopped.\<close>

fun posts :: "('s, 'e) server_event list \<Rightarrow> nat" where
  "posts [] = 0"
| "posts (Posted # es) = Suc (posts es)"
| "posts (Stopped # es) = 0"
| "posts (_ # es) = posts es"

lemma step_env:
  "server_step start react post sv e = Some sv' \<Longrightarrow>
   srv_env sv' = (if srv_running sv \<and> e = Posted then post (srv_env sv) else srv_env sv) \<and>
   srv_running sv' = (srv_running sv \<and> e \<noteq> Stopped)"
  by (cases e) (auto simp: server_step_def split: if_splits Option.bind_splits)

lemma stopped_env: "server_run start react post sv es = Some sv' \<Longrightarrow> \<not> srv_running sv \<Longrightarrow> sv' = sv"
  by (induction es) (auto simp: server_step_def)

lemma run_env:
  "server_run start react post sv es = Some sv' \<Longrightarrow> srv_running sv \<Longrightarrow> srv_env sv' = (post ^^ posts es) (srv_env sv)"
proof (induction es arbitrary: sv)
  case Nil
  then show ?case by simp
next
  case (Cons e es)
  then obtain sv1 where sv1: "server_step start react post sv e = Some sv1" "server_run start react post sv1 es = Some sv'"
    by (auto split: Option.bind_splits)
  note env = step_env [OF sv1(1)]
  show ?case
  proof (cases "e = Stopped")
    case True
    with env Cons.prems(2) stopped_env [OF sv1(2)] show ?thesis by simp
  next
    case False
    with env Cons.prems(2) have "srv_env sv' = (post ^^ posts es) (srv_env sv1)"
      using Cons.IH [OF sv1(2)] by simp
    with False env Cons.prems(2) show ?thesis
      by (cases e) (simp_all add: funpow_Suc_right del: funpow.simps)
  qed
qed

lemma server_run_append:
  "server_run start react post sv (es @ es') =
     server_run start react post sv es \<bind> (\<lambda>sv. server_run start react post sv es')"
  by (induction es arbitrary: sv) (auto split: Option.bind_splits)

text \<open>What posted handlers keep of the shared data, every connection sees.\<close>

lemma view_env:
  assumes "P (srv_env sv)" "\<And>x. P x \<Longrightarrow> P (post x)"
  shows "list_all (\<lambda>(x, e). P x) (view start react post i sv es)"
  using assms(1)
proof (induction es arbitrary: sv)
  case Nil
  then show ?case by simp
next
  case (Cons e es)
  have "list_all (\<lambda>(x, e). P x) (own_event i sv e)"
    using Cons.prems by (cases e) auto
  moreover have "P (srv_env sv')" if "server_step start react post sv e = Some sv'" for sv'
    using step_env [OF that] Cons.prems assms(2) by simp
  ultimately show ?case
    using Cons.IH by (auto split: option.split)
qed

section \<open>Invariants of all connections\<close>

text \<open>A property that holds of a new connection and that every reaction keeps.\<close>

locale connection_invariant =
  fixes start :: "'s \<Rightarrow> 'c" and react :: "'x \<Rightarrow> 'e \<Rightarrow> 'c \<Rightarrow> 'c option" and ok :: "'c \<Rightarrow> bool"
  assumes start_ok: "ok (start socket)"
    and react_ok: "ok c \<Longrightarrow> react x e c = Some c' \<Longrightarrow> ok c'"
begin

lemma step_ok:
  assumes step: "server_step start react post sv e = Some sv'" and ok: "list_all ok (srv_connections sv)"
  shows "list_all ok (srv_connections sv')"
proof (cases "\<exists>i r. e = Completed i r \<and> srv_running sv \<and> i < length (srv_connections sv)")
  case True
  then obtain i r c where c: "i < length (srv_connections sv)"
      "react (srv_env sv) r (srv_connections sv ! i) = Some c"
      "srv_connections sv' = (srv_connections sv)[i := c]"
    using step by (auto simp: server_step_def split: Option.bind_splits)
  have "ok (srv_connections sv ! i)"
    using ok c(1) by (simp add: list_all_length)
  then have "ok c"
    using c(2) by (rule react_ok)
  then show ?thesis
    using ok c(1) unfolding c(3) list_all_length by (auto simp: nth_list_update)
next
  case False
  then show ?thesis
    using step ok start_ok by (cases e) (auto simp: server_step_def split: if_splits)
qed

lemma run_ok:
  "server_run start react post sv es = Some sv' \<Longrightarrow> list_all ok (srv_connections sv) \<Longrightarrow>
   list_all ok (srv_connections sv')"
  by (induction es arbitrary: sv) (auto split: Option.bind_splits intro: step_ok)

text \<open>A run ends in undefined behaviour only in a reaction of a connection that has the property.\<close>

lemma run_stuck:
  assumes "server_run start react post sv es = None" "list_all ok (srv_connections sv)"
  shows "\<exists>es1 i r es2 sv1. es = es1 @ Completed i r # es2 \<and> server_run start react post sv es1 = Some sv1 \<and>
    srv_running sv1 \<and> i < length (srv_connections sv1) \<and> ok (srv_connections sv1 ! i) \<and>
    react (srv_env sv1) r (srv_connections sv1 ! i) = None"
  using assms
proof (induction es arbitrary: sv)
  case Nil
  then show ?case by simp
next
  case (Cons e es)
  show ?case
  proof (cases "server_step start react post sv e")
    case None
    then obtain i r where "e = Completed i r" "srv_running sv" "i < length (srv_connections sv)"
        "react (srv_env sv) r (srv_connections sv ! i) = None"
      by (cases e) (auto simp: server_step_def split: if_splits Option.bind_splits)
    then show ?thesis
      using Cons.prems(2) by (intro exI [of _ "[]"]) (auto simp: list_all_length)
  next
    case (Some sv1)
    then have "server_run start react post sv1 es = None" "list_all ok (srv_connections sv1)"
      using Cons.prems step_ok by auto
    from Cons.IH [OF this] obtain es1 i r es2 sv2 where
      "es = es1 @ Completed i r # es2" "server_run start react post sv1 es1 = Some sv2"
      "srv_running sv2" "i < length (srv_connections sv2)" "ok (srv_connections sv2 ! i)"
      "react (srv_env sv2) r (srv_connections sv2 ! i) = None"
      by blast
    with Some show ?thesis
      by (intro exI [of _ "e # es1"]) auto
  qed
qed

end

text \<open>Moreover it is known which reactions are undefined.\<close>

locale guarded_connection = connection_invariant +
  fixes bad :: "'b \<Rightarrow> 'c \<Rightarrow> bool"
  assumes stuck_iff: "ok c \<Longrightarrow> react x e c = None \<longleftrightarrow> bad e c"
begin

lemma server_ok:
  "pred_option (\<lambda>sv. list_all ok (srv_connections sv)) (server_run start react post (accept_start x) es)"
  by (auto simp: option.pred_set accept_start_def split: option.splits dest!: run_ok)

lemma server_stuck_iff:
  "server_run start react post (accept_start x) es = None \<longleftrightarrow>
   (\<exists>es1 i r es2 sv. es = es1 @ Completed i r # es2 \<and> server_run start react post (accept_start x) es1 = Some sv \<and>
      srv_running sv \<and> i < length (srv_connections sv) \<and> bad r (srv_connections sv ! i))"
    (is "_ \<longleftrightarrow> (\<exists>es1 i r es2 sv. ?stuck es1 i r es2 sv)")
proof
  assume "server_run start react post (accept_start x) es = None"
  from run_stuck [OF this] obtain es1 i r es2 sv where
    "es = es1 @ Completed i r # es2" "server_run start react post (accept_start x) es1 = Some sv"
    "srv_running sv" "i < length (srv_connections sv)" "ok (srv_connections sv ! i)"
    "react (srv_env sv) r (srv_connections sv ! i) = None"
    by (auto simp: accept_start_def)
  then have "?stuck es1 i r es2 sv"
    using stuck_iff by blast
  then show "\<exists>es1 i r es2 sv. ?stuck es1 i r es2 sv"
    by blast
next
  assume "\<exists>es1 i r es2 sv. ?stuck es1 i r es2 sv"
  then obtain es1 i r es2 sv where es: "es = es1 @ Completed i r # es2"
      "server_run start react post (accept_start x) es1 = Some sv" "srv_running sv"
      "i < length (srv_connections sv)" "bad r (srv_connections sv ! i)"
    by blast
  have "list_all ok (srv_connections sv)"
    using run_ok [OF es(2)] by (simp add: accept_start_def)
  then have "react (srv_env sv) r (srv_connections sv ! i) = None"
    using stuck_iff es(4,5) by (simp add: list_all_length)
  then show "server_run start react post (accept_start x) es = None"
    using es by (simp add: server_run_append server_step_def)
qed

end

end
