(* ===== verification/Coroutine_Server.thy ===== *)
theory Coroutine_Server
  imports Example_Server_Laws Accept_Loop
begin

text \<open>
  The coroutine servers of \<^verbatim>\<open>src/examples\<close> as whole programs: the coroutine \<^verbatim>\<open>listener\<close> that accepts
  connections and spawns \<^verbatim>\<open>handle_message\<close> for each, the second thread of
  \<^verbatim>\<open>tcpserver_coroutine_with_data.cpp\<close> that posts updates of the registers, and the signal that stops the
  program. \<^verbatim>\<open>handle_message\<close> is modelled here at its suspension points, the two \<^verbatim>\<open>co_await\<close>s of a turn:
  between them handlers of other connections and posted updates run.

  The coroutines are spawned \<^verbatim>\<open>detached\<close>: an exception ends the coroutine and is discarded.
\<close>

section \<open>A connection at its suspension points\<close>

text \<open>Waiting for a header, waiting for the body that a header announced, or ended.\<close>

datatype co_point = At_header | At_body mbap_header buffer | Ended

record 'n coroutine =
  co_session :: "'n session"
  co_point :: co_point

definition co_start :: "'n \<Rightarrow> 'n coroutine" where
  "co_start socket = \<lparr>co_session = session_start socket, co_point = At_header\<rparr>"

text \<open>The end of a turn: the loop goes on, or the coroutine ends by \<^verbatim>\<open>co_return\<close> or by an exception.\<close>

fun end_turn :: "('n session, bool) result \<Rightarrow> 'n coroutine option" where
  "end_turn (Return go ses) = Some \<lparr>co_session = ses, co_point = if go then At_header else Ended\<rparr>"
| "end_turn (Throw ec ses) = Some \<lparr>co_session = ses, co_point = Ended\<rparr>"
| "end_turn Assert_failed = None"
| "end_turn Undefined = None"

text \<open>From the completion of the first transfer to the second \<^verbatim>\<open>co_await\<close> or to the next turn.\<close>

definition resume_header :: "'n network \<Rightarrow> 'n session \<Rightarrow> 'n coroutine option" where
  "resume_header net ses =
     (case bind_op (await_read net 7) await_header (buffer_of (session_buffer ses), m_next_layer (mothbus_stream ses)) of
        Return header st \<Rightarrow>
          let ses = after_read ses st in
          if refuses_length (hdr_length header)
          then end_turn (on_stream ses
            (write_exception_response net 0 request_too_big (hdr_transaction_id header) (hdr_unit_id header)))
          else Some \<lparr>co_session = ses, co_point = At_body header (fst st)\<rparr>
      | Throw ec st \<Rightarrow> end_turn (Throw ec (after_read ses st))
      | Assert_failed \<Rightarrow> None
      | Undefined \<Rightarrow> None)"

text \<open>From the completion of the second transfer to the next turn.\<close>

definition resume_body ::
    "'n network \<Rightarrow> (u16 \<Rightarrow> u8 \<Rightarrow> pdu_req \<Rightarrow> ('n tcp_stream, unit) operation) \<Rightarrow> mbap_header \<Rightarrow> buffer \<Rightarrow>
     'n session \<Rightarrow> 'n coroutine option" where
  "resume_body net handler header source ses =
     (case bind_op (await_read net (unat (hdr_length header) - 1))
             (\<lambda>read_size. lift_read (\<lambda>source. parse_body source read_size) pdu_req_init)
             (source, m_next_layer (mothbus_stream ses)) of
        Return (ec, request) st \<Rightarrow>
          let ses = after_read ses st in
          end_turn (if failed ec then Return False ses
            else on_stream ses (handler (hdr_transaction_id header) (hdr_unit_id header) request))
      | Throw ec st \<Rightarrow> end_turn (Throw ec (after_read ses st))
      | Assert_failed \<Rightarrow> None
      | Undefined \<Rightarrow> None)"

definition resume ::
    "'n network \<Rightarrow> ('x \<Rightarrow> u16 \<Rightarrow> u8 \<Rightarrow> pdu_req \<Rightarrow> ('n tcp_stream, unit) operation) \<Rightarrow> 'x \<Rightarrow> unit \<Rightarrow>
     'n coroutine \<Rightarrow> 'n coroutine option" where
  "resume net handler x _ co =
     (case co_point co of
        At_header \<Rightarrow> resume_header net (co_session co)
      | At_body header source \<Rightarrow> resume_body net (handler x) header source (co_session co)
      | Ended \<Rightarrow> Some co)"

section \<open>The programs\<close>

text \<open>The registers and the number \<^verbatim>\<open>i\<close> of the next update the second thread posts; it posts 500.\<close>

record register_data =
  s_holding_registers :: "u16 list"
  next_update :: nat

definition register_data_start :: register_data where
  "register_data_start = \<lparr>s_holding_registers = replicate 200 0, next_update = 0\<rparr>"

definition run_posted :: "register_data \<Rightarrow> register_data" where
  "run_posted d =
     (if next_update d < 500
      then \<lparr>s_holding_registers = post_registers (int (next_update d)) (s_holding_registers d),
            next_update = next_update d + 1\<rparr>
      else d)"

text \<open>\<^verbatim>\<open>tcpserver_coroutine_with_data\<close> and \<^verbatim>\<open>tcpserver_coroutine\<close> after a sequence of events.\<close>

abbreviation data_react :: "'n network \<Rightarrow> endian \<Rightarrow> register_data \<Rightarrow> unit \<Rightarrow> 'n coroutine \<Rightarrow> 'n coroutine option" where
  "data_react net native \<equiv> resume net (\<lambda>d. data_handler net native (s_holding_registers d))"

definition data_server ::
    "'n network \<Rightarrow> endian \<Rightarrow> ('n, unit) server_event list \<Rightarrow> (register_data, 'n coroutine) server option" where
  "data_server net native events =
     server_run co_start (data_react net native) run_posted (accept_start register_data_start) events"

definition zero_server ::
    "'n network \<Rightarrow> ('n, unit) server_event list \<Rightarrow> (unit, 'n coroutine) server option" where
  "zero_server net events = server_run co_start (resume net (zero_handler net)) id (accept_start ()) events"

section \<open>Two resumptions are one turn\<close>

lemma after_read_after_read [simp]: "after_read (after_read ses st) st' = after_read ses st'"
  by (simp add: after_read_def)

lemma after_read_next [simp]: "m_next_layer (mothbus_stream (after_read ses st)) = snd st"
  by (simp add: after_read_def)

lemma end_turn_point: "end_turn r = Some co \<Longrightarrow> co_point co \<noteq> At_body header source"
  by (cases r) (auto split: if_splits)

text \<open>Resuming a coroutine until the next turn or its end, the second time with what the handler then
  reads, is the turn of \<^verbatim>\<open>handle_message\<close> as a whole.\<close>

lemma resume_turn:
  "end_turn (message_turn net handler ses) =
     (case resume_header net ses of
        None \<Rightarrow> None
      | Some co \<Rightarrow>
          (case co_point co of
             At_body header source \<Rightarrow> resume_body net handler header source (co_session co)
           | _ \<Rightarrow> Some co))"
proof (cases "bind_op (await_read net 7) await_header (buffer_of (session_buffer ses), m_next_layer (mothbus_stream ses))")
  case (Return header st)
  then have read: "read_message net (buffer_of (session_buffer ses), m_next_layer (mothbus_stream ses)) =
      (if refuses_length (hdr_length header) then Return (header, None) st
       else bind_op (bind_op (await_read net (unat (hdr_length header) - 1))
           (\<lambda>read_size. lift_read (\<lambda>source. parse_body source read_size) pdu_req_init))
         (\<lambda>body. return_op (header, Some body)) st)"
    by (auto simp: read_message_def bind_op_def split: result.splits)
  show ?thesis
  proof (cases "refuses_length (hdr_length header)")
    case True
    with Return show ?thesis
      unfolding message_turn_def read resume_header_def
      by (auto simp: Let_def dest: end_turn_point split: option.splits co_point.splits)
  next
    case False
    then show ?thesis
      unfolding message_turn_def read resume_header_def resume_body_def
      by (cases st) (auto simp: Return Let_def bind_op_def [of _ "\<lambda>body. return_op (header, Some body)"]
          split: result.splits)
  qed
next
  case (Throw ec st)
  then have "read_message net (buffer_of (session_buffer ses), m_next_layer (mothbus_stream ses)) = Throw ec st"
    by (auto simp: read_message_def bind_op_def split: result.splits)
  then show ?thesis
    by (simp add: message_turn_def resume_header_def Throw)
next
  case Assert_failed
  then have "read_message net (buffer_of (session_buffer ses), m_next_layer (mothbus_stream ses)) = Assert_failed"
    by (auto simp: read_message_def bind_op_def split: result.splits)
  then show ?thesis
    by (simp add: message_turn_def resume_header_def Assert_failed)
next
  case Undefined
  then have "read_message net (buffer_of (session_buffer ses), m_next_layer (mothbus_stream ses)) = Undefined"
    by (auto simp: read_message_def bind_op_def split: result.splits)
  then show ?thesis
    by (simp add: message_turn_def resume_header_def Undefined)
qed

section \<open>Resumptions on received bytes\<close>

lemma resume_header_form:
  assumes net: "asio_contract net" and ok: "session_ok ses"
  shows "resume_header net ses =
    (let (ec, h, n) = net_read net 7 (m_next_layer (mothbus_stream ses));
         ses' = seen ses (overwrite 0 h (session_buffer ses), n)
     in if failed ec then Some \<lparr>co_session = ses', co_point = Ended\<rparr>
        else if unat (hdr_length (header_of h)) < 2
        then Some \<lparr>co_session = answered net (header_of h) (exception_pdu 0 request_too_big) ses', co_point = At_header\<rparr>
        else Some \<lparr>co_session = ses', co_point = At_body (header_of h) (received (session_buffer ses') 7 7)\<rparr>)"
proof -
  obtain ec h n where h: "net_read net 7 (m_next_layer (mothbus_stream ses)) = (ec, h, n)"
    by (metis prod_cases3)
  have hl: "length h \<le> 7" "\<not> failed ec \<Longrightarrow> length h = 7"
    using asio_read_bound [OF net h] asio_read_length [OF net h] by auto
  have len: "length (session_buffer ses) = 320" "length (m_message_buffer ((mothbus_stream ses)\<lparr>m_next_layer := n\<rparr>)) = 320"
    using ok by (simp_all add: session_ok_def)
  show ?thesis
    using hl len
    by (auto simp: resume_header_def bind_op_def h buffer_of_received await_read_received [OF h hl(1)] received_update
        await_header_received refuses_length_iff Let_def after_read_seen on_stream_def write_exception_response_form
        answered_def)
qed

lemma resume_body_form:
  assumes net: "asio_contract net" and ok: "session_ok ses"
    and read: "net_read net (unat (hdr_length header) - 1) (m_next_layer (mothbus_stream ses)) = (ec, bs, n)"
    and ses': "ses' = seen ses (overwrite 7 bs (session_buffer ses), n)"
  shows "resume_body net handler header (received (session_buffer ses) 7 7) ses =
    (if 313 < length bs then None
     else if failed ec then Some \<lparr>co_session = ses', co_point = Ended\<rparr>
     else case read_pdu_req checked_read bs pdu_req_init of
       None \<Rightarrow> None
     | Some (ec, v, _) \<Rightarrow> end_turn (if failed ec then Return False ses'
         else on_stream ses' (handler (hdr_transaction_id header) (hdr_unit_id header) v)))"
proof -
  let ?mb = "session_buffer ses"
  have len: "length ?mb = 320"
    using ok by (simp add: session_ok_def)
  have over: "overwrite 7 bs ?mb = overwrite 0 (take 7 ?mb @ bs) ?mb"
    using len by (simp add: overwrite_def)
  have bl: "length bs \<le> unat (hdr_length header) - 1"
    by (rule asio_read_bound [OF net read])
  show ?thesis
    using len parse_body_received [of "take 7 ?mb" bs ?mb pdu_req_init, folded over]
    by (auto simp: resume_body_def bind_op_def await_read_received [OF read bl] received_update lift_read_def Let_def
        after_read_seen ses' simp del: One_nat_def split: option.splits)
qed

text \<open>What holds of a connection between two resumptions.\<close>

definition co_ok :: "'n coroutine \<Rightarrow> bool" where
  "co_ok co \<longleftrightarrow> session_ok (co_session co) \<and>
     (case co_point co of
        At_body header source \<Rightarrow> source = received (session_buffer (co_session co)) 7 7 \<and> 2 \<le> unat (hdr_length header)
      | _ \<Rightarrow> True)"

text \<open>The body that completes is longer than the rest of the message buffer.\<close>

definition co_overflows :: "'n network \<Rightarrow> 'n coroutine \<Rightarrow> bool" where
  "co_overflows net co \<longleftrightarrow>
     (case co_point co of
        At_body header source \<Rightarrow>
          (case net_read net (unat (hdr_length header) - 1) (m_next_layer (mothbus_stream (co_session co))) of
             (_, bs, _) \<Rightarrow> 313 < length bs)
      | _ \<Rightarrow> False)"

text \<open>A handler that answers, over a network layer within its contract.\<close>

locale serving = answering +
  assumes contract: "asio_contract net"
begin

lemma end_handler:
  assumes "session_ok ses" "ses' = answered net header (reply x v) ses"
  shows "end_turn (on_stream ses (handler x (hdr_transaction_id header) (hdr_unit_id header) v)) =
    Some \<lparr>co_session = ses', co_point = At_header\<rparr>"
  using assms by (simp add: on_stream_def handler_answers session_ok_def answered_def)

lemma resume_cases:
  assumes "co_ok co"
  shows "if co_overflows net co then resume net handler x u co = None
    else \<exists>co'. resume net handler x u co = Some co' \<and> co_ok co'"
proof (cases "co_point co")
  case At_header
  have ok: "session_ok (co_session co)"
    using assms by (simp add: co_ok_def)
  obtain ec h n where h: "net_read net 7 (m_next_layer (mothbus_stream (co_session co))) = (ec, h, n)"
    by (metis prod_cases3)
  have "length (overwrite 0 h (session_buffer (co_session co))) = 320"
    using asio_read_bound [OF contract h] ok by (simp add: session_ok_def)
  then have "session_ok (seen (co_session co) (overwrite 0 h (session_buffer (co_session co)), n))"
    by (intro session_ok_seen [OF ok]) simp
  then show ?thesis
    unfolding resume_def At_header
    by (auto simp: At_header resume_header_form [OF contract ok] h co_overflows_def co_ok_def exception_pdu_def
        Let_def intro: session_ok_answered)
next
  case (At_body header source)
  have ok: "session_ok (co_session co)" and src: "source = received (session_buffer (co_session co)) 7 7"
    using assms by (simp_all add: co_ok_def At_body)
  obtain ec bs n where b: "net_read net (unat (hdr_length header) - 1) (m_next_layer (mothbus_stream (co_session co))) = (ec, bs, n)"
    by (metis prod_cases3)
  obtain ec' v rest where v: "read_pdu_req checked_read bs pdu_req_init = Some (ec', v, rest)"
    by (cases rule: read_pdu_req_cases [of bs pdu_req_init]) auto
  let ?ses = "seen (co_session co) (overwrite 7 bs (session_buffer (co_session co)), n)"
  have ses: "session_ok ?ses" if "length bs \<le> 313"
    using that ok by (intro session_ok_seen [OF ok]) (simp add: session_ok_def)
  note form = resume_body_form [OF contract ok b refl, of "handler x", folded src]
  show ?thesis
  proof (cases "313 < length bs")
    case True
    then show ?thesis
      by (simp add: resume_def At_body form co_overflows_def b del: One_nat_def)
  next
    case False
    then show ?thesis
      using ses session_ok_answered [OF ses reply_fits]
      by (auto simp: resume_def At_body form co_overflows_def b v end_handler co_ok_def simp del: One_nat_def)
  qed
next
  case Ended
  with assms show ?thesis by (simp add: resume_def co_overflows_def)
qed

end

section \<open>Answers of one connection\<close>

text \<open>Every second element: what the handler of each turn read.\<close>

fun seconds :: "'a list \<Rightarrow> 'a list" where
  "seconds (a # b # xs) = b # seconds xs"
| "seconds xs = []"

lemma length_seconds: "length (seconds xs) = length xs div 2"
  by (induction xs rule: seconds.induct) auto

context serving
begin

lemma resume_frame:
  assumes ok: "session_ok ses" and v: "pdu_req_wf v" "length (pdu_req_bytes v) \<le> 253"
    and frame: "frame = mbap_frame tid proto unit_id (pdu_req_bytes v)"
      "receives_frame net (m_next_layer (mothbus_stream ses)) frame n"
  shows "reacts (resume net handler) [(x1, u1), (x2, u2)] \<lparr>co_session = ses, co_point = At_header\<rparr> =
    Some \<lparr>co_session = answered net (header_of (take 7 frame)) (reply x2 v)
        (seen ses (overwrite 0 frame (session_buffer ses), n)), co_point = At_header\<rparr>"
proof -
  obtain ec n1 where h: "net_read net 7 (m_next_layer (mothbus_stream ses)) = (ec, take 7 frame, n1)" "\<not> failed ec"
    using frame(2) by (auto simp: receives_frame_def split: prod.splits)
  have "1 \<le> length (pdu_req_bytes v)"
    by (simp add: pdu_req_bytes_def)
  then have "\<not> unat (hdr_length (header_of (take 7 frame))) < 2"
    using frame_valid_length [OF _ v(2), of tid proto unit_id] by (simp add: is_valid_length_def frame(1))
  then obtain co header source where co: "resume_header net ses = Some co" "co_point co = At_body header source"
    using h by (auto simp: resume_header_form [OF contract ok])
  have "message_turn net (handler x2) ses = Return True (answered net (header_of (take 7 frame)) (reply x2 v)
      (seen ses (overwrite 0 frame (session_buffer ses), n)))"
    using turn_answers [OF contract ok v(1) _ v(2), of "[]" tid proto unit_id n x2] frame by simp
  then show ?thesis
    using resume_turn [of net "handler x2" ses, symmetric] co by (simp add: resume_def)
qed

lemma resumes_answer:
  "session_ok ses \<Longrightarrow> length xs = 2 * length reqs \<Longrightarrow>
    \<forall>(tid, proto, unit_id, v) \<in> set reqs. pdu_req_wf v \<and> length (pdu_req_bytes v) \<le> 253 \<Longrightarrow>
    conversation net (map2 (request_answer (m_protocol (mothbus_stream ses)) reply) (map fst (seconds xs)) reqs)
      (m_next_layer (mothbus_stream ses)) n' \<Longrightarrow>
    \<exists>ses'. reacts (resume net handler) xs \<lparr>co_session = ses, co_point = At_header\<rparr> =
        Some \<lparr>co_session = ses', co_point = At_header\<rparr> \<and> m_next_layer (mothbus_stream ses') = n'"
proof (induction xs arbitrary: ses reqs rule: seconds.induct)
  case (1 a b xs)
  then obtain tid proto unit_id v reqs' where reqs: "reqs = (tid, proto, unit_id, v) # reqs'"
    by (cases reqs) auto
  let ?frame = "mbap_frame tid proto unit_id (pdu_req_bytes v)"
  let ?answer = "mbap_frame tid (m_protocol (mothbus_stream ses)) unit_id (reply (fst b) v)"
  obtain n1 where n1: "receives_frame net (m_next_layer (mothbus_stream ses)) ?frame n1"
      "conversation net (map2 (request_answer (m_protocol (mothbus_stream ses)) reply) (map fst (seconds xs)) reqs')
        (snd (net_write net ?answer n1)) n'"
    using "1.prems"(4) by (auto simp: reqs request_answer_def)
  have v: "pdu_req_wf v" "length (pdu_req_bytes v) \<le> 253"
    using "1.prems"(3) by (auto simp: reqs)
  let ?seen = "seen ses (overwrite 0 ?frame (session_buffer ses), n1)"
  let ?ses = "answered net (header_of (take 7 ?frame)) (reply (fst b) v) ?seen"
  have turn: "reacts (resume net handler) [(fst a, snd a), (fst b, snd b)] \<lparr>co_session = ses, co_point = At_header\<rparr> =
      Some \<lparr>co_session = ?ses, co_point = At_header\<rparr>"
    by (rule resume_frame [OF "1.prems"(1) v refl n1(1)])
  have "session_ok ?seen"
    using v(2) "1.prems"(1) by (intro session_ok_seen) (simp_all add: session_ok_def)
  then have "session_ok ?ses"
    using reply_fits by (rule session_ok_answered)
  moreover have "m_protocol (mothbus_stream ?ses) = m_protocol (mothbus_stream ses)"
      "m_next_layer (mothbus_stream ?ses) = snd (net_write net ?answer n1)"
    by (simp_all add: header_of_frame)
  ultimately have "\<exists>ses'. reacts (resume net handler) xs \<lparr>co_session = ?ses, co_point = At_header\<rparr> =
      Some \<lparr>co_session = ses', co_point = At_header\<rparr> \<and> m_next_layer (mothbus_stream ses') = n'"
    using "1.IH" [of ?ses reqs'] "1.prems"(2,3) n1(2) by (simp add: reqs)
  moreover have "reacts (resume net handler) (a # b # xs) \<lparr>co_session = ses, co_point = At_header\<rparr> =
      reacts (resume net handler) xs \<lparr>co_session = ?ses, co_point = At_header\<rparr>"
    using reacts_append [of "resume net handler" "[(fst a, snd a), (fst b, snd b)]" xs] turn
    by (simp only: append.simps prod.collapse bind.bind_lunit)
  ultimately show ?case by simp
qed auto

end

sublocale serving \<subseteq> connection: guarded_connection co_start "resume net handler" co_ok "\<lambda>_. co_overflows net"
proof unfold_locales
  show "co_ok c'" if "co_ok c" "resume net handler x e c = Some c'" for c x e c'
    using resume_cases [OF that(1), of x e] that(2) by (auto split: if_splits)
  show "resume net handler x e c = None \<longleftrightarrow> co_overflows net c" if "co_ok c" for c x and e :: unit
    using resume_cases [OF that, of x e] by (auto split: if_splits)
qed (simp add: co_ok_def co_start_def)

context serving
begin

lemmas safe_run = connection.server_stuck_iff connection.server_ok

end

section \<open>The handlers of the two programs\<close>

lemma serving_data:
  "asio_contract net \<Longrightarrow>
   serving net (\<lambda>d. data_handler net native (s_holding_registers d)) (\<lambda>d. register_reply (s_holding_registers d))"
  by unfold_locales (simp_all add: data.handler_answers data.reply_fits)

lemma serving_zero: "asio_contract net \<Longrightarrow> serving net (zero_handler net) zero_reply"
  by unfold_locales (simp_all add: zero.handler_answers zero.reply_fits)

interpretation wire_data: serving wire_net "\<lambda>d. data_handler wire_net native (s_holding_registers d)"
    "\<lambda>d. register_reply (s_holding_registers d)" for native
  by (rule serving_data [OF wire_contract])

interpretation wire_zero: serving wire_net "zero_handler wire_net" zero_reply
  by (rule serving_zero [OF wire_contract])

lemma run_posted_start:
  "(run_posted ^^ k) register_data_start =
     \<lparr>s_holding_registers = replicate 200 (if k = 0 then 0 else word_of_nat (min k 500 - 1)), next_update = min k 500\<rparr>"
proof (induction k)
  case 0
  then show ?case by (simp add: register_data_start_def)
next
  case (Suc k)
  then show ?case by (simp add: run_posted_def post_registers_eq)
qed

lemma uniform_registers:
  "\<exists>w. s_holding_registers d = replicate 200 w \<Longrightarrow> \<exists>w. s_holding_registers (run_posted d) = replicate 200 w"
  by (auto simp: run_posted_def post_registers_eq)

lemma data_server_env:
  "data_server net native es = Some sv \<Longrightarrow> srv_env sv = (run_posted ^^ posts es) register_data_start"
  unfolding data_server_def by (drule run_env) (simp_all add: accept_start_def)

section \<open>Properties\<close>

text \<open>Connections do not disturb each other: in every run of the server with data, the state of a connection
  is the one it reaches on its own from the completions of its own transfers, each with the registers at
  that moment.\<close>

lemma connections_independent:
  assumes "server_run co_start (data_react net native) run_posted sv es = Some sv'" "i < length (srv_connections sv)"
  shows "reacts (data_react net native) (view co_start (data_react net native) run_posted i sv es)
      (srv_connections sv ! i) = Some (srv_connections sv' ! i)"
  using run_connection [OF assms] by blast

text \<open>C31. The registers of the server with data are never seen half updated: after any events they all hold
  the last value posted (0 before the first of the 500 updates), and so they do whenever a connection reads
  them.\<close>

theorem registers_uniform:
  assumes "data_server net native es = Some sv"
  shows "srv_env sv = \<lparr>s_holding_registers =
        replicate 200 (if posts es = 0 then 0 else word_of_nat (min (posts es) 500 - 1)),
      next_update = min (posts es) 500\<rparr>
    \<and> list_all (\<lambda>(d, _). \<exists>w. s_holding_registers d = replicate 200 w)
        (view co_start (data_react net native) run_posted i (accept_start register_data_start) es)"
proof
  show "srv_env sv = \<lparr>s_holding_registers =
        replicate 200 (if posts es = 0 then 0 else word_of_nat (min (posts es) 500 - 1)),
      next_update = min (posts es) 500\<rparr>"
    unfolding data_server_env [OF assms] run_posted_start ..
  show "list_all (\<lambda>(d, _). \<exists>w. s_holding_registers d = replicate 200 w)
        (view co_start (data_react net native) run_posted i (accept_start register_data_start) es)"
    by (rule view_env [where P = "\<lambda>d. \<exists>w. s_holding_registers d = replicate 200 w", OF _ uniform_registers])
      (auto simp: accept_start_def register_data_start_def)
qed

theorem registers_uniform_witness:
  "\<exists>sv. data_server wire_net little [Posted, Posted, Stopped, Posted] = Some sv \<and>
    srv_env sv = \<lparr>s_holding_registers = replicate 200 1, next_update = 2\<rparr>"
proof -
  obtain sv where sv: "data_server wire_net little [Posted, Posted, Stopped, Posted] = Some sv"
    by (simp add: data_server_def server_step_def accept_start_def)
  from registers_uniform [OF this, THEN conjunct1]
  have "srv_env sv = \<lparr>s_holding_registers = replicate 200 1, next_update = 2\<rparr>"
    by simp
  with sv show ?thesis by blast
qed

text \<open>C5. Requests that a client sends one behind the other are answered in their order, one answer each, however
  their handling is interleaved with other connections and with updates: after two completions per request
  the client has received exactly these answers, each with one value in all registers, the one posted last
  when the body of the request arrived.\<close>

theorem data_server_answers:
  assumes "data_server wire_net native es = Some sv" "i < length (srv_connections sv)"
    and "srv_connections sv ! i = \<lparr>co_session = ses, co_point = At_header\<rparr>"
    and "\<forall>(tid, proto, unit_id, v) \<in> set reqs. pdu_req_wf v \<and> length (pdu_req_bytes v) \<le> 253"
    and "m_next_layer (mothbus_stream ses) =
      \<lparr>incoming = concat (map (\<lambda>(tid, proto, unit_id, v). mbap_frame tid proto unit_id (pdu_req_bytes v)) reqs) @ rest,
       outgoing = out\<rparr>"
    and "server_run co_start (data_react wire_net native) run_posted sv es' = Some sv'"
    and "views = view co_start (data_react wire_net native) run_posted i sv es'" "length views = 2 * length reqs"
  shows "\<exists>ses'. srv_connections sv' ! i = \<lparr>co_session = ses', co_point = At_header\<rparr>
    \<and> m_next_layer (mothbus_stream ses') =
      \<lparr>incoming = rest, outgoing = out @ concat (map2 (\<lambda>(d, _) (tid, proto, unit_id, v).
         mbap_frame tid (m_protocol (mothbus_stream ses)) unit_id (register_reply (s_holding_registers d) v))
         (seconds views) reqs)\<rparr>
    \<and> list_all (\<lambda>(d, _). \<exists>w. s_holding_registers d = replicate 200 w) views"
proof -
  have "list_all co_ok (srv_connections sv)"
    using wire_data.connection.run_ok [OF assms(1) [unfolded data_server_def]] by (simp add: accept_start_def)
  then have ok: "session_ok ses"
    using assms(2,3) by (auto simp: list_all_length co_ok_def)
  have "length (map fst (seconds views)) = length reqs"
    using assms(8) by (simp add: length_seconds)
  from wire_data.resumes_answer [OF ok assms(8,4) wire_requests [OF this, where rest = rest]] assms(5)
  obtain ses' where "reacts (data_react wire_net native) views (srv_connections sv ! i) =
        Some \<lparr>co_session = ses', co_point = At_header\<rparr>"
      "m_next_layer (mothbus_stream ses') =
      \<lparr>incoming = rest, outgoing = out @ concat (map2 (\<lambda>d (tid, proto, unit_id, v).
         mbap_frame tid (m_protocol (mothbus_stream ses)) unit_id (register_reply (s_holding_registers d) v))
         (map fst (seconds views)) reqs)\<rparr>"
    unfolding assms(3) by auto
  moreover have "map2 (\<lambda>d (tid, proto, unit_id, v).
         mbap_frame tid (m_protocol (mothbus_stream ses)) unit_id (register_reply (s_holding_registers d) v))
         (map fst (seconds views)) reqs = map2 (\<lambda>(d, _) (tid, proto, unit_id, v).
         mbap_frame tid (m_protocol (mothbus_stream ses)) unit_id (register_reply (s_holding_registers d) v))
         (seconds views) reqs"
    by (simp add: zip_map1 comp_def case_prod_unfold)
  moreover have "list_all (\<lambda>(d, _). \<exists>w. s_holding_registers d = replicate 200 w) views"
    unfolding assms(7)
    by (rule view_env [where P = "\<lambda>d. \<exists>w. s_holding_registers d = replicate 200 w", OF _ uniform_registers])
      (auto simp: data_server_env [OF assms(1)] run_posted_start)
  moreover have "reacts (data_react wire_net native) views (srv_connections sv ! i) = Some (srv_connections sv' ! i)"
    using run_connection [OF assms(6,2)] assms(7) by simp
  ultimately show ?thesis by auto
qed

theorem data_server_answers_witness:
  "\<exists>sv sv' ses'. data_server wire_net little
      [Accepted \<lparr>incoming = [0, 1, 0, 0, 0, 6, 9, 3, 0, 0, 0, 1], outgoing = []\<rparr>] = Some sv
    \<and> server_run co_start (data_react wire_net little) run_posted sv [Completed 0 (), Posted, Completed 0 ()] = Some sv'
    \<and> srv_connections sv' ! 0 = \<lparr>co_session = ses', co_point = At_header\<rparr>
    \<and> m_next_layer (mothbus_stream ses') = \<lparr>incoming = [], outgoing = [0, 1, 0, 0, 0, 5, 9, 3, 2, 0, 0]\<rparr>"
proof -
  let ?w = "\<lparr>incoming = [0, 1, 0, 0, 0, 6, 9, 3, 0, 0, 0, 1], outgoing = []\<rparr>"
  let ?v = "Read_holding \<lparr>rh_starting_address = 0, rh_quantity_of_registers = 1\<rparr>"
  let ?react = "data_react wire_net little" and ?d = register_data_start
  let ?sv = "\<lparr>srv_env = ?d, srv_connections = [co_start ?w], srv_accepting = True, srv_running = True\<rparr>"
  have frame: "incoming ?w = mbap_frame 1 0 9 (pdu_req_bytes ?v)"
    by (simp add: wire_eval pdu_req_bytes_def encodings)
  have "receives_frame wire_net (m_next_layer (mothbus_stream (session_start ?w))) (incoming ?w) (?w\<lparr>incoming := []\<rparr>)"
    by (simp add: receives_frame_def wire_read_def session_start_def tcp_stream_ctor_def)
  from wire_data.resume_frame [OF session_ok_start _ _ frame this, of little ?d "()" "run_posted ?d" "()"]
  obtain co1 co2 where co: "?react ?d () (co_start ?w) = Some co1" "?react (run_posted ?d) () co1 = Some co2"
    by (auto simp: co_start_def pdu_req_bytes_def encodings split: Option.bind_splits)
  have sv: "data_server wire_net little [Accepted ?w] = Some ?sv"
    by (simp add: data_server_def accept_start_def server_step_def)
  have run: "server_run co_start ?react run_posted ?sv [Completed 0 (), Posted, Completed 0 ()] =
      Some (?sv\<lparr>srv_env := run_posted ?d, srv_connections := [co2]\<rparr>)"
    using co by (simp add: server_step_def)
  have views: "view co_start ?react run_posted 0 ?sv [Completed 0 (), Posted, Completed 0 ()] =
      [(?d, ()), (run_posted ?d, ())]"
    using co by (simp add: server_step_def)
  have zero: "s_holding_registers (run_posted ?d) = replicate 200 0"
    using run_posted_start [of 1] by simp
  obtain ses' where "srv_connections (?sv\<lparr>srv_env := run_posted ?d, srv_connections := [co2]\<rparr>) ! 0 =
        \<lparr>co_session = ses', co_point = At_header\<rparr>"
      "m_next_layer (mothbus_stream ses') = \<lparr>incoming = [], outgoing = mbap_frame 1 0 9 (register_reply (replicate 200 0) ?v)\<rparr>"
    using data_server_answers [OF sv _ _ _ _ run views [symmetric], of "session_start ?w" "[(1, 0, 9, ?v)]" "[]" "[]"] zero
    by (simp add: co_start_def pdu_req_bytes_def encodings frame [simplified] session_start_def tcp_stream_ctor_def)
      blast
  moreover have "mbap_frame 1 0 9 (register_reply (replicate 200 0) ?v) = [0, 1, 0, 0, 0, 5, 9, 3, 2, 0, 0]"
    by (simp add: wire_eval values_pdu_def)
  ultimately show ?thesis
    using sv run by metis
qed

text \<open>C8. Both coroutine servers run into undefined behaviour in one way only, whatever their clients and the
  network do: a connection that waits for a body receives more than 313 bytes. Up to then every connection has
  both message buffers of 320 bytes and a source that stands behind the header in its buffer.\<close>

theorem coroutine_servers_safe:
  assumes "asio_contract net"
  shows "(data_server net native es = None \<longleftrightarrow> (\<exists>es1 i es2 sv. es = es1 @ Completed i () # es2 \<and>
      data_server net native es1 = Some sv \<and> srv_running sv \<and> i < length (srv_connections sv) \<and>
      co_overflows net (srv_connections sv ! i)))
    \<and> (zero_server net es = None \<longleftrightarrow> (\<exists>es1 i es2 sv. es = es1 @ Completed i () # es2 \<and>
      zero_server net es1 = Some sv \<and> srv_running sv \<and> i < length (srv_connections sv) \<and>
      co_overflows net (srv_connections sv ! i)))
    \<and> pred_option (\<lambda>sv. list_all co_ok (srv_connections sv)) (data_server net native es)
    \<and> pred_option (\<lambda>sv. list_all co_ok (srv_connections sv)) (zero_server net es)"
  unfolding data_server_def zero_server_def
  using serving.safe_run [OF serving_data [OF assms]] serving.safe_run [OF serving_zero [OF assms]]
  by (intro conjI) simp_all

theorem coroutine_servers_safe_witness:
  "\<exists>sv. zero_server wire_net [Accepted \<lparr>incoming = [0, 1, 0, 0, 1, 0x90, 9] @ replicate 399 0, outgoing = []\<rparr>] = Some sv
    \<and> list_all co_ok (srv_connections sv)"
proof -
  let ?w = "\<lparr>incoming = [0, 1, 0, 0, 1, 0x90, 9] @ replicate 399 0, outgoing = []\<rparr>"
  have "\<exists>sv. zero_server wire_net [Accepted ?w] = Some sv"
    by (simp add: zero_server_def accept_start_def server_step_def)
  then show ?thesis
    using coroutine_servers_safe [OF wire_contract, of little "[Accepted ?w]"] by auto
qed

end
