(* ===== verification/Tcp_Loop.thy ===== *)
theory Tcp_Loop
  imports Coroutine_Server
begin

text \<open>
  A master and the server with data, joined: what the master sends is what arrives at one connection of the
  running server, what this connection sends is what the master receives, and whenever the master waits, the
  server goes on with the handlers of this and of other connections and with posted updates. The joint
  system is a network layer of the master, \<open>loop_net\<close>, whose state contains the server; which events
  happen during which wait is a parameter. Shown here is one exchange of frames, \<open>loop_exchange\<close>.
\<close>

section \<open>The joint system\<close>

text \<open>The bytes on their way between the connection and its peer.\<close>

abbreviation co_wire :: "wire coroutine \<Rightarrow> wire" where
  "co_wire co \<equiv> m_next_layer (mothbus_stream (co_session co))"

definition set_wire :: "wire \<Rightarrow> wire coroutine \<Rightarrow> wire coroutine" where
  "set_wire w co = co\<lparr>co_session := (co_session co)\<lparr>mothbus_stream := (mothbus_stream (co_session co))\<lparr>m_next_layer := w\<rparr>\<rparr>\<rparr>"

type_synonym data_server_state = "(register_data, wire coroutine) server"
type_synonym data_server_event = "(wire, unit) server_event"

abbreviation run_data :: "endian \<Rightarrow> data_server_state \<Rightarrow> data_server_event list \<Rightarrow> data_server_state option" where
  "run_data native \<equiv> server_run co_start (data_react wire_net native) run_posted"

text \<open>The server, the connection of the master, and the events of the waits to come.\<close>

record loop =
  loop_server :: data_server_state
  loop_conn :: nat
  loop_events :: "data_server_event list list"

definition loop_wire :: "loop \<Rightarrow> wire" where
  "loop_wire l = co_wire (srv_connections (loop_server l) ! loop_conn l)"

definition set_loop_wire :: "wire \<Rightarrow> loop \<Rightarrow> loop" where
  "set_loop_wire w l =
     (let sv = loop_server l; i = loop_conn l in
      l\<lparr>loop_server := sv\<lparr>srv_connections := (srv_connections sv)[i := set_wire w (srv_connections sv ! i)]\<rparr>\<rparr>)"

definition loop_write :: "u8 list \<Rightarrow> loop \<Rightarrow> error_code \<times> loop" where
  "loop_write bs l = (no_error, set_loop_wire ((loop_wire l)\<lparr>incoming := incoming (loop_wire l) @ bs\<rparr>) l)"

text \<open>A wait: the events happen, then the bytes are taken that the connection has sent. It is an error to
  wait for more, or when the schedule is over or the server is gone.\<close>

definition loop_take :: "nat \<Rightarrow> loop \<Rightarrow> error_code \<times> u8 list \<times> loop" where
  "loop_take k l =
     (let w = loop_wire l in
      if k \<le> length (outgoing w)
      then (no_error, take k (outgoing w), set_loop_wire (w\<lparr>outgoing := drop k (outgoing w)\<rparr>) l)
      else (wire_eof, [], l))"

definition loop_read :: "endian \<Rightarrow> nat \<Rightarrow> loop \<Rightarrow> error_code \<times> u8 list \<times> loop" where
  "loop_read native k l =
     (case loop_events l of
        [] \<Rightarrow> (wire_eof, [], l)
      | es # ess \<Rightarrow>
          (case run_data native (loop_server l) es of
             None \<Rightarrow> (wire_eof, [], l)
           | Some sv \<Rightarrow> loop_take k (l\<lparr>loop_server := sv, loop_events := ess\<rparr>)))"

definition loop_net :: "endian \<Rightarrow> loop network" where
  "loop_net native = \<lparr>net_write = loop_write, net_read = loop_read native, net_read_until = (\<lambda>_. loop_read native)\<rparr>"

lemma loop_net_simps [simp]:
  "net_write (loop_net native) = loop_write" "net_read (loop_net native) = loop_read native"
  "net_read_until (loop_net native) t = loop_read native"
  by (simp_all add: loop_net_def)

lemma loop_contract: "asio_contract (loop_net native)"
  by (auto simp: asio_contract_def loop_read_def loop_take_def Let_def split: list.split option.split)

section \<open>A server whose connections are not flooded\<close>

text \<open>A connection on which no more bytes wait than the message buffer takes never overflows it.\<close>

definition co_calm :: "wire coroutine \<Rightarrow> bool" where
  "co_calm co \<longleftrightarrow> co_ok co \<and> length (incoming (co_wire co)) \<le> 313"

definition calm_event :: "data_server_event \<Rightarrow> bool" where
  "calm_event e \<longleftrightarrow> e \<noteq> Stopped \<and> (\<forall>w. e = Accepted w \<longrightarrow> length (incoming w) \<le> 313)"

lemma end_turn_wire: "end_turn (Return go ses) = Some co \<Longrightarrow> co_wire co = m_next_layer (mothbus_stream ses)"
  by auto

lemma answered_incoming [simp]:
  "incoming (m_next_layer (mothbus_stream (answered wire_net header pdu ses))) = incoming (m_next_layer (mothbus_stream ses))"
  by (simp add: answered_def sent_def Let_def)

lemma seen_wire [simp]: "m_next_layer (mothbus_stream (seen ses st)) = snd st"
  by (simp add: seen_def)

lemma wire_read_shrinks: "wire_read k w = (ec, bs, w') \<Longrightarrow> length bs + length (incoming w') = length (incoming w)"
  by (auto simp: wire_read_def split: if_splits)

lemma resume_calm:
  assumes "co_calm co"
  shows "\<exists>co'. data_react wire_net native d u co = Some co' \<and> co_calm co'"
proof -
  have ok: "co_ok co" "session_ok (co_session co)"
    using assms by (auto simp: co_calm_def co_ok_def)
  have "\<not> co_overflows wire_net co"
    using assms by (auto simp: co_overflows_def co_calm_def split: co_point.split dest!: wire_read_shrinks)
  then obtain co' where co': "data_react wire_net native d u co = Some co'" "co_ok co'"
    using wire_data.resume_cases [OF ok(1), of native d u] by auto
  moreover have "length (incoming (co_wire co')) \<le> length (incoming (co_wire co))"
  proof (cases "co_point co")
    case At_header
    then show ?thesis
      using co'(1) wire_read_shrinks [of 7 "co_wire co"]
      by (auto simp: resume_def resume_header_form [OF wire_contract ok(2)] Let_def split: prod.splits if_splits)
  next
    case (At_body header source)
    obtain ec bs n where read: "wire_read (unat (hdr_length header) - 1) (co_wire co) = (ec, bs, n)"
      by (metis prod_cases3)
    have src: "source = received (session_buffer (co_session co)) 7 7"
      using ok(1) by (simp add: co_ok_def At_body)
    have "session_ok (seen (co_session co) (overwrite 7 bs (session_buffer (co_session co)), n))"
      if "length bs \<le> 313"
      using that ok(2) by (intro session_ok_seen) (simp_all add: session_ok_def)
    then show ?thesis
      using co'(1) wire_read_shrinks [OF read]
        resume_body_form [OF wire_contract ok(2) _ refl, of header ec bs n
          "data_handler wire_net native (s_holding_registers d)", folded src] read
      by (auto simp: resume_def At_body wire_data.end_handler simp del: One_nat_def
          split: if_splits option.splits prod.splits)
  next
    case Ended
    then show ?thesis
      using co'(1) by (simp add: resume_def)
  qed
  ultimately show ?thesis
    using assms by (auto simp: co_calm_def)
qed

lemma calm_step:
  assumes "srv_running sv" "list_all co_calm (srv_connections sv)" "calm_event e"
  shows "\<exists>sv'. server_step co_start (data_react wire_net native) run_posted sv e = Some sv' \<and>
    srv_running sv' \<and> list_all co_calm (srv_connections sv')"
proof (cases e)
  case (Accepted w)
  then have "co_calm (co_start w)"
    using assms(3) session_ok_start [of w]
    by (simp add: calm_event_def co_calm_def co_start_def co_ok_def) (simp add: session_start_def tcp_stream_ctor_def)
  with assms Accepted show ?thesis
    by (auto simp: server_step_def)
next
  case (Completed j r)
  then show ?thesis
    using assms(1,2) resume_calm [of "srv_connections sv ! j" native "srv_env sv" r]
    by (auto simp: server_step_def list_all_length nth_list_update)
qed (use assms in \<open>auto simp: server_step_def calm_event_def\<close>)

lemma calm_run:
  assumes "srv_running sv" "list_all co_calm (srv_connections sv)" "list_all calm_event es"
  shows "\<exists>sv'. run_data native sv es = Some sv' \<and> srv_running sv' \<and> list_all co_calm (srv_connections sv')"
  using assms
proof (induction es arbitrary: sv)
  case Nil
  then show ?case by simp
next
  case (Cons e es)
  obtain sv1 where "server_step co_start (data_react wire_net native) run_posted sv e = Some sv1"
      "srv_running sv1" "list_all co_calm (srv_connections sv1)"
    using calm_step [OF Cons.prems(1,2)] Cons.prems(3) by auto
  with Cons show ?case by simp
qed

text \<open>How many updates were posted before each completion of the connection.\<close>

fun posted_before :: "nat \<Rightarrow> nat \<Rightarrow> ('s, 'e) server_event list \<Rightarrow> nat list" where
  "posted_before i p [] = []"
| "posted_before i p (Completed j e # es) = (if j = i then [p] else []) @ posted_before i p es"
| "posted_before i p (Posted # es) = posted_before i (Suc p) es"
| "posted_before i p (_ # es) = posted_before i p es"

text \<open>What a connection sees: the data after the updates posted until then.\<close>

lemma view_posted:
  assumes "run_data native sv es = Some sv'" "srv_running sv" "Stopped \<notin> set es" "srv_env sv = (run_posted ^^ p) d"
  shows "view co_start (data_react wire_net native) run_posted i sv es =
    map (\<lambda>k. ((run_posted ^^ k) d, ())) (posted_before i p es)"
  using assms
proof (induction es arbitrary: sv p)
  case Nil
  then show ?case by simp
next
  case (Cons e es)
  from Cons.prems(1) obtain sv1 where sv1: "server_step co_start (data_react wire_net native) run_posted sv e = Some sv1"
      "run_data native sv1 es = Some sv'"
    by (auto split: Option.bind_splits)
  have env: "srv_env sv1 = (run_posted ^^ (if e = Posted then Suc p else p)) d" "srv_running sv1"
    using step_env [OF sv1(1)] Cons.prems by auto
  have rest: "view co_start (data_react wire_net native) run_posted i sv1 es =
      map (\<lambda>k. ((run_posted ^^ k) d, ())) (posted_before i (if e = Posted then Suc p else p) es)"
    using Cons.prems(3) by (intro Cons.IH [OF sv1(2) env(2) _ env(1)]) simp
  have "view co_start (data_react wire_net native) run_posted i sv (e # es) = own_event i sv e @
      map (\<lambda>k. ((run_posted ^^ k) d, ())) (posted_before i (if e = Posted then Suc p else p) es)"
    by (simp add: sv1(1) rest)
  then show ?case
    using Cons.prems(2-4) by (cases e) (simp_all del: funpow.simps view.simps)
qed

section \<open>Waiting\<close>

abbreviation loop_co :: "loop \<Rightarrow> wire coroutine" where
  "loop_co l \<equiv> srv_connections (loop_server l) ! loop_conn l"

definition loop_ok :: "loop \<Rightarrow> bool" where
  "loop_ok l \<longleftrightarrow> srv_running (loop_server l) \<and> list_all co_calm (srv_connections (loop_server l)) \<and>
     loop_conn l < length (srv_connections (loop_server l))"

lemma set_wire_simps [simp]:
  "co_wire (set_wire w co) = w" "co_point (set_wire w co) = co_point co"
  "m_protocol (mothbus_stream (co_session (set_wire w co))) = m_protocol (mothbus_stream (co_session co))"
  by (simp_all add: set_wire_def)

lemma set_wire_calm: "co_calm co \<Longrightarrow> length (incoming w) \<le> 313 \<Longrightarrow> co_calm (set_wire w co)"
  by (auto simp: co_calm_def co_ok_def session_ok_def set_wire_def split: co_point.splits)

lemma set_loop_wire_simps [simp]:
  "loop_conn (set_loop_wire w l) = loop_conn l" "loop_events (set_loop_wire w l) = loop_events l"
  "srv_env (loop_server (set_loop_wire w l)) = srv_env (loop_server l)"
  "loop_ok l \<Longrightarrow> srv_connections (loop_server (set_loop_wire w l)) ! loop_conn l = set_wire w (loop_co l)"
  by (simp_all add: set_loop_wire_def Let_def loop_ok_def)

lemma set_loop_wire_ok: "loop_ok l \<Longrightarrow> length (incoming w) \<le> 313 \<Longrightarrow> loop_ok (set_loop_wire w l)"
  using set_wire_calm [of "loop_co l" w]
  by (auto simp: set_loop_wire_def Let_def loop_ok_def list_all_length nth_list_update)

lemma loop_wait:
  assumes "loop_ok l" "list_all calm_event es" "srv_env (loop_server l) = (run_posted ^^ p) register_data_start"
  obtains sv where "run_data native (loop_server l) es = Some sv" "loop_ok (l\<lparr>loop_server := sv\<rparr>)"
    "srv_env sv = (run_posted ^^ (p + posts es)) register_data_start"
    "reacts (data_react wire_net native)
       (map (\<lambda>k. ((run_posted ^^ k) register_data_start, ())) (posted_before (loop_conn l) p es)) (loop_co l) =
     Some (srv_connections sv ! loop_conn l)"
proof -
  have ok: "srv_running (loop_server l)" "list_all co_calm (srv_connections (loop_server l))"
      "loop_conn l < length (srv_connections (loop_server l))"
    using assms(1) by (simp_all add: loop_ok_def)
  obtain sv where sv: "run_data native (loop_server l) es = Some sv" "srv_running sv" "list_all co_calm (srv_connections sv)"
    using calm_run [OF ok(1,2) assms(2)] by blast
  have "Stopped \<notin> set es"
    using assms(2) by (auto simp: list_all_iff calm_event_def)
  from view_posted [OF sv(1) ok(1) this assms(3)] run_connection [OF sv(1) ok(3)] run_env [OF sv(1) ok(1)] sv assms(3)
  show ?thesis
    by (intro that [of sv]) (simp_all add: loop_ok_def add.commute [of p] funpow_add)
qed

text \<open>A read of what the connection has sent by the end of the wait.\<close>

lemma loop_read_wait:
  assumes "loop_ok l" "loop_events l = es # ess" "list_all calm_event es"
    and "srv_env (loop_server l) = (run_posted ^^ p) register_data_start"
    and "reacts (data_react wire_net native)
       (map (\<lambda>k. ((run_posted ^^ k) register_data_start, ())) (posted_before (loop_conn l) p es)) (loop_co l) = Some co"
    and "co_wire co = \<lparr>incoming = [], outgoing = out @ out'\<rparr>" "k = length out"
  obtains l' where "loop_read native k l = (no_error, out, l')" "loop_ok l'" "loop_events l' = ess"
    "loop_conn l' = loop_conn l" "srv_env (loop_server l') = (run_posted ^^ (p + posts es)) register_data_start"
    "loop_co l' = set_wire \<lparr>incoming = [], outgoing = out'\<rparr> co"
proof -
  from loop_wait [OF assms(1,3,4), of native] obtain sv where sv: "run_data native (loop_server l) es = Some sv"
    "loop_ok (l\<lparr>loop_server := sv\<rparr>)" "srv_env sv = (run_posted ^^ (p + posts es)) register_data_start"
    "srv_connections sv ! loop_conn l = co"
    using assms(5) by auto
  let ?l = "l\<lparr>loop_server := sv, loop_events := ess\<rparr>"
  have ok: "loop_ok ?l"
    using sv(2) by (simp add: loop_ok_def)
  have "loop_read native k l = (no_error, out, set_loop_wire \<lparr>incoming = [], outgoing = out'\<rparr> ?l)"
    using sv(4) assms(6,7) by (simp add: loop_read_def assms(2) sv(1) loop_take_def loop_wire_def)
  with ok sv(3,4) set_loop_wire_ok [OF ok] set_loop_wire_simps(4) [OF ok] show ?thesis
    by (intro that [of "set_loop_wire \<lparr>incoming = [], outgoing = out'\<rparr> ?l"]) simp_all
qed

text \<open>The connection of the master waits for a request and nothing is on its way.\<close>

definition loop_idle :: "u16 \<Rightarrow> loop \<Rightarrow> bool" where
  "loop_idle q l \<longleftrightarrow> loop_ok l \<and> co_point (loop_co l) = At_header \<and> co_wire (loop_co l) = \<lparr>incoming = [], outgoing = []\<rparr> \<and>
     m_protocol (mothbus_stream (co_session (loop_co l))) = q"

text \<open>The waits of one call: two completions of the connection of the master in the first, none in the
  second.\<close>

definition call_waits :: "nat \<Rightarrow> data_server_event list \<times> data_server_event list \<Rightarrow> bool" where
  "call_waits i w \<longleftrightarrow> list_all calm_event (fst w) \<and> list_all calm_event (snd w) \<and>
     length (posted_before i 0 (fst w)) = 2 \<and> posted_before i 0 (snd w) = []"

lemma posted_before_length: "length (posted_before i p es) = length (posted_before i q es)"
  by (induction i p es arbitrary: q rule: posted_before.induct) auto

lemma loop_exchange:
  assumes idle: "loop_idle q l" and events: "loop_events l = fst w # snd w # ess" and w: "call_waits (loop_conn l) w"
    and env: "srv_env (loop_server l) = (run_posted ^^ p) register_data_start"
    and v: "pdu_req_wf v" "length (pdu_req_bytes v) \<le> 253"
    and regs: "regs = s_holding_registers ((run_posted ^^ (posted_before (loop_conn l) p (fst w) ! 1)) register_data_start)"
  shows "\<exists>l1 l'. loop_write (mbap_frame tid proto unit_id (pdu_req_bytes v)) l = (no_error, l1) \<and>
    receives_frame (loop_net native) l1 (mbap_frame tid q unit_id (register_reply regs v)) l' \<and>
    loop_idle q l' \<and> loop_events l' = ess \<and> loop_conn l' = loop_conn l \<and>
    srv_env (loop_server l') = (run_posted ^^ (p + posts (fst w) + posts (snd w))) register_data_start"
proof -
  let ?frame = "mbap_frame tid proto unit_id (pdu_req_bytes v)"
  let ?answer = "mbap_frame tid q unit_id (register_reply regs v)"
  let ?d = "\<lambda>k. (run_posted ^^ k) register_data_start"
  let ?l = "set_loop_wire \<lparr>incoming = ?frame, outgoing = []\<rparr> l"
  have ok: "loop_ok l"
    using idle by (simp add: loop_idle_def)
  have l: "loop_ok ?l"
    using v(2) by (intro set_loop_wire_ok [OF ok]) simp
  let ?ses = "co_session (loop_co ?l)"
  have co: "loop_co ?l = \<lparr>co_session = ?ses, co_point = At_header\<rparr>" "co_wire (loop_co ?l) = \<lparr>incoming = ?frame, outgoing = []\<rparr>"
      "m_protocol (mothbus_stream ?ses) = q"
    using idle by (simp_all add: loop_idle_def set_wire_def ok)
  have ses: "session_ok ?ses"
    using l by (simp add: loop_ok_def list_all_length co_calm_def co_ok_def)
  obtain k1 k2 where ks: "posted_before (loop_conn l) p (fst w) = [k1, k2]"
    using w posted_before_length [of "loop_conn l" p "fst w" 0]
    by (auto simp: call_waits_def length_Suc_conv numeral_2_eq_2)
  have "receives_frame wire_net (co_wire (loop_co ?l)) ?frame ((co_wire (loop_co ?l))\<lparr>incoming := []\<rparr>)"
    unfolding co(2) by (rule wire_receives) simp_all
  from wire_data.resume_frame [OF ses v refl this, of native "?d k1" "()" "?d k2" "()"]
  obtain ses' where first: "reacts (data_react wire_net native) (map (\<lambda>k. (?d k, ())) (posted_before (loop_conn ?l) p (fst w)))
        (loop_co ?l) = Some \<lparr>co_session = ses', co_point = At_header\<rparr>"
      "m_next_layer (mothbus_stream ses') = \<lparr>incoming = [], outgoing = take 7 ?answer @ drop 7 ?answer\<rparr>"
      "m_protocol (mothbus_stream ses') = q"
    using co regs by (simp add: ks header_of_frame answered_def seen_def sent_def Let_def)
  have waits: "list_all calm_event (fst w)" "list_all calm_event (snd w)"
    using w by (simp_all add: call_waits_def)
  obtain l2 where l2: "loop_read native 7 ?l = (no_error, take 7 ?answer, l2)" "loop_ok l2" "loop_events l2 = snd w # ess"
      "loop_conn l2 = loop_conn l" "srv_env (loop_server l2) = ?d (p + posts (fst w))"
      "loop_co l2 = set_wire \<lparr>incoming = [], outgoing = drop 7 ?answer\<rparr> \<lparr>co_session = ses', co_point = At_header\<rparr>"
    using loop_read_wait [OF l _ waits(1) _ first(1), of "snd w # ess" "take 7 ?answer" "drop 7 ?answer" 7] first(2)
    by (auto simp: events env)
  have "posted_before (loop_conn l2) (p + posts (fst w)) (snd w) = []"
    using w posted_before_length [of "loop_conn l" "p + posts (fst w)" "snd w" 0] by (simp add: call_waits_def l2(4))
  then obtain l3 where l3: "loop_read native (length ?answer - 7) l2 = (no_error, drop 7 ?answer, l3)" "loop_ok l3"
      "loop_events l3 = ess" "loop_conn l3 = loop_conn l"
      "srv_env (loop_server l3) = ?d (p + posts (fst w) + posts (snd w))"
      "loop_co l3 = set_wire \<lparr>incoming = [], outgoing = []\<rparr> (loop_co l2)"
    using loop_read_wait [OF l2(2,3) waits(2) l2(5), of native "loop_co l2" "drop 7 ?answer" "[]"] l2(4,6)
    by auto
  have "loop_write ?frame l = (no_error, ?l)"
    using idle by (simp add: loop_write_def loop_wire_def loop_idle_def)
  moreover have "receives_frame (loop_net native) ?l ?answer l3"
    using l2(1) l3(1) by (simp add: receives_frame_def)
  moreover have "loop_idle q l3"
    using l3(2) first(3) by (simp add: loop_idle_def l3(6) l2(6))
  ultimately show ?thesis
    using l3(3-5) by blast
qed

end
