(* ===== verification/Tcp_Session.thy ===== *)
theory Tcp_Session
  imports Master_Calls Tcp_Loop
begin

text \<open>
  Sessions of a master with the running server with data, over the joint system of \<open>Tcp_Loop\<close>. The server is
  specified as a store of one value, \<open>call_value\<close>.
\<close>

section \<open>The specification: one value\<close>

definition posted_value :: "nat \<Rightarrow> u16" where
  "posted_value p = (if p = 0 then 0 else of_nat (min p 500 - 1))"

text \<open>Why an access to \<open>q\<close> registers is refused, if it is.\<close>

definition access_refused :: "u16 \<Rightarrow> nat \<Rightarrow> modbus_exception_code option" where
  "access_refused address q =
     (if q = 0 \<or> 125 < q then Some illegal_data_value
      else if 200 < unat address + q then Some illegal_data_address
      else None)"

text \<open>A store that holds the value \<open>v\<close> in every register: holding registers can be read, everything else is
  refused. An array with an odd number of bytes is filled up to its last byte, and the answer called invalid.\<close>

fun call_value :: "u16 \<Rightarrow> master_call \<Rightarrow> call_result" where
  "call_value v (Call_bytes (Read_registers address) out) =
     (let q = length out div 2 in
      case access_refused address q of
        Some e \<Rightarrow> Bytes_read (make_error_code e) out
      | None \<Rightarrow> Bytes_read (if even (length out) then no_error else make_error_code invalid_response)
          (be_bytes (replicate q v) @ drop (2 * q) out))"
| "call_value v (Call_registers (Registers_uint16 address) out) =
     (case access_refused address (length out) of
        Some e \<Rightarrow> Registers_read (make_error_code e) out
      | None \<Rightarrow> Registers_read no_error (replicate (length out) v))"
| "call_value v (Call_bytes c out) = Bytes_read (make_error_code illegal_function) out"
| "call_value v (Call_registers c out) = Registers_read (make_error_code illegal_function) out"
| "call_value v (Call_write c) = Write_done (make_error_code illegal_function)"

text \<open>The answers to reads of 124 and 125 registers are longer than the stream of the master accepts.\<close>

definition session_quantity :: "nat \<Rightarrow> bool" where
  "session_quantity q \<longleftrightarrow> q \<le> 123 \<or> 125 < q \<and> q < 65536"

fun session_call :: "master_call \<Rightarrow> bool" where
  "session_call (Call_bytes (Read_registers address) out) \<longleftrightarrow> session_quantity (length out div 2)"
| "session_call (Call_registers (Registers_uint16 address) out) \<longleftrightarrow> session_quantity (length out)"
| "session_call call \<longleftrightarrow> call_documented call"

text \<open>\<open>p\<close> updates have been posted; each call waits twice, and the value is the one at the second
  completion.\<close>

fun calls_spec ::
    "nat \<Rightarrow> nat \<Rightarrow> (u8 \<times> master_call) list \<Rightarrow> (('s, 'e) server_event list \<times> ('s, 'e) server_event list) list \<Rightarrow>
     call_result list" where
  "calls_spec i p ((slave, call) # calls) ((es, es') # waits) =
     call_value (posted_value (posted_before i p es ! 1)) call # calls_spec i (p + posts es + posts es') calls waits"
| "calls_spec i p _ _ = []"

section \<open>A call\<close>

text \<open>What the master makes of the answers of the server with data.\<close>

lemma values_answer_registers:
  assumes "1 \<le> length regs" "length regs \<le> 123" "2 * length regs \<le> length out"
  shows "values_answer fc_read_holding_registers out (values_pdu (be_bytes regs)) =
    (no_error, of_nat (2 * length regs), be_bytes regs @ drop (2 * length regs) out, [])"
proof -
  have "unat (of_nat (2 * length regs) :: u8) = 2 * length regs"
    using assms(2) by (intro unat_of_nat_u8) simp
  with assms show ?thesis
    by (simp add: values_pdu_def del: of_nat_mult)
qed

lemma answer_refused:
  assumes "fc AND 0x80 = 0" "e \<in> {illegal_function, illegal_data_address, illegal_data_value}"
  shows "values_answer fc out (exception_pdu fc e) = (make_error_code e, of_nat (length out), out, [])"
    and "echo_answer fc single (exception_pdu fc e) = (make_error_code e, [])" "failed (make_error_code e)"
  using assms(2) by (auto simp: exception_pdu_def protocol_consts)

lemma register_reply_holding:
  assumes "session_quantity q"
  shows "register_reply (replicate 200 x) (Read_holding \<lparr>rh_starting_address = address, rh_quantity_of_registers = of_nat q\<rparr>) =
    (case access_refused address q of
       Some e \<Rightarrow> exception_pdu fc_read_holding_registers e
     | None \<Rightarrow> values_pdu (be_bytes (replicate q x)))"
proof -
  have "unat (of_nat q :: u16) = q"
    using assms by (intro unat_of_nat_u16) (auto simp: session_quantity_def)
  then show ?thesis
    by (auto simp: access_refused_def Let_def min_def)
qed

lemma access_refusedD:
  "access_refused address q = Some e \<Longrightarrow> e \<in> {illegal_function, illegal_data_address, illegal_data_value}"
  "access_refused address q = None \<Longrightarrow> session_quantity q \<Longrightarrow> 1 \<le> q \<and> q \<le> 123"
  by (auto simp: access_refused_def session_quantity_def split: if_splits)

text \<open>Requests other than reads of holding registers are refused.\<close>

lemma register_reply_refused:
  "(\<And>req. v \<noteq> Read_holding req) \<Longrightarrow> register_reply regs v = exception_pdu (pdu_req_fc v) illegal_function"
  by (cases v) auto

lemma reading_message_fc: "pdu_req_fc (reading_message c out) = reading_fc c"
  by (cases c) simp_all

lemma registers_message_fc: "pdu_req_fc (registers_message c n) = registers_fc c"
  by (cases c) simp_all

lemma writing_message_fc: "pdu_req_fc (writing_message c) = writing_fc c"
  by (cases c) (simp_all add: Let_def)

lemmas message_fc = reading_message_fc registers_message_fc writing_message_fc

lemma call_answer_refused:
  assumes "pdu = exception_pdu (pdu_req_fc (call_message call)) e"
    and "e \<in> {illegal_function, illegal_data_address, illegal_data_value}"
  shows "call_answer call pdu =
    (case call of
       Call_bytes c out \<Rightarrow> Bytes_read (make_error_code e) out
     | Call_registers c out \<Rightarrow> Registers_read (make_error_code e) out
     | Call_write c \<Rightarrow> Write_done (make_error_code e))"
  using assms(2) answer_refused(3) [of 0 e]
  by (cases call) (simp_all add: assms(1) message_fc answer_refused read_result_def registers_result_def write_result_def Let_def)

lemma session_call_cases:
  assumes "session_call call"
  obtains (bytes) address out where "call = Call_bytes (Read_registers address) out" "session_quantity (length out div 2)"
  | (registers) address out where "call = Call_registers (Registers_uint16 address) out" "session_quantity (length out)"
  | (other) "\<And>req. call_message call \<noteq> Read_holding req" "call_value v call =
      (case call of
         Call_bytes c out \<Rightarrow> Bytes_read (make_error_code illegal_function) out
       | Call_registers c out \<Rightarrow> Registers_read (make_error_code illegal_function) out
       | Call_write c \<Rightarrow> Write_done (make_error_code illegal_function))"
  using assms
proof (cases call)
  case (Call_bytes c out)
  then show ?thesis
    using assms bytes other by (cases c) auto
next
  case (Call_registers c out)
  then show ?thesis
    using assms registers other by (cases c) auto
next
  case (Call_write c)
  then show ?thesis
    using other by (cases c) (auto simp: Let_def)
qed

lemma session_call_documented: "session_call call \<Longrightarrow> call_documented call"
  by (cases call rule: session_call.cases) auto

lemma session_reply_length:
  assumes "session_call call"
  shows "1 \<le> length (register_reply (replicate 200 x) (call_message call)) \<and>
    length (register_reply (replicate 200 x) (call_message call)) \<le> 248"
  using assms
proof (cases rule: session_call_cases [where v = x])
  case (bytes address out)
  then show ?thesis
    using access_refusedD [of address "length out div 2"]
    by (auto simp: register_reply_holding exception_pdu_def values_pdu_def simp del: register_reply.simps split: option.split)
next
  case (registers address out)
  then show ?thesis
    using access_refusedD [of address "length out"]
    by (auto simp: register_reply_holding exception_pdu_def values_pdu_def simp del: register_reply.simps split: option.split)
next
  case other
  then show ?thesis
    by (simp add: register_reply_refused exception_pdu_def)
qed

lemma call_answer_value:
  assumes "session_call call"
  shows "call_answer call (register_reply (replicate 200 v) (call_message call)) = call_value v call"
  using assms
proof (cases rule: session_call_cases [where v = v])
  case (bytes address out)
  let ?q = "length out div 2"
  show ?thesis
  proof (cases "access_refused address ?q")
    case None
    note q = access_refusedD(2) [OF None bytes(2)]
    have "unat (of_nat (2 * ?q) :: u8) = 2 * ?q"
      using q by (intro unat_of_nat_u8) simp
    then show ?thesis
      using q None values_answer_registers [of "replicate ?q v" out]
      by (auto simp: bytes register_reply_holding read_result_def simp del: register_reply.simps of_nat_mult)
  next
    case (Some e)
    then show ?thesis
      using call_answer_refused [OF _ access_refusedD(1) [OF Some], of _ call]
      by (simp add: bytes register_reply_holding Let_def del: register_reply.simps call_answer.simps)
  qed
next
  case (registers address out)
  let ?q = "length out"
  show ?thesis
  proof (cases "access_refused address ?q")
    case None
    note q = access_refusedD(2) [OF None registers(2)]
    have "unat (of_nat (2 * ?q) :: u8) = 2 * ?q"
      using q by (intro unat_of_nat_u8) simp
    moreover have "decode_registers (be_bytes (replicate ?q v)) ?q = replicate ?q v"
      using decode_be_bytes [of "replicate ?q v" "[]"] by simp
    ultimately show ?thesis
      using q None values_answer_registers [of "replicate ?q v" "register_bytes out"]
      by (auto simp: registers register_reply_holding registers_result_def read_result_def success_def mult.commute
          simp del: register_reply.simps of_nat_mult)
  next
    case (Some e)
    then show ?thesis
      using call_answer_refused [OF _ access_refusedD(1) [OF Some], of _ call]
      by (simp add: registers register_reply_holding del: register_reply.simps call_answer.simps)
  qed
next
  case other
  then show ?thesis
    using call_answer_refused [OF register_reply_refused [OF other(1)]] by (simp del: call_answer.simps)
qed

text \<open>A read of registers that is answered as the server with data answers, whatever its registers hold.\<close>

lemma read_registers_call:
  assumes st: "tcp_at net q st" "slave \<noteq> 0" and out: "1 \<le> length out" "length out \<le> 123"
    and reply: "answers net st slave (pdu_req_bytes (Read_holding
        \<lparr>rh_starting_address = address, rh_quantity_of_registers = of_nat (length out)\<rparr>))
      (register_reply regs (Read_holding \<lparr>rh_starting_address = address, rh_quantity_of_registers = of_nat (length out)\<rparr>)) n"
  shows "\<exists>st'. read_registers_uint16 (tcp_write_request net) (tcp_read_response net) slave address out st =
    Return (if unat address + length out \<le> length regs
      then (no_error, take (length out) (drop (unat address) regs))
      else (make_error_code illegal_data_address, out)) st' \<and> tcp_at net q st' \<and> m_next_layer st' = n"
proof -
  let ?call = "Call_registers (Registers_uint16 address) out"
  let ?vals = "take (length out) (drop (unat address) regs)"
  let ?fits = "unat address + length out \<le> length regs"
  define pdu where "pdu = (if ?fits then values_pdu (be_bytes ?vals)
      else exception_pdu fc_read_holding_registers illegal_data_address)"
  have "register_reply regs (Read_holding \<lparr>rh_starting_address = address, rh_quantity_of_registers = of_nat (length out)\<rparr>) = pdu"
    using out by (auto simp: Let_def pdu_def)
  moreover have "1 \<le> length pdu" "length pdu \<le> 248"
    using out by (auto simp: values_pdu_def exception_pdu_def pdu_def)
  ultimately have "tcp_transaction net st slave (pdu_req_bytes (call_message ?call)) (m_next_layer st) = Return (Inr pdu) n"
    using reply st(2) by (simp add: tcp_transaction_answers)
  from call_returns [OF st(1) _ this] obtain st' where "run_call net slave ?call st = Return (call_answer ?call pdu) st'"
      "tcp_at net q st'" "m_next_layer st' = n"
    by auto
  moreover have "call_answer ?call pdu = (if ?fits then Registers_read no_error ?vals
      else Registers_read (make_error_code illegal_data_address) out)"
  proof (cases ?fits)
    case True
    have "unat (of_nat (2 * length out) :: u8) = 2 * length out"
      using out(2) by (intro unat_of_nat_u8) simp
    then show ?thesis
      using True out values_answer_registers [of ?vals "register_bytes out"] decode_be_bytes [of ?vals "[]"]
      by (simp add: pdu_def registers_result_def read_result_def success_def mult.commute del: of_nat_mult)
  next
    case False
    then show ?thesis
      using call_answer_refused [of pdu ?call illegal_data_address]
      by (simp add: pdu_def del: call_answer.simps)
  qed
  ultimately show ?thesis
    by (auto simp: bind_op_def split: result.splits if_splits)
qed

section \<open>A session\<close>

text \<open>The stream of a master whose connection is idle.\<close>

definition loop_ready :: "loop tcp_stream \<Rightarrow> bool" where
  "loop_ready st \<longleftrightarrow> length (m_message_buffer st) = 320 \<and> loop_idle (m_protocol st) (m_next_layer st)"

lemma loop_call:
  assumes ready: "loop_ready st" and call: "slave \<noteq> 0" "session_call call"
    and events: "loop_events (m_next_layer st) = fst w # snd w # ess" and w: "call_waits i w"
    and i: "loop_conn (m_next_layer st) = i"
    and env: "srv_env (loop_server (m_next_layer st)) = (run_posted ^^ p) register_data_start"
  shows "\<exists>st'. run_call (loop_net native) slave call st =
      Return (call_value (posted_value (posted_before i p (fst w) ! 1)) call) st' \<and>
    loop_ready st' \<and> loop_events (m_next_layer st') = ess \<and> loop_conn (m_next_layer st') = i \<and>
    srv_env (loop_server (m_next_layer st')) = (run_posted ^^ (p + posts (fst w) + posts (snd w))) register_data_start"
proof -
  let ?v = "call_message call"
  let ?k = "posted_before i p (fst w) ! 1"
  let ?regs = "s_holding_registers ((run_posted ^^ ?k) register_data_start)"
  have idle: "loop_idle (m_protocol st) (m_next_layer st)"
    using ready by (simp add: loop_ready_def)
  note v = call_message_wf [OF session_call_documented [OF call(2)]]
  have regs: "?regs = replicate 200 (posted_value ?k)"
    by (simp only: run_posted_start posted_value_def register_data.simps)
  have "length (pdu_req_bytes ?v) \<le> 253"
    using v(2) by simp
  from loop_exchange [OF idle events _ env v(1) this refl, of "m_transaction_id st" "m_protocol st" slave native] w i
  obtain l1 l' where l': "loop_write (mbap_frame (m_transaction_id st) (m_protocol st) slave (pdu_req_bytes ?v)) (m_next_layer st) =
        (no_error, l1)"
      "receives_frame (loop_net native) l1 (mbap_frame (m_transaction_id st) (m_protocol st) slave (register_reply ?regs ?v)) l'"
      "loop_idle (m_protocol st) l'" "loop_events l' = ess" "loop_conn l' = i"
      "srv_env (loop_server l') = (run_posted ^^ (p + posts (fst w) + posts (snd w))) register_data_start"
    by blast
  have "answers (loop_net native) st slave (pdu_req_bytes ?v) (register_reply ?regs ?v) l'"
    using l'(1,2) by (simp add: answers_def)
  then have exchange: "tcp_transaction (loop_net native) st slave (pdu_req_bytes ?v) (m_next_layer st) =
      Return (Inr (register_reply ?regs ?v)) l'"
    using session_reply_length [OF call(2)] call(1) unfolding regs by (intro tcp_transaction_answers) auto
  have "tcp_at (loop_net native) (m_protocol st) st"
    using ready by (simp add: tcp_at_def tcp_ok_def loop_contract loop_ready_def)
  from call_returns [OF this session_call_documented [OF call(2)] exchange]
  obtain st' where "run_call (loop_net native) slave call st = Return (call_value (posted_value ?k) call) st'"
      "tcp_at (loop_net native) (m_protocol st) st'" "m_next_layer st' = l'"
    unfolding regs call_answer_value [OF call(2)] by blast
  then show ?thesis
    using l' by (intro exI [of _ st']) (simp add: loop_ready_def tcp_at_def tcp_ok_def)
qed

lemma client_calls_session:
  assumes "loop_ready st" "list_all (\<lambda>(slave, call). slave \<noteq> 0 \<and> session_call call) calls"
    and "length waits = length calls" "list_all (call_waits i) waits"
    and "loop_events (m_next_layer st) = concat (map (\<lambda>(es, es'). [es, es']) waits) @ ess"
    and "loop_conn (m_next_layer st) = i"
    and "srv_env (loop_server (m_next_layer st)) = (run_posted ^^ p) register_data_start"
  shows "\<exists>st'. client_calls (loop_net native) calls st = Return (calls_spec i p calls waits) st' \<and> loop_ready st' \<and>
    loop_events (m_next_layer st') = ess"
  using assms
proof (induction calls arbitrary: st p waits)
  case Nil
  then show ?case by simp
next
  case (Cons c calls)
  obtain slave call where c: "c = (slave, call)"
    by (cases c)
  obtain w waits' where w: "waits = w # waits'"
    using Cons.prems(3) by (cases waits) auto
  have "loop_events (m_next_layer st) = fst w # snd w # concat (map (\<lambda>(es, es'). [es, es']) waits') @ ess"
    using Cons.prems(5) by (simp add: w split: prod.splits)
  then obtain st1 where st1: "run_call (loop_net native) slave call st =
        Return (call_value (posted_value (posted_before i p (fst w) ! 1)) call) st1" "loop_ready st1"
      "loop_events (m_next_layer st1) = concat (map (\<lambda>(es, es'). [es, es']) waits') @ ess"
      "loop_conn (m_next_layer st1) = i"
      "srv_env (loop_server (m_next_layer st1)) = (run_posted ^^ (p + posts (fst w) + posts (snd w))) register_data_start"
    using loop_call [OF Cons.prems(1), of slave call w _ i p native] Cons.prems(2,4,6,7) by (auto simp: c w)
  obtain st' where "client_calls (loop_net native) calls st1 =
      Return (calls_spec i (p + posts (fst w) + posts (snd w)) calls waits') st'" "loop_ready st'"
      "loop_events (m_next_layer st') = ess"
    using Cons.IH [OF st1(2) _ _ _ st1(3,4,5)] Cons.prems(2-4) by (auto simp: w)
  with st1(1) show ?case
    by (cases w) (simp add: c w bind_op_def)
qed

section \<open>Values never go back\<close>

lemma posted_value_mono: "p \<le> q \<Longrightarrow> unat (posted_value p) \<le> unat (posted_value q)"
proof -
  have "unat (posted_value k) = (if k = 0 then 0 else min k 500 - 1)" for k
  proof (cases "k = 0")
    case False
    have "unat (of_nat (min k 500 - 1) :: u16) = min k 500 - 1"
      by (rule unat_of_nat_u16) simp
    with False show ?thesis
      by (simp only: posted_value_def if_False)
  qed (simp add: posted_value_def)
  then show "p \<le> q \<Longrightarrow> ?thesis"
    by (simp only:) auto
qed

lemma posted_before_range: "Stopped \<notin> set es \<Longrightarrow> k \<in> set (posted_before i p es) \<Longrightarrow> p \<le> k \<and> k \<le> p + posts es"
  by (induction i p es rule: posted_before.induct) (auto split: if_splits)

text \<open>The register values that a result of a call contains.\<close>

fun result_values :: "call_result \<Rightarrow> nat list" where
  "result_values (Bytes_read ec bs) = (if failed ec then [] else map unat (decode_registers bs (length bs div 2)))"
| "result_values (Registers_read ec regs) = (if failed ec then [] else map unat regs)"
| "result_values (Write_done ec) = []"

definition values_read :: "call_result list \<Rightarrow> nat list" where
  "values_read rs = concat (map result_values rs)"

lemma values_read_simps [simp]: "values_read [] = []" "values_read (r # rs) = result_values r @ values_read rs"
  by (simp_all add: values_read_def)

lemma result_values_call: "\<exists>n. result_values (call_value v call) = replicate n (unat v)"
proof (cases "(v, call)" rule: call_value.cases)
  case (1 v' address out)
  have "decode_registers (be_bytes (replicate q v)) q = replicate q v" for q
    using decode_be_bytes [of "replicate q v" "[]"] by simp
  then show ?thesis
    using 1 access_refusedD(1) [of address "length out div 2"] answer_refused(3) [of 0]
    by (auto simp: Let_def illegal_function_def split: option.split)
next
  case (2 v' address out)
  then show ?thesis
    using access_refusedD(1) [of address "length out"] answer_refused(3) [of 0]
    by (auto split: option.split)
qed (auto simp: illegal_function_def success_def)

lemma calls_spec_sorted:
  assumes "list_all (call_waits i) waits"
  shows "sorted (values_read (calls_spec i p calls waits)) \<and>
    (\<forall>x \<in> set (values_read (calls_spec i p calls waits)). unat (posted_value p) \<le> x)"
  using assms
proof (induction i p calls waits rule: calls_spec.induct)
  case (1 i p slave call calls es es' waits)
  let ?k = "posted_before i p es ! 1"
  have "length (posted_before i p es) = 2" "Stopped \<notin> set es"
    using "1.prems" posted_before_length [of i p es 0]
    by (auto simp: call_waits_def list_all_iff calm_event_def)
  then have "p \<le> ?k \<and> ?k \<le> p + posts es"
    by (intro posted_before_range [of es _ i p]) auto
  then have "unat (posted_value p) \<le> unat (posted_value ?k)"
      "unat (posted_value ?k) \<le> unat (posted_value (p + posts es + posts es'))"
    by (auto intro: posted_value_mono)
  moreover have "sorted (values_read (calls_spec i (p + posts es + posts es') calls waits))"
      "\<forall>x \<in> set (values_read (calls_spec i (p + posts es + posts es') calls waits)).
         unat (posted_value (p + posts es + posts es')) \<le> x"
    using "1.IH" "1.prems" by auto
  moreover obtain n where "result_values (call_value (posted_value ?k) call) = replicate n (unat (posted_value ?k))"
    using result_values_call by blast
  ultimately show ?case
    by (fastforce simp: sorted_append)
qed simp_all

section \<open>Properties\<close>

text \<open>A connection that was accepted and has not been used.\<close>

abbreviation no_bytes :: wire where
  "no_bytes \<equiv> \<lparr>incoming = [], outgoing = []\<rparr>"

lemma loop_ready_start:
  assumes "list_all calm_event es0" "data_server wire_net native es0 = Some sv" "i < length (srv_connections sv)"
    and "srv_connections sv ! i = co_start no_bytes"
  shows "loop_ready (tcp_stream_ctor \<lparr>loop_server = sv, loop_conn = i, loop_events = ess\<rparr>)"
    and "srv_env sv = (run_posted ^^ posts es0) register_data_start"
proof -
  have "srv_running sv" "list_all co_calm (srv_connections sv)"
    using calm_run [OF _ _ assms(1), of "accept_start register_data_start" native] assms(2)
    by (auto simp: data_server_def accept_start_def)
  then show "loop_ready (tcp_stream_ctor \<lparr>loop_server = sv, loop_conn = i, loop_events = ess\<rparr>)"
    using assms(3,4)
    by (simp add: loop_ready_def loop_idle_def loop_ok_def tcp_stream_ctor_def co_start_def session_start_def)
  show "srv_env sv = (run_posted ^^ posts es0) register_data_start"
    by (rule data_server_env [OF assms(2)])
qed

text \<open>C1. A master and the server with data, joined over a connection: whatever the server does besides (accepts,
  serves other connections, runs posted updates), a sequence of calls of any functions of the master returns
  what a store of one value returns: reads of holding registers the value that was posted last when the server took
  the body of the request, in all the registers asked for, or the exception for an illegal number of registers or
  an illegal address; every other function is refused. The values never go back, and the session can go on.\<close>

theorem session_calls:
  assumes "list_all calm_event es0" "data_server wire_net native es0 = Some sv" "i < length (srv_connections sv)"
    and "srv_connections sv ! i = co_start no_bytes"
    and "list_all (\<lambda>(slave, call). slave \<noteq> 0 \<and> session_call call) calls"
    and "length waits = length calls" "list_all (call_waits i) waits"
    and "rs = calls_spec i (posts es0) calls waits"
  shows "(\<exists>st'. client_calls (loop_net native) calls (tcp_stream_ctor
        \<lparr>loop_server = sv, loop_conn = i, loop_events = concat (map (\<lambda>(es, es'). [es, es']) waits)\<rparr>) = Return rs st' \<and>
      loop_ready st')
    \<and> sorted (values_read rs)"
proof
  let ?st = "tcp_stream_ctor \<lparr>loop_server = sv, loop_conn = i, loop_events = concat (map (\<lambda>(es, es'). [es, es']) waits)\<rparr>"
  have layer: "m_next_layer (tcp_stream_ctor l) = l" for l :: loop
    by (simp add: tcp_stream_ctor_def)
  show "\<exists>st'. client_calls (loop_net native) calls ?st = Return rs st' \<and> loop_ready st'"
    unfolding assms(8)
    using client_calls_session [OF loop_ready_start(1) [OF assms(1-4)] assms(5-7), of
        "concat (map (\<lambda>(es, es'). [es, es']) waits)" "[]" "posts es0" native, unfolded layer]
      loop_ready_start(2) [OF assms(1-4)] by auto
  show "sorted (values_read rs)"
    unfolding assms(8) using calls_spec_sorted [OF assms(7)] by blast
qed

text \<open>Four calls; an update is posted between the header and the body of the first request.\<close>

theorem session_calls_witness:
  "\<exists>st'. client_calls (loop_net little)
      [(9, Call_registers (Registers_uint16 0) [7, 7]), (9, Call_write (writing.Write_single_coil 3 True)),
       (8, Call_bytes (Read_registers 198) [7, 7, 7]), (9, Call_registers (Registers_uint16 199) [7, 7])]
      (tcp_stream_ctor
      \<lparr>loop_server = \<lparr>srv_env = register_data_start, srv_connections = [co_start no_bytes], srv_accepting = True,
         srv_running = True\<rparr>, loop_conn = 0, loop_events =
         [[Posted, Completed 0 (), Accepted no_bytes, Posted, Completed 0 ()], [Posted],
          [Completed 0 (), Completed 0 ()], [Completed 1 ()],
          [Completed 0 (), Completed 0 ()], [], [Completed 0 (), Completed 0 ()], []]\<rparr>) =
    Return [Registers_read no_error [1, 1], Write_done (make_error_code illegal_function),
      Bytes_read (make_error_code invalid_response) (be_bytes [2] @ [7]),
      Registers_read (make_error_code illegal_data_address) [7, 7]] st'"
proof -
  let ?sv = "\<lparr>srv_env = register_data_start, srv_connections = [co_start no_bytes], srv_accepting = True,
         srv_running = True\<rparr>"
  let ?calls = "[(9, Call_registers (Registers_uint16 0) [7, 7]), (9, Call_write (writing.Write_single_coil 3 True)),
       (8, Call_bytes (Read_registers 198) [7, 7, 7]), (9, Call_registers (Registers_uint16 199) [7, 7])]"
  let ?waits = "[([Posted, Completed 0 (), Accepted no_bytes, Posted, Completed 0 ()], [Posted]),
      ([Completed 0 (), Completed 0 ()], [Completed 1 ()]), ([Completed 0 (), Completed 0 ()], []),
      ([Completed 0 (), Completed 0 ()], [])]"
  have "data_server wire_net little [Accepted no_bytes] = Some ?sv"
    by (simp add: data_server_def server_step_def accept_start_def)
  moreover have "list_all (call_waits 0) ?waits"
    by (simp add: call_waits_def calm_event_def)
  moreover have "calls_spec 0 (posts [Accepted no_bytes :: data_server_event]) ?calls ?waits =
      [Registers_read no_error [1, 1], Write_done (make_error_code illegal_function),
      Bytes_read (make_error_code invalid_response) (be_bytes [2] @ [7]),
      Registers_read (make_error_code illegal_data_address) [7, 7]]"
    by (simp add: access_refused_def posted_value_def Let_def)
  ultimately show ?thesis
    using session_calls [of "[Accepted no_bytes]" little ?sv 0 ?calls ?waits]
    by (auto simp: calm_event_def session_quantity_def)
qed

end
