(* ===== verification/Master_Refusals.thy ===== *)
theory Master_Refusals
  imports Master_Calls
begin

text \<open>
  What an answer that a stream refuses leaves behind, over any network layer and for any calls. Over TCP a
  refused header leaves its body on the connection, on the serial line a foreign address leaves the rest of
  its frame, and the next call takes what is left for its own answer.
\<close>

section \<open>TCP\<close>

text \<open>What happens between master and network layer in a sequence of calls each of which refuses the header it
  receives: a request goes out, seven bytes come in, and they are no header of an answer to it. The errors
  found, and the network layer afterwards; \<^verbatim>\<open>None\<close> if a transfer fails or a header is accepted.\<close>

fun headers_refused ::
    "'n network \<Rightarrow> u16 \<Rightarrow> u16 \<Rightarrow> (u8 \<times> master_call) list \<Rightarrow> 'n \<Rightarrow> (error_code list \<times> 'n) option" where
  "headers_refused net p tid [] n = Some ([], n)"
| "headers_refused net p tid ((slave, call) # calls) n =
     (case net_write net (mbap_frame tid p slave (pdu_req_bytes (call_message call))) n of (ec, n) \<Rightarrow>
        if failed ec then None
        else (case net_read net 7 n of (ec, header, n) \<Rightarrow>
          if failed ec then None
          else (case header_check tid p slave header of
              Inr _ \<Rightarrow> None
            | Inl e \<Rightarrow> map_option (\<lambda>(es, n). (e # es, n)) (headers_refused net p (tid + 1) calls n))))"

lemma headers_refused_Cons:
  assumes "headers_refused net p tid ((slave, call) # calls) n = Some (es, n')" "asio_contract net" "slave \<noteq> 0"
    and "m_transaction_id st = tid" "m_protocol st = p"
  obtains e es' n1 where "es = e # es'" "failed e"
    "tcp_transaction net st slave (pdu_req_bytes (call_message call)) n = Return (Inl e) n1"
    "headers_refused net p (tid + 1) calls n1 = Some (es', n')"
proof -
  obtain ec0 n0 where w: "net_write net (mbap_frame tid p slave (pdu_req_bytes (call_message call))) n = (ec0, n0)"
    by (metis surj_pair)
  obtain ec1 h n1 where r: "net_read net 7 n0 = (ec1, h, n1)"
    by (metis prod_cases3)
  obtain e es' where e: "\<not> failed ec0" "\<not> failed ec1" "header_check tid p slave h = Inl e" "es = e # es'"
    "headers_refused net p (tid + 1) calls n1 = Some (es', n')"
    using assms(1) w r by (auto split: if_splits sum.splits)
  have "failed e"
    using header_check_Inl [OF e(3)] asio_read_length [OF assms(2) r e(2)] by simp
  moreover have "tcp_transaction net st slave (pdu_req_bytes (call_message call)) n = Return (Inl e) n1"
    using e w r assms(3-5) by (simp add: tcp_transaction_def mothbus_write_def net_receive_def bind_op_def)
  ultimately show ?thesis using e that by blast
qed

section \<open>The serial line\<close>

text \<open>Likewise a request goes out and one byte comes in, which is not the address of the slave. That the request
  could not be sent is not noticed.\<close>

fun addresses_refused :: "'n network \<Rightarrow> nat \<Rightarrow> (u8 \<times> master_call) list \<Rightarrow> 'n \<Rightarrow> 'n option" where
  "addresses_refused net t [] n = Some n"
| "addresses_refused net t ((slave, call) # calls) n =
     (case net_read_until net t 1 (snd (net_write net (rtu_frame slave (pdu_req_bytes (call_message call))) n)) of
        (ec, bs, n) \<Rightarrow> if failed ec \<or> bs = [slave] then None else addresses_refused net t calls n)"

lemma addresses_refused_Cons:
  assumes "addresses_refused net t ((slave, call) # calls) n = Some n'" "slave \<noteq> 0" "m_timeoutResponse st = t"
  obtains n1 where
    "rtu_transaction net st slave (pdu_req_bytes (call_message call)) n = Return (Inl (make_error_code slave_id_invalid)) n1"
    "addresses_refused net t calls n1 = Some n'"
  using assms by (auto simp: rtu_transaction_def rtu_reception_def split: prod.splits if_splits)

section \<open>Properties\<close>

text \<open>C38. Over TCP, on any network layer and for any calls, a call whose answer has a header it refuses, for any of
  the four reasons, takes exactly the seven bytes of that header and returns the reason; the body stays, and the
  next call takes the seven bytes that come then, which are the body of the refused answer, for its own
  header. So a master that has refused an answer goes on refusing, call after call, whatever correct answers
  stand behind, until seven bytes happen to be a header with the identifier it waits for. Every call takes a new
  identifier all the same.\<close>

theorem tcp_refused_answers_stay:
  assumes "tcp_ok net st" "list_all (\<lambda>(slave, call). slave \<noteq> 0 \<and> call_documented call) calls"
    and "headers_refused net (m_protocol st) (m_transaction_id st) calls (m_next_layer st) = Some (es, n')"
  shows "\<exists>st'. client_calls net calls st = Return (map2 (\<lambda>(slave, call) e. call_failed call e) calls es) st' \<and>
    tcp_ok net st' \<and> m_next_layer st' = n' \<and> m_protocol st' = m_protocol st \<and>
    m_transaction_id st' = m_transaction_id st + of_nat (length calls)"
  using assms
proof (induction calls arbitrary: st es)
  case Nil
  then show ?case by simp
next
  case (Cons c calls)
  obtain slave call where c: "c = (slave, call)" by (cases c)
  have call: "slave \<noteq> 0" "call_documented call" and ok: "tcp_at net (m_protocol st) st" "asio_contract net"
    using Cons.prems(1,2) by (simp_all add: c tcp_at_def tcp_ok_def)
  obtain e es' n1 where e: "es = e # es'" "failed e"
    "tcp_transaction net st slave (pdu_req_bytes (call_message call)) (m_next_layer st) = Return (Inl e) n1"
    "headers_refused net (m_protocol st) (m_transaction_id st + 1) calls n1 = Some (es', n')"
    by (rule headers_refused_Cons [OF Cons.prems(3) [unfolded c] ok(2) call(1) refl refl])
  obtain st1 where st1: "run_call net slave call st = Return (call_failed call e) st1"
    "tcp_at net (m_protocol st) st1" "m_next_layer st1 = n1"
    using call_refused [OF ok(1) call(2) e(2,3)] by blast
  have "m_transaction_id st1 = m_transaction_id st + 1"
    using call_moves(1) [of net slave call] st1(1) by (simp add: moves_def)
  then show ?case
    using Cons.IH [of st1 es'] Cons.prems(2) st1 e(1,4) by (auto simp: c tcp_at_def bind_op_def)
qed

text \<open>The answer to an earlier call arrives, a foreign identifier, and behind it the correct answers to both calls. The
  second call takes body and beginning of a frame for a header, as would the third.\<close>

theorem tcp_refused_answers_stay_witness:
  "\<exists>st'. client_calls wire_net [(9, Call_registers (Registers_uint16 0) [0]), (9, Call_write (Write_single_register 4 5))]
      (tcp_stream_ctor \<lparr>incoming = mbap_frame 7 0 9 [3, 2, 0x12, 0x34] @ mbap_frame 0 0 9 [3, 2, 0x12, 0x34] @
        mbap_frame 1 0 9 [6, 0, 4, 0, 5], outgoing = []\<rparr>) =
    Return [Registers_read (make_error_code transaction_id_invalid) [0], Write_done (make_error_code transaction_id_invalid)] st' \<and>
    take 8 (incoming (m_next_layer st')) = [0, 0, 5, 9, 3, 2, 0x12, 0x34]"
proof -
  let ?calls = "[(9, Call_registers (Registers_uint16 0) [0]), (9, Call_write (Write_single_register 4 5))]"
  let ?st = "tcp_stream_ctor \<lparr>incoming = mbap_frame 7 0 9 [3, 2, 0x12, 0x34] @ mbap_frame 0 0 9 [3, 2, 0x12, 0x34] @
        mbap_frame 1 0 9 [6, 0, 4, 0, 5], outgoing = []\<rparr>"
  obtain n' where "headers_refused wire_net (m_protocol ?st) (m_transaction_id ?st) ?calls (m_next_layer ?st) =
      Some ([make_error_code transaction_id_invalid, make_error_code transaction_id_invalid], n')"
    "take 8 (incoming n') = [0, 0, 5, 9, 3, 2, 0x12, 0x34]"
    by (simp add: tcp_stream_ctor_def wire_read_def be16_def mbap_frame_def hi8_def lo8_def)
  with tcp_refused_answers_stay [of wire_net ?st ?calls] show ?thesis
    by (auto simp: streams_ok_ctor)
qed

text \<open>C39. On the serial line, on any network layer and for any calls, a call that receives a byte that is not the
  address of its slave returns that the address is wrong and has taken this one byte; the rest of the frame stays
  for the calls that follow. So a frame of another slave takes as many calls to get over as it has bytes, as
  long as none of its bytes is the address that is waited for.\<close>

theorem rtu_foreign_bytes_stay:
  assumes "asio_contract net" "rtu_ok st" "list_all (\<lambda>(slave, call). slave \<noteq> 0 \<and> call_documented call) calls"
    and "addresses_refused net (m_timeoutResponse st) calls (rtu_next_layer st) = Some n'"
  shows "\<exists>st'. rtu_client_calls net calls st =
      Return (map (\<lambda>(slave, call). call_failed call (make_error_code slave_id_invalid)) calls) st' \<and>
    rtu_ok st' \<and> rtu_next_layer st' = n'"
  using assms(2-)
proof (induction calls arbitrary: st)
  case Nil
  then show ?case by simp
next
  case (Cons c calls)
  obtain slave call where c: "c = (slave, call)" by (cases c)
  have call: "slave \<noteq> 0" "call_documented call" and ok: "rtu_at net st"
    using Cons.prems(1,2) assms(1) by (simp_all add: c rtu_at_def)
  obtain n1 where n1: "rtu_transaction net st slave (pdu_req_bytes (call_message call)) (rtu_next_layer st) =
      Return (Inl (make_error_code slave_id_invalid)) n1"
    "addresses_refused net (m_timeoutResponse st) calls n1 = Some n'"
    by (rule addresses_refused_Cons [OF Cons.prems(3) [unfolded c] call(1) refl])
  have "failed (make_error_code slave_id_invalid)"
    by (simp add: protocol_consts)
  from rtu_call_refused [OF ok call(2) this n1(1)] obtain st1 where
    st1: "run_rtu_call net slave call st = Return (call_failed call (make_error_code slave_id_invalid)) st1"
    "rtu_at net st1" "rtu_next_layer st1 = n1" by blast
  have "m_timeoutResponse st1 = m_timeoutResponse st"
    using call_moves(2) [of net slave call] st1(1) by (simp add: moves_def)
  then show ?case
    using Cons.IH [of st1] Cons.prems(2) st1 n1(2) by (auto simp: c rtu_at_def bind_op_def)
qed

text \<open>An exception of slave 8, whose five bytes five calls to slave 9 take.\<close>

theorem rtu_foreign_bytes_stay_witness:
  "\<exists>st'. rtu_client_calls wire_net (replicate 5 (9, Call_bytes (Read_coils 0 8) [7]))
      (rtu_stream_ctor \<lparr>incoming = [8, 0x83, 2, 0x60, 0xf3] @ [9], outgoing = []\<rparr>) =
    Return (replicate 5 (Bytes_read (make_error_code slave_id_invalid) [7])) st' \<and> incoming (rtu_next_layer st') = [9]"
proof -
  let ?st = "rtu_stream_ctor \<lparr>incoming = [8, 0x83, 2, 0x60, 0xf3] @ [9], outgoing = []\<rparr>"
  let ?calls = "replicate 5 (9, Call_bytes (Read_coils 0 8) [7])"
  have five: "replicate 5 x = [x, x, x, x, x]" for x :: "u8 \<times> master_call"
    by (simp add: numeral_eq_Suc)
  obtain n' where "addresses_refused wire_net (m_timeoutResponse ?st) ?calls (rtu_next_layer ?st) = Some n'" "incoming n' = [9]"
    by (simp add: five wire_read_def)
  with rtu_foreign_bytes_stay [of wire_net ?st ?calls] show ?thesis
    by (auto simp: streams_ok_ctor list_all_iff map_replicate)
qed

end
