(* ===== verification/Rtu_Damage.thy ===== *)
theory Rtu_Damage
  imports Master_Calls
begin

text \<open>
  Damaged answers on the serial line, for every function of the master. The checksum is compared behind the
  bytes that were decoded, so that it protects an answer as long as it is decoded at its length: behind the
  function code and, in answers that carry values, the byte count.
\<close>

section \<open>The answer a call waits for\<close>

fun call_fc :: "master_call \<Rightarrow> function_code" where
  "call_fc (Call_bytes c out) = reading_fc c"
| "call_fc (Call_registers c out) = registers_fc c"
| "call_fc (Call_write c) = writing_fc c"

text \<open>How many values it carries, for the functions that read.\<close>

fun call_count :: "master_call \<Rightarrow> nat option" where
  "call_count (Call_bytes c out) = Some (length out)"
| "call_count (Call_registers c out) = Some (length out * 2)"
| "call_count (Call_write c) = None"

text \<open>Function code, byte count and values, or function code and the four bytes of an echo. \<open>answer_head\<close> is
  the number of bytes that give the answer its length.\<close>

definition whole_answer :: "master_call \<Rightarrow> u8 list \<Rightarrow> bool" where
  "whole_answer call pdu \<longleftrightarrow>
     (case call_count call of
        Some k \<Rightarrow> k < 256 \<and> length pdu = 2 + k \<and> take 2 pdu = [call_fc call, of_nat k]
      | None \<Rightarrow> length pdu = 5 \<and> take 1 pdu = [call_fc call])"

definition answer_head :: "master_call \<Rightarrow> nat" where
  "answer_head call = (case call_count call of Some _ \<Rightarrow> 2 | None \<Rightarrow> 1)"

text \<open>What a call returns for an answer whose checksum is wrong: the byte reading functions have stored the
  values that arrived, the register functions leave the array alone.\<close>

fun call_damaged :: "master_call \<Rightarrow> u8 list \<Rightarrow> call_result" where
  "call_damaged (Call_bytes c out) bs = Bytes_read (make_error_code invalid_response) (take (length out) (drop 2 bs))"
| "call_damaged (Call_registers c out) bs = Registers_read (make_error_code invalid_response) out"
| "call_damaged (Call_write c) bs = Write_done (make_error_code invalid_response)"

section \<open>Decoding at the right length\<close>

lemma rtu_verdict_damaged:
  assumes "CRC16 (slave # pdu @ [l, h]) \<noteq> 0"
  shows "rtu_verdict slave (pdu @ [l, h]) ec [l, h] = Some (make_error_code invalid_response)"
  using assms CRC16_zero_iff [of "slave # pdu" l h] by (auto simp: rtu_verdict_def Let_def)

lemma whole_values_answer:
  assumes "fc AND 0x80 = 0" "k < 256" "length vals = k" "length out = k"
  shows "values_answer fc out (fc # of_nat k # vals @ [l, h]) = (no_error, of_nat k, vals, [l, h])"
  using assms by (simp add: unat_of_nat_u8)

lemma whole_echo_answer:
  assumes "fc AND 0x80 = 0" "length vals = 4"
  shows "snd (echo_answer fc single (fc # vals @ [l, h])) = [l, h]"
proof -
  obtain a b c d where "vals = [a, b, c, d]"
    using assms(2) by (auto simp: numeral_eq_Suc length_Suc_conv)
  then show ?thesis using assms(1) by simp
qed

lemma call_fc_normal: "call_fc call AND 0x80 = 0"
  by (cases call) simp_all

lemma whole_answer_values:
  assumes "whole_answer call pdu" "call_count call = Some k" "length out = k"
  shows "values_answer (call_fc call) out (pdu @ [l, h]) = (no_error, of_nat k, take k (drop 2 pdu), [l, h])"
proof -
  have pdu: "pdu = call_fc call # of_nat k # drop 2 pdu" "k < 256" "length (drop 2 pdu) = k"
    using assms append_take_drop_id [of 2 pdu] by (auto simp: whole_answer_def)
  show ?thesis
    using whole_values_answer [OF call_fc_normal pdu(2,3) assms(3), of call l h] pdu
    by (metis append_Cons order_refl take_all)
qed

lemma damaged_answer:
  assumes answer: "whole_answer call pdu" and crc: "CRC16 (slave # pdu @ [l, h]) \<noteq> 0"
  shows "rtu_call_answer slave call (pdu @ [l, h]) = Some (call_damaged call (pdu @ [l, h]))"
proof -
  note verdict = rtu_verdict_damaged [OF crc] and carried = whole_answer_values [OF answer]
  have invalid: "failed (make_error_code invalid_response)"
    by (simp add: protocol_consts)
  show ?thesis
  proof (cases call)
    case (Call_bytes c out)
    then have "values_answer (reading_fc c) out (pdu @ [l, h]) =
        (no_error, of_nat (length out), take (length out) (drop 2 pdu), [l, h])"
      using carried [of "length out" out] by simp
    moreover have "length pdu = 2 + length out"
      using answer by (simp add: Call_bytes whole_answer_def)
    ultimately show ?thesis
      by (simp add: Call_bytes verdict refused_results [OF invalid])
  next
    case (Call_registers c out)
    then have "values_answer (registers_fc c) (register_bytes out) (pdu @ [l, h]) =
        (no_error, of_nat (length out * 2), take (length out * 2) (drop 2 pdu), [l, h])"
      using carried [of "length out * 2" "register_bytes out"] by simp
    then show ?thesis
      by (simp add: Call_registers verdict refused_results [OF invalid])
  next
    case (Call_write c)
    then have "pdu = writing_fc c # drop 1 pdu" "length (drop 1 pdu) = 4"
      using answer append_take_drop_id [of 1 pdu] by (auto simp: whole_answer_def)
    with whole_echo_answer [OF writing_fc_normal this(2)] have "snd (echo_answer (writing_fc c) (writing_single c) (pdu @ [l, h])) = [l, h]"
      by (metis append_Cons)
    then show ?thesis
      by (auto simp: Call_write verdict refused_results [OF invalid] split: prod.splits)
  qed
qed

text \<open>A frame split at other places is still as long, and still begins the same way.\<close>

lemma last_two:
  assumes "2 \<le> length zs"
  shows "\<exists>p l h. zs = p @ [l, h]"
proof -
  have "length (drop (length zs - 2) zs) = 2" using assms by simp
  then have "\<exists>l h. drop (length zs - 2) zs = [l, h]"
    by (simp only: numeral_2_eq_2 length_Suc_conv length_0_conv) auto
  then show ?thesis by (metis append_take_drop_id)
qed

lemma whole_answer_iff:
  "whole_answer call pdu \<Longrightarrow> length pdu' = length pdu \<Longrightarrow> take (answer_head call) pdu' = take (answer_head call) pdu \<Longrightarrow>
   whole_answer call pdu'"
  by (auto simp: whole_answer_def answer_head_def split: option.splits)

lemma answer_head_inside: "whole_answer call pdu \<Longrightarrow> answer_head call \<le> length pdu"
  by (auto simp: whole_answer_def answer_head_def split: option.splits)

section \<open>Properties\<close>

text \<open>C26. An answer in which two neighbouring bytes were damaged on the line is refused as an invalid response, by
  every function of the master and wherever they are behind the bytes that give the answer its length: among
  the values or the echo, in the checksum, or across the border between them. Damage to the function code or
  the byte count is not covered, since the master then compares other bytes with another checksum.\<close>

theorem rtu_damage_detected:
  assumes "asio_contract net" "rtu_ok st" "call_documented call" "whole_answer call pdu"
    and "crc = CRC16 (slave # pdu)" "pdu @ [lo8 crc, hi8 crc] = xs @ [a, b] @ ys"
    and "(a', b') \<noteq> (a, b)" "answer_head call \<le> length xs"
    and "rtu_transaction net st slave (pdu_req_bytes (call_message call)) (rtu_next_layer st) =
      Return (Inr (xs @ [a', b'] @ ys)) n'"
  shows "\<exists>st'. run_rtu_call net slave call st = Return (call_damaged call (xs @ [a', b'] @ ys)) st' \<and>
    rtu_ok st' \<and> rtu_next_layer st' = n'"
proof -
  have "CRC16 (slave # xs @ [a, b] @ ys) = 0"
    using frame_checksum [of slave pdu] unfolding assms(6) [symmetric] assms(5) by simp
  then have crc: "CRC16 (slave # xs @ [a', b'] @ ys) \<noteq> 0"
    using CRC16_two_bytes [of "slave # xs" a b ys a' b'] assms(7) by auto
  obtain pdu' l h where frame: "xs @ [a', b'] @ ys = pdu' @ [l, h]"
    using last_two [of "xs @ [a', b'] @ ys"] by auto
  let ?k = "answer_head call"
  have len: "length pdu' = length pdu"
    using arg_cong [OF frame, of length] arg_cong [OF assms(6), of length] by simp
  have "take ?k (pdu' @ [l, h]) = take ?k (pdu @ [lo8 crc, hi8 crc])"
    unfolding frame [symmetric] assms(6) using assms(8) by simp
  then have "whole_answer call pdu'"
    using answer_head_inside [OF assms(4)] len by (intro whole_answer_iff [OF assms(4) len]) simp
  from rtu_call_returns [OF _ assms(3) assms(9) damaged_answer [OF this, of slave l h, folded frame, OF crc]]
  show ?thesis using assms(1,2) by (auto simp: rtu_at_def)
qed

text \<open>The checksum of two registers arrives with its first byte changed, together with the last byte of the values.\<close>

theorem rtu_damage_detected_witness:
  "\<exists>st'. run_rtu_call wire_net 9 (Call_bytes (Read_registers 0x10) [0, 0])
      (rtu_stream_ctor \<lparr>incoming = 9 # [3, 2, 0x12] @ [0x35, 0x00] @ [hi8 (CRC16 [9, 3, 2, 0x12, 0x34])], outgoing = []\<rparr>) =
    Return (Bytes_read (make_error_code invalid_response) [0x12, 0x35]) st'"
proof -
  let ?call = "Call_bytes (Read_registers 0x10) [0, 0]" and ?crc = "CRC16 [9, 3, 2, 0x12, 0x34]"
  let ?st = "rtu_stream_ctor \<lparr>incoming = 9 # [3, 2, 0x12] @ [0x35, 0x00] @ [hi8 ?crc], outgoing = []\<rparr>"
  have "whole_answer ?call [3, 2, 0x12, 0x34]" "answer_head ?call \<le> length [3, 2, 0x12 :: u8]"
    by (simp_all add: whole_answer_def answer_head_def protocol_consts)
  moreover have "rtu_transaction wire_net ?st 9 (pdu_req_bytes (call_message ?call)) (rtu_next_layer ?st) =
      Return (Inr ([3, 2, 0x12] @ [0x35, 0x00] @ [hi8 ?crc]))
        \<lparr>incoming = [], outgoing = rtu_frame 9 (pdu_req_bytes (call_message ?call))\<rparr>"
    by (simp add: rtu_transaction_wire)
  ultimately show ?thesis
    using rtu_damage_detected [of wire_net ?st ?call "[3, 2, 0x12, 0x34]" ?crc 9 "[3, 2, 0x12]" "0x34" "lo8 ?crc" "[hi8 ?crc]" "0x35" 0]
    by (auto simp: streams_ok_ctor)
qed

end
