(* ===== verification/Callback_Server.thy ===== *)
theory Callback_Server
  imports Example_Server_Laws Accept_Loop
begin

text \<open>
  Model of \<^verbatim>\<open>src/examples/tcpserver.cpp\<close>: the class \<^verbatim>\<open>connection\<close>, which keeps one asynchronous read of a
  request going and answers from its callback, and the class \<^verbatim>\<open>server\<close> with its accept loop.

  The visitor \<^verbatim>\<open>req_handler\<close> has overloads for two of the ten alternatives of the request variant, so the
  file does not compile. The eight overloads that are missing are the argument \<open>missing\<close> of the model; the
  theorems ask of them only that they return and keep the stream's buffer.
\<close>

section \<open>Connections\<close>

datatype conn_phase = Conn_reading read_state | Conn_closed

record 'n connection =
  conn_stream :: "'n tcp_stream"
  conn_req :: pdu_req
  conn_phase :: conn_phase

type_synonym 'n visitor = "u16 \<Rightarrow> u8 \<Rightarrow> pdu_req \<Rightarrow> ('n tcp_stream, unit) operation"

definition connection_ctor :: "'n \<Rightarrow> 'n connection" where
  "connection_ctor socket = \<lparr>conn_stream = tcp_stream_ctor socket, conn_req = pdu_req_init, conn_phase = Conn_closed\<rparr>"

definition async_read :: "'n connection \<Rightarrow> 'n connection" where
  "async_read conn =
     conn\<lparr>conn_phase := Conn_reading (start_state (async_read_request (m_message_buffer (conn_stream conn)) (conn_req conn)))\<rparr>"

text \<open>\<^verbatim>\<open>std::visit(handler, req)\<close>.\<close>

fun visit_request :: "'n network \<Rightarrow> 'n visitor \<Rightarrow> 'n visitor" where
  "visit_request net missing tid slave (Read_holding req) = req_handler_read_holding net tid slave req"
| "visit_request net missing tid slave (Not_implemented req) = req_handler_not_implemented net tid slave req"
| "visit_request net missing tid slave req = missing tid slave req"

text \<open>\<^verbatim>\<open>handle\<close>, and the callback that calls it. \<^verbatim>\<open>write_response\<close> does not throw; an exception of a missing
  overload would leave \<^verbatim>\<open>main\<close>.\<close>

definition handle_request :: "'n network \<Rightarrow> 'n visitor \<Rightarrow> u16 \<Rightarrow> u8 \<Rightarrow> 'n connection \<Rightarrow> 'n connection option" where
  "handle_request net missing tid slave conn =
     (case visit_request net missing tid slave (conn_req conn) (conn_stream conn) of
        Return _ stream \<Rightarrow> Some (async_read (conn\<lparr>conn_stream := stream\<rparr>))
      | _ \<Rightarrow> None)"

definition read_callback ::
    "'n network \<Rightarrow> 'n visitor \<Rightarrow> u16 \<Rightarrow> u8 \<Rightarrow> error_code \<Rightarrow> 'n connection \<Rightarrow> 'n connection option" where
  "read_callback net missing tid slave ec conn =
     (if failed ec then Some (conn\<lparr>conn_phase := Conn_closed\<rparr>) else handle_request net missing tid slave conn)"

text \<open>The read operation works on the stream's array and on the member \<^verbatim>\<open>req\<close>; both have its values when the
  callback is called.\<close>

definition after_step :: "'n network \<Rightarrow> 'n visitor \<Rightarrow> 'n connection \<Rightarrow> read_state \<Rightarrow> 'n connection option" where
  "after_step net missing conn rs =
     (case rs of
        Corrupt \<Rightarrow> None
      | Called tid slave ec op \<Rightarrow> read_callback net missing tid slave ec
          (conn\<lparr>conn_stream := (conn_stream conn)\<lparr>m_message_buffer := message_buffer (op_source op)\<rparr>,
                conn_req := op_request op\<rparr>)
      | _ \<Rightarrow> Some (conn\<lparr>conn_phase := Conn_reading rs\<rparr>))"

text \<open>The completion of the transfer a connection waits for. A result that the network layer cannot report
  for the region does not occur.\<close>

definition conn_react ::
    "'n network \<Rightarrow> 'n visitor \<Rightarrow> unit \<Rightarrow> error_code \<times> u8 list \<Rightarrow> 'n connection \<Rightarrow> 'n connection option" where
  "conn_react net missing _ c conn =
     (case conn_phase conn of
        Conn_reading (Reading_header region op) \<Rightarrow>
          if completion_ok region c then after_step net missing conn (complete header_handler region op c) else Some conn
      | Conn_reading (Reading_body region op) \<Rightarrow>
          if completion_ok region c then after_step net missing conn (complete body_handler region op c) else Some conn
      | _ \<Rightarrow> Some conn)"

definition conn_start :: "'n \<Rightarrow> 'n connection" where
  "conn_start socket = async_read (connection_ctor socket)"

text \<open>The program after a sequence of events; nothing is posted and nothing stops it.\<close>

definition callback_server ::
    "'n network \<Rightarrow> 'n visitor \<Rightarrow> ('n, error_code \<times> u8 list) server_event list \<Rightarrow> (unit, 'n connection) server option" where
  "callback_server net missing events = server_run conn_start (conn_react net missing) id (accept_start ()) events"

section \<open>Reactions\<close>

text \<open>What a visitor for the missing overloads has to do.\<close>

definition visitor_ok :: "'n visitor \<Rightarrow> bool" where
  "visitor_ok missing \<longleftrightarrow> (\<forall>tid slave v st. length (m_message_buffer st) = 320 \<longrightarrow>
     (\<exists>st'. missing tid slave v st = Return () st' \<and> length (m_message_buffer st') = 320))"

text \<open>What the connection answers to a read of holding registers.\<close>

definition callback_reply :: "u8 \<Rightarrow> read_holding_pdu_req \<Rightarrow> u8 list" where
  "callback_reply slave req =
     (if slave \<noteq> 255 then exception_pdu fc_read_holding_registers gateway_path_unavailable
      else if rh_starting_address req = 100 then values_pdu (replicate (unat (rh_quantity_of_registers req) * 2) 0)
      else exception_pdu fc_read_holding_registers illegal_data_address)"

definition reads_too_much :: "u8 \<Rightarrow> pdu_req \<Rightarrow> bool" where
  "reads_too_much slave v \<longleftrightarrow> (case v of
     Read_holding req \<Rightarrow> slave = 255 \<and> rh_starting_address req = 100 \<and> 155 < unat (rh_quantity_of_registers req)
   | _ \<Rightarrow> False)"

lemma req_handler_form:
  "length (m_message_buffer st) = 320 \<Longrightarrow> req_handler_read_holding net tid slave req st =
    (if reads_too_much slave (Read_holding req) then Undefined else Return () (sent net tid slave (callback_reply slave req) st))"
  by (simp add: req_handler_read_holding_def write_values_form Let_def reads_too_much_def callback_reply_def
      write_exception_response_form [unfolded write_exception_response_def])

lemma callback_reply_fits: "\<not> reads_too_much slave (Read_holding req) \<Longrightarrow> length (callback_reply slave req) \<le> 313"
  by (auto simp: reads_too_much_def callback_reply_def exception_pdu_def values_pdu_def)

lemma visit_cases:
  assumes "visitor_ok missing" "length (m_message_buffer st) = 320"
  shows "if reads_too_much slave v then visit_request net missing tid slave v st = Undefined
    else \<exists>st'. visit_request net missing tid slave v st = Return () st' \<and> length (m_message_buffer st') = 320"
proof (cases v)
  case (Read_holding req)
  then show ?thesis
    using req_handler_form [OF assms(2)] callback_reply_fits [of slave req] assms(2) by auto
next
  case (Not_implemented req)
  then show ?thesis
    using write_exception_response_form [OF assms(2), unfolded write_exception_response_def] assms(2)
    by (auto simp: req_handler_not_implemented_def reads_too_much_def exception_pdu_def)
qed (use assms in \<open>auto simp: visitor_ok_def reads_too_much_def\<close>)

text \<open>What holds of a connection between two completions: its stream has a buffer of 320 bytes, and it waits for
  a header, or for the body that an accepted header announced, or is closed.\<close>

definition conn_ok :: "'n connection \<Rightarrow> bool" where
  "conn_ok conn \<longleftrightarrow>
     (let array = m_message_buffer (conn_stream conn); v0 = conn_req conn in
      length array = 320 \<and>
      (case conn_phase conn of
         Conn_closed \<Rightarrow> True
       | Conn_reading rs \<Rightarrow> rs = server_start array v0 \<or>
           (\<exists>h. length h = 7 \<and> is_valid_length (header_of h) \<and>
              rs = Reading_body (7, unat (hdr_length (header_of h)) - 1) (op_after_header array v0 h))))"

text \<open>The completed body is a request for more registers than the stream's buffer can answer.\<close>

definition conn_overflows :: "error_code \<times> u8 list \<Rightarrow> 'n connection \<Rightarrow> bool" where
  "conn_overflows c conn \<longleftrightarrow>
     (case conn_phase conn of
        Conn_reading (Reading_body region op) \<Rightarrow>
          completion_ok region c \<and> \<not> failed (fst c) \<and>
          (case read_pdu_req checked_read (snd c) (op_request op) of
             Some (ec, v, _) \<Rightarrow> \<not> failed ec \<and> reads_too_much (op_slave op) v
           | None \<Rightarrow> False)
      | _ \<Rightarrow> False)"

lemma conn_ok_async_read: "length (m_message_buffer (conn_stream conn)) = 320 \<Longrightarrow> conn_ok (async_read conn)"
  by (simp add: conn_ok_def async_read_def)

lemma conn_ok_start: "conn_ok (conn_start socket)"
  unfolding conn_start_def
  by (rule conn_ok_async_read) (simp add: connection_ctor_def tcp_stream_ctor_def)

lemma callback_cases:
  assumes "visitor_ok missing" "length (m_message_buffer (conn_stream conn)) = 320"
  shows "if \<not> failed ec \<and> reads_too_much slave (conn_req conn) then read_callback net missing tid slave ec conn = None
    else \<exists>conn'. read_callback net missing tid slave ec conn = Some conn' \<and> conn_ok conn'"
  using visit_cases [OF assms, of slave "conn_req conn" net tid] assms(2)
    conn_ok_async_read [of "conn\<lparr>conn_stream := st\<rparr>" for st]
  by (auto simp: read_callback_def handle_request_def conn_ok_def [of "conn\<lparr>conn_phase := Conn_closed\<rparr>"])

text \<open>The reaction of a connection that waits for a header, and of one that waits for a body.\<close>

lemma header_reaction:
  assumes "length array = 320" "array = m_message_buffer (conn_stream conn)"
    and "conn_phase conn = Conn_reading (server_start array (conn_req conn))" "completion_ok (0, 7) (ec, h)"
  shows "conn_react net missing u (ec, h) conn =
    (if failed ec \<or> \<not> is_valid_length (header_of h)
     then Some (conn\<lparr>conn_stream := (conn_stream conn)\<lparr>m_message_buffer := overwrite 0 h array\<rparr>, conn_phase := Conn_closed\<rparr>)
     else Some (conn\<lparr>conn_phase := Conn_reading
       (Reading_body (7, unat (hdr_length (header_of h)) - 1) (op_after_header array (conn_req conn) h))\<rparr>))"
  using assms(3,4) header_complete [OF assms(1), of h ec "conn_req conn"]
  by (auto simp: conn_react_def server_start after_step_def read_callback_def completion_ok_def
      request_read_op_ctor_def)

lemma body_reaction:
  assumes "length array = 320" "array = m_message_buffer (conn_stream conn)" "length h = 7" "is_valid_length (header_of h)"
    and "k = unat (hdr_length (header_of h)) - 1"
    and "conn_phase conn = Conn_reading (Reading_body (7, k) (op_after_header array (conn_req conn) h))"
    and "completion_ok (7, k) (ec, bs)" "read_pdu_req checked_read bs (conn_req conn) = Some (ec', v, rest)"
  shows "\<exists>mb. length mb = 320 \<and> conn_react net missing u (ec, bs) conn =
    (if failed ec then Some (conn\<lparr>conn_stream := (conn_stream conn)\<lparr>m_message_buffer := mb\<rparr>, conn_phase := Conn_closed\<rparr>)
     else read_callback net missing (hdr_transaction_id (header_of h)) (hdr_unit_id (header_of h)) ec'
       (conn\<lparr>conn_stream := (conn_stream conn)\<lparr>m_message_buffer := mb\<rparr>, conn_req := v\<rparr>))"
proof -
  obtain src where "length (message_buffer src) = 320"
    "complete body_handler (7, k) (op_after_header array (conn_req conn) h) (ec, bs) =
      (if failed ec then Called 0 0 ec ((op_after_header array (conn_req conn) h)\<lparr>op_source := src\<rparr>)
       else Called (hdr_transaction_id (header_of h)) (hdr_unit_id (header_of h)) ec'
         ((op_after_header array (conn_req conn) h)\<lparr>op_source := src, op_request := v\<rparr>))"
    using body_complete [OF assms(1,3,4), of bs k ec "conn_req conn"] assms(5,7,8) by (auto simp: completion_ok_def)
  then show ?thesis
    using assms(6,7)
    by (intro exI [of _ "message_buffer src"])
      (auto simp: conn_react_def after_step_def read_callback_def op_after_header_def)
qed

lemma reaction_cases:
  assumes "visitor_ok missing" "conn_ok conn"
  shows "if conn_overflows c conn then conn_react net missing u c conn = None
    else \<exists>conn'. conn_react net missing u c conn = Some conn' \<and> conn_ok conn'"
proof -
  let ?array = "m_message_buffer (conn_stream conn)" and ?v0 = "conn_req conn"
  obtain ec bs where c: "c = (ec, bs)" by (cases c)
  have len: "length ?array = 320"
    using assms(2) by (simp add: conn_ok_def Let_def)
  consider (closed) "conn_phase conn = Conn_closed"
    | (header) "conn_phase conn = Conn_reading (server_start ?array ?v0)"
    | (body) h where "length h = 7" "is_valid_length (header_of h)"
      "conn_phase conn = Conn_reading (Reading_body (7, unat (hdr_length (header_of h)) - 1) (op_after_header ?array ?v0 h))"
    using assms(2) by (auto simp: conn_ok_def Let_def split: conn_phase.splits)
  then show ?thesis
  proof cases
    case closed
    with assms(2) show ?thesis by (simp add: conn_overflows_def conn_react_def)
  next
    case header
    have no: "\<not> conn_overflows c conn"
      by (simp add: conn_overflows_def header server_start)
    show ?thesis
    proof (cases "completion_ok (0, 7) c")
      case True
      then have "length bs \<le> 7" "\<not> failed ec \<Longrightarrow> length bs = 7"
        by (auto simp: c completion_ok_def)
      with no len show ?thesis
        using header_reaction [OF len refl header True [unfolded c], of net missing u]
        by (auto simp: c conn_ok_def Let_def)
    next
      case False
      with no header assms(2) show ?thesis by (simp add: conn_react_def server_start)
    qed
  next
    case body
    let ?k = "unat (hdr_length (header_of h)) - 1"
    have op: "op_request (op_after_header ?array ?v0 h) = ?v0"
        "op_slave (op_after_header ?array ?v0 h) = hdr_unit_id (header_of h)"
      by (simp_all add: op_after_header_def)
    show ?thesis
    proof (cases "completion_ok (7, ?k) c")
      case True
      obtain ec' v rest where v: "read_pdu_req checked_read bs ?v0 = Some (ec', v, rest)"
        by (cases rule: read_pdu_req_cases [of bs ?v0]) auto
      let ?conn = "\<lambda>mb. conn\<lparr>conn_stream := (conn_stream conn)\<lparr>m_message_buffer := mb\<rparr>, conn_req := v\<rparr>"
      obtain mb where mb: "length mb = 320" "conn_react net missing u c conn =
          (if failed ec then Some (conn\<lparr>conn_stream := (conn_stream conn)\<lparr>m_message_buffer := mb\<rparr>, conn_phase := Conn_closed\<rparr>)
           else read_callback net missing (hdr_transaction_id (header_of h)) (hdr_unit_id (header_of h)) ec' (?conn mb))"
        using body_reaction [OF len refl body(1,2) refl body(3) True [unfolded c] v, of net missing u] by (auto simp: c)
      have "conn_overflows c conn \<longleftrightarrow> \<not> failed ec \<and> \<not> failed ec' \<and> reads_too_much (hdr_unit_id (header_of h)) v"
        using True by (simp add: conn_overflows_def body(3) op c v)
      then show ?thesis
        using callback_cases [OF assms(1), of "?conn mb" ec' "hdr_unit_id (header_of h)" net
            "hdr_transaction_id (header_of h)"] mb
        by (auto simp: conn_ok_def Let_def split: if_splits)
    next
      case False
      with body assms(2) show ?thesis by (simp add: conn_react_def conn_overflows_def)
    qed
  qed
qed

lemma guarded_callback:
  "visitor_ok missing \<Longrightarrow> guarded_connection conn_start (conn_react net missing) conn_ok conn_overflows"
proof unfold_locales
  assume missing: "visitor_ok missing"
  show "conn_ok c'" if "conn_ok c" "conn_react net missing x e c = Some c'" for c x e c'
    using reaction_cases [OF missing that(1), of e net x] that(2) by (auto split: if_splits)
  show "conn_react net missing x e c = None \<longleftrightarrow> conn_overflows e c" if "conn_ok c" for c x e
    using reaction_cases [OF missing that, of e net x] by (auto split: if_splits)
qed (rule conn_ok_start)

text \<open>The overloads of the other examples do for the missing ones: an exception for an illegal function.\<close>

definition refuse :: "'n network \<Rightarrow> 'n visitor" where
  "refuse net = zero_handler net ()"

lemma visitor_ok_refuse: "visitor_ok (refuse net)"
  using zero.reply_fits by (auto simp: visitor_ok_def refuse_def zero.handler_answers)

interpretation refusing: guarded_connection conn_start "conn_react net (refuse net)" conn_ok conn_overflows for net
  by (rule guarded_callback [OF visitor_ok_refuse])

text \<open>Answered requests.\<close>

lemma reacts_frame:
  assumes ok: "length (m_message_buffer (conn_stream conn)) = 320"
    and frame: "frame = mbap_frame tid proto slave (pdu_req_bytes (Read_holding req))"
    and small: "\<not> reads_too_much slave (Read_holding req)"
  shows "\<exists>conn'. reacts (conn_react net missing) [(x1, no_error, take 7 frame), (x2, no_error, drop 7 frame)] (async_read conn) =
      Some (async_read conn') \<and> length (m_message_buffer (conn_stream conn')) = 320 \<and>
    m_protocol (conn_stream conn') = m_protocol (conn_stream conn) \<and>
    m_next_layer (conn_stream conn') = snd (net_write net
      (mbap_frame tid (m_protocol (conn_stream conn)) slave (callback_reply slave req)) (m_next_layer (conn_stream conn)))"
proof -
  let ?array = "m_message_buffer (conn_stream conn)" and ?h = "take 7 frame" and ?bs = "drop 7 frame"
  let ?v = "Read_holding req"
  have five: "length (pdu_req_bytes ?v) = 5"
    by (simp add: pdu_req_bytes_def encodings)
  have h: "length ?h = 7" "is_valid_length (header_of ?h)" "hdr_transaction_id (header_of ?h) = tid"
      "hdr_unit_id (header_of ?h) = slave" "hdr_length (header_of ?h) = 6"
    using five frame_valid_length [of "pdu_req_bytes ?v" tid proto slave]
    by (simp_all add: frame header_of_frame)
  have bs: "?bs = pdu_req_bytes ?v"
    by (simp add: frame mbap_frame_parts)
  have first: "conn_react net missing u (no_error, ?h) (async_read conn) =
      Some (async_read conn\<lparr>conn_phase := Conn_reading (Reading_body (7, 5) (op_after_header ?array (conn_req conn) ?h))\<rparr>)" for u
    using header_reaction [OF ok, of "async_read conn" no_error ?h net missing u] h
    by (simp add: async_read_def completion_ok_def)
  let ?conn = "async_read conn\<lparr>conn_phase := Conn_reading (Reading_body (7, 5) (op_after_header ?array (conn_req conn) ?h))\<rparr>"
  have conn: "?array = m_message_buffer (conn_stream ?conn)" "conn_stream ?conn = conn_stream conn"
      "conn_phase ?conn = Conn_reading (Reading_body (7, 5) (op_after_header ?array (conn_req ?conn) ?h))"
    by (simp_all add: async_read_def)
  have "5 = unat (hdr_length (header_of ?h)) - 1" "completion_ok (7, 5) (no_error, ?bs)"
      "read_pdu_req checked_read ?bs (conn_req ?conn) = Some (no_error, ?v, [])"
    using h(5) five read_pdu_req_bytes [of ?v checked_end "[]" "conn_req ?conn"]
    by (simp_all add: bs completion_ok_def)
  from body_reaction [OF ok conn(1) h(1,2) this(1) conn(3) this(2,3), of net missing x2]
  obtain mb where mb: "length mb = 320" "conn_react net missing x2 (no_error, ?bs) ?conn =
      read_callback net missing tid slave no_error
        (?conn\<lparr>conn_stream := (conn_stream conn)\<lparr>m_message_buffer := mb\<rparr>, conn_req := ?v\<rparr>)"
    unfolding conn(2) h(3,4) by (elim exE conjE) simp
  let ?st = "(conn_stream conn)\<lparr>m_message_buffer := mb\<rparr>"
  have "length (m_message_buffer (sent net tid slave (callback_reply slave req) ?st)) = 320"
    using mb(1) callback_reply_fits [OF small] by simp
  moreover have "read_callback net missing tid slave no_error (?conn\<lparr>conn_stream := ?st, conn_req := ?v\<rparr>) =
      Some (async_read (conn\<lparr>conn_stream := sent net tid slave (callback_reply slave req) ?st, conn_req := ?v\<rparr>))"
    using mb(1) small by (simp add: read_callback_def handle_request_def req_handler_form async_read_def)
  ultimately show ?thesis
    using first mb(2)
    by (intro exI [of _ "conn\<lparr>conn_stream := sent net tid slave (callback_reply slave req) ?st, conn_req := ?v\<rparr>"]) simp
qed

text \<open>The two completions that deliver a frame, and the frame that answers it.\<close>

definition frame_completions :: "u16 \<times> u16 \<times> u8 \<times> read_holding_pdu_req \<Rightarrow> (unit \<times> error_code \<times> u8 list) list" where
  "frame_completions r =
     (case r of (tid, proto, slave, req) \<Rightarrow>
        let frame = mbap_frame tid proto slave (pdu_req_bytes (Read_holding req))
        in [((), no_error, take 7 frame), ((), no_error, drop 7 frame)])"

definition callback_answer :: "u16 \<Rightarrow> u16 \<times> u16 \<times> u8 \<times> read_holding_pdu_req \<Rightarrow> u8 list" where
  "callback_answer own_proto r =
     (case r of (tid, proto, slave, req) \<Rightarrow> mbap_frame tid own_proto slave (callback_reply slave req))"

definition write_all :: "'n network \<Rightarrow> u8 list list \<Rightarrow> 'n \<Rightarrow> 'n" where
  "write_all net frames n = fold (\<lambda>frame n. snd (net_write net frame n)) frames n"

lemma reacts_frames:
  "length (m_message_buffer (conn_stream conn)) = 320 \<Longrightarrow>
   \<forall>(tid, proto, slave, req) \<in> set reqs. \<not> reads_too_much slave (Read_holding req) \<Longrightarrow>
   \<exists>conn'. reacts (conn_react net missing) (concat (map frame_completions reqs)) (async_read conn) = Some (async_read conn') \<and>
     m_next_layer (conn_stream conn') =
       write_all net (map (callback_answer (m_protocol (conn_stream conn))) reqs) (m_next_layer (conn_stream conn))"
proof (induction reqs arbitrary: conn)
  case Nil
  then show ?case by (auto simp: write_all_def)
next
  case (Cons r reqs)
  obtain tid proto slave req where r: "r = (tid, proto, slave, req)"
    by (metis surj_pair)
  have "\<not> reads_too_much slave (Read_holding req)"
    using Cons.prems(2) by (auto simp: r)
  from reacts_frame [OF Cons.prems(1) refl this, of net missing "()" tid proto "()"]
  obtain conn1 where c: "reacts (conn_react net missing) (frame_completions r) (async_read conn) = Some (async_read conn1)"
      "length (m_message_buffer (conn_stream conn1)) = 320" "m_protocol (conn_stream conn1) = m_protocol (conn_stream conn)"
      "m_next_layer (conn_stream conn1) =
        snd (net_write net (callback_answer (m_protocol (conn_stream conn)) r) (m_next_layer (conn_stream conn)))"
    by (auto simp: frame_completions_def callback_answer_def r Let_def)
  with Cons.IH [OF c(2)] Cons.prems(2) show ?case
    by (simp add: reacts_append write_all_def)
qed

section \<open>Properties\<close>

text \<open>C9. The callback server runs into undefined behaviour in one way only, whatever its clients and the network
  do and whatever the overloads its visitor lacks do within their stream: the body of a well formed read of
  more than 155 holding registers from address 100 of unit 255 is completed. Unlike the coroutine servers it
  is safe from long messages. Up to then every connection is closed, or waits for a header or for the body
  of an accepted header with its buffer of 320 bytes.\<close>

theorem callback_server_safe:
  assumes "visitor_ok missing"
  shows "(callback_server net missing es = None \<longleftrightarrow> (\<exists>es1 i c es2 sv. es = es1 @ Completed i c # es2 \<and>
      callback_server net missing es1 = Some sv \<and> srv_running sv \<and> i < length (srv_connections sv) \<and>
      conn_overflows c (srv_connections sv ! i)))
    \<and> pred_option (\<lambda>sv. list_all conn_ok (srv_connections sv)) (callback_server net missing es)"
  unfolding callback_server_def
  using guarded_connection.server_stuck_iff [OF guarded_callback [OF assms]]
    guarded_connection.server_ok [OF guarded_callback [OF assms]]
  by (intro conjI)

theorem callback_server_safe_witness:
  "\<exists>sv. callback_server wire_net (refuse wire_net) [Accepted \<lparr>incoming = [], outgoing = []\<rparr>] = Some sv
    \<and> list_all conn_ok (srv_connections sv)"
proof -
  have "\<exists>sv. callback_server wire_net (refuse wire_net) [Accepted \<lparr>incoming = [], outgoing = []\<rparr>] = Some sv"
    by (simp add: callback_server_def accept_start_def server_step_def)
  then show ?thesis
    using callback_server_safe [OF visitor_ok_refuse, of wire_net wire_net "[Accepted \<lparr>incoming = [], outgoing = []\<rparr>]"] by auto
qed

text \<open>C24. A connection of the callback server answers reads of holding registers in the order in which they arrive,
  one answer each, whatever other connections do meanwhile, and then waits for the next request: zeros for
  reads from address 100 of unit 255 and exceptions for other units and addresses.\<close>

theorem callback_server_answers:
  assumes "server_run conn_start (conn_react net missing) id sv es = Some sv'" "i < length (srv_connections sv)"
    and "srv_connections sv ! i = async_read conn" "length (m_message_buffer (conn_stream conn)) = 320"
    and "view conn_start (conn_react net missing) id i sv es = concat (map frame_completions reqs)"
    and "\<forall>(tid, proto, slave, req) \<in> set reqs. \<not> reads_too_much slave (Read_holding req)"
  shows "\<exists>conn'. srv_connections sv' ! i = async_read conn' \<and> m_next_layer (conn_stream conn') =
    write_all net (map (callback_answer (m_protocol (conn_stream conn))) reqs) (m_next_layer (conn_stream conn))"
  using run_connection [OF assms(1,2)] reacts_frames [OF assms(4,6), of net missing] assms(3,5) by auto

theorem callback_server_answers_witness:
  "\<exists>sv' conn'. server_run conn_start (conn_react wire_net (refuse wire_net)) id
      \<lparr>srv_env = (), srv_connections = [conn_start \<lparr>incoming = [], outgoing = []\<rparr>], srv_accepting = True, srv_running = True\<rparr>
      [Completed 0 (no_error, [0, 1, 0, 0, 0, 6, 255]), Accepted \<lparr>incoming = [], outgoing = []\<rparr>,
       Completed 0 (no_error, [3, 0, 100, 0, 1])] = Some sv'
    \<and> srv_connections sv' ! 0 = async_read conn'
    \<and> m_next_layer (conn_stream conn') = \<lparr>incoming = [], outgoing = [0, 1, 0, 0, 0, 5, 255, 3, 2, 0, 0]\<rparr>"
proof -
  let ?w = "\<lparr>incoming = [], outgoing = []\<rparr> :: wire" and ?react = "conn_react wire_net (refuse wire_net)"
  let ?sv = "\<lparr>srv_env = (), srv_connections = [conn_start ?w], srv_accepting = True, srv_running = True\<rparr>"
  let ?req = "\<lparr>rh_starting_address = 100, rh_quantity_of_registers = 1\<rparr>"
  let ?h = "[0, 1, 0, 0, 0, 6, 255] :: u8 list" and ?b = "[3, 0, 100, 0, 1] :: u8 list"
  let ?es = "[Completed 0 (no_error, ?h), Accepted ?w, Completed 0 (no_error, ?b)]"
  have comps: "frame_completions (1, 0, 255, ?req) = [((), no_error, ?h), ((), no_error, ?b)]"
    by (simp add: frame_completions_def pdu_req_bytes_def encodings wire_eval)
  have small: "\<not> reads_too_much 255 (Read_holding ?req)"
    by (simp add: reads_too_much_def)
  have stream: "length (m_message_buffer (conn_stream (connection_ctor ?w))) = 320"
      "m_protocol (conn_stream (connection_ctor ?w)) = 0" "m_next_layer (conn_stream (connection_ctor ?w)) = ?w"
    by (simp_all add: connection_ctor_def tcp_stream_ctor_def)
  from reacts_frames [OF stream(1), of "[(1, 0, 255, ?req)]" wire_net "refuse wire_net"] small
  obtain c1 c2 where c: "?react () (no_error, ?h) (conn_start ?w) = Some c1" "?react () (no_error, ?b) c1 = Some c2"
    by (auto simp: comps conn_start_def split: Option.bind_splits)
  have run: "server_run conn_start ?react id ?sv ?es = Some (?sv\<lparr>srv_connections := [c2, conn_start ?w]\<rparr>)"
    and view: "view conn_start ?react id 0 ?sv ?es = concat (map frame_completions [(1, 0, 255, ?req)])"
    using c by (simp_all add: server_step_def comps)
  have zeros: "replicate 2 (0 :: u8) = [0, 0]"
    by (simp add: numeral_2_eq_2)
  have answer: "write_all wire_net (map (callback_answer 0) [(1, 0, 255, ?req)]) ?w =
      \<lparr>incoming = [], outgoing = [0, 1, 0, 0, 0, 5, 255, 3, 2, 0, 0]\<rparr>"
    by (simp add: write_all_def callback_answer_def callback_reply_def values_pdu_def wire_eval zeros)
  from callback_server_answers [OF run _ _ stream(1) view] small show ?thesis
    unfolding stream answer using run by (simp add: conn_start_def)
qed

end
