(* ===== verification/Example_Client.thy ===== *)
theory Example_Client
  imports Example_Server_Laws
begin

text \<open>
  Model of \<^verbatim>\<open>src/examples/tcpclient.cpp\<close>, which reads one holding register and prints it. The parsed
  command line (\<^verbatim>\<open>boost::program_options\<close>) and the text of its usage, the connection
  (\<^verbatim>\<open>boost::asio::connect\<close>) and the messages of error categories other than the library's are arguments.
  So is the content the array \<^verbatim>\<open>singleRegister\<close> happens to have, because the program never initialises it.
\<close>

section \<open>Output\<close>

definition digit :: "nat \<Rightarrow> char" where
  "digit n = ''0123456789abcdef'' ! n"

fun show_nat :: "nat \<Rightarrow> string" where
  "show_nat n = (if n < 10 then [digit n] else show_nat (n div 10) @ [digit (n mod 10)])"

declare show_nat.simps [simp del]

definition show_int :: "int \<Rightarrow> string" where
  "show_int i = (if i < 0 then CHR ''-'' # show_nat (nat (- i)) else show_nat (nat i))"

text \<open>\<^verbatim>\<open>os << std::hex << std::setw(2) << std::setfill('0') << std::to_integer<int>(byte)\<close>.\<close>

definition show_byte :: "u8 \<Rightarrow> string" where
  "show_byte b = [digit (unat b div 16), digit (unat b mod 16)]"

definition show_bytes :: "u8 list \<Rightarrow> string" where
  "show_bytes bytes = concat (map show_byte bytes)"

section \<open>The program\<close>

record client_options =
  opt_help :: bool
  opt_port :: int
  opt_length :: int
  opt_address :: u16
  opt_slave :: u16
  opt_host :: "string option"

text \<open>It prints a text, is left by an exception, or has undefined behaviour.\<close>

datatype outcome = Prints string | Uncaught error_code | Crashes

definition error_message :: "(int \<Rightarrow> string) \<Rightarrow> error_code \<Rightarrow> string" where
  "error_message other_message ec =
     (if ec_category ec = modbus_category then message (ec_value ec) else other_message (ec_value ec))"

definition newline :: string where
  "newline = [CHR 0x0A]"

definition report :: "(int \<Rightarrow> string) \<Rightarrow> string \<Rightarrow> int \<Rightarrow> u16 \<Rightarrow> error_code \<Rightarrow> u8 list \<Rightarrow> string" where
  "report other_message host port register_address ec singleRegister =
     ''Host: '' @ host @ '':'' @ show_int port @ newline
     @ ''register address: '' @ show_nat (unat register_address) @ '' amount: '' @ show_nat 2 @ newline
     @ ''---------------'' @ newline
     @ (if \<not> failed ec then ''    value: '' @ show_bytes singleRegister @ newline
        else ''error: '' @ error_message other_message ec @ newline)"

text \<open>The slave is a \<^verbatim>\<open>uint16_t\<close> here and a \<^verbatim>\<open>uint8_t\<close> parameter of \<^verbatim>\<open>read_registers\<close>.\<close>

definition client_main ::
    "'n network \<Rightarrow> (string \<Rightarrow> string \<Rightarrow> error_code + 'n) \<Rightarrow> string \<Rightarrow> (int \<Rightarrow> string) \<Rightarrow> client_options \<Rightarrow> u8 list \<Rightarrow> outcome" where
  "client_main net connect usage other_message opts singleRegister =
     (case opt_host opts of
        None \<Rightarrow> Prints usage
      | Some host \<Rightarrow>
          if opt_help opts then Prints usage
          else (case connect host (show_int (opt_port opts)) of
             Inl ec \<Rightarrow> Uncaught ec
           | Inr socket \<Rightarrow>
               (case read_registers (tcp_write_request net) (tcp_read_response net) (ucast (opt_slave opts))
                       (opt_address opts) singleRegister (tcp_stream_ctor socket) of
                  Return (ec, singleRegister) _ \<Rightarrow>
                    Prints (report other_message host (opt_port opts) (opt_address opts) ec singleRegister)
                | Throw ec _ \<Rightarrow> Uncaught ec
                | Assert_failed \<Rightarrow> Crashes
                | Undefined \<Rightarrow> Crashes)))"

section \<open>What is printed can be read back\<close>

definition digit_value :: "char \<Rightarrow> nat" where
  "digit_value c = length (takeWhile (\<lambda>d. d \<noteq> c) ''0123456789abcdef'')"

lemma less_16: "n < 16 \<longleftrightarrow> n \<in> {0, 1, 2, 3, 4, 5, 6, 7, 8, 9, 10, 11, 12, 13, 14, 15 :: nat}"
  by (auto simp: numeral_eq_Suc less_Suc_eq)

lemma digit_value_digit: "n < 16 \<Longrightarrow> digit_value (digit n) = n"
  unfolding less_16 by (elim insertE) (simp_all add: digit_value_def digit_def)

fun read_bytes_of :: "string \<Rightarrow> u8 list" where
  "read_bytes_of (a # b # cs) = of_nat (digit_value a * 16 + digit_value b) # read_bytes_of cs"
| "read_bytes_of _ = []"

lemma unat_u8_less [simp]: "unat (b :: u8) < 256"
  using unsigned_less [of b, where 'a = nat] by simp

lemma read_show_bytes: "read_bytes_of (show_bytes bs) = bs"
proof (induction bs)
  case Nil
  then show ?case by (simp add: show_bytes_def)
next
  case (Cons b bs)
  have "unat b div 16 < 16"
    using unat_u8_less [of b] by linarith
  then have "digit_value (digit (unat b div 16)) * 16 + digit_value (digit (unat b mod 16)) = unat b"
    by (simp add: digit_value_digit)
  then have "of_nat (digit_value (digit (unat b div 16)) * 16 + digit_value (digit (unat b mod 16))) = b"
    by (simp only: of_nat_unat ucast_id)
  with Cons.IH show ?case
    by (simp add: show_bytes_def show_byte_def)
qed

section \<open>The call\<close>

lemma stream_ok: "asio_contract net \<Longrightarrow> tcp_ok net (tcp_stream_ctor socket)"
  by (simp add: streams_ok_ctor)

text \<open>The request frame for one register from the first transaction of a stream, and an answer to it.\<close>

definition read_one :: "u16 \<Rightarrow> u8 list" where
  "read_one address = [fc_read_holding_registers, hi8 address, lo8 address, 0, 1]"

lemma byte_one: "hi8 1 = 0" "lo8 1 = 1"
  by (simp_all add: hi8_def lo8_def)

lemma client_call:
  assumes "opt_host opts = Some host" "\<not> opt_help opts" "connect host (show_int (opt_port opts)) = Inr socket"
    and "read_registers (tcp_write_request net) (tcp_read_response net) (ucast (opt_slave opts)) (opt_address opts) garbage
      (tcp_stream_ctor socket) = Return (ec, reg) st"
  shows "client_main net connect usage other_message opts garbage =
    Prints (report other_message host (opt_port opts) (opt_address opts) ec reg)"
  using assms by (simp add: client_main_def)

lemma client_value:
  assumes "asio_contract net" "slave \<noteq> 0" "length garbage = 2"
    and "answers net (tcp_stream_ctor socket) slave (read_one address) [fc_read_holding_registers, 2, a, b] n'"
  shows "\<exists>st. read_registers (tcp_write_request net) (tcp_read_response net) slave address garbage (tcp_stream_ctor socket) =
    Return (no_error, [a, b]) st"
  using tcp_read_registers [OF stream_ok [OF assms(1)] assms(2), of "[a, b]" garbage socket address n'] assms(3,4)
  by (auto simp: read_one_def byte_one)

lemma client_exception:
  assumes "asio_contract net" "slave \<noteq> 0" "length garbage = 2" "c \<noteq> 0"
    and "answers net (tcp_stream_ctor socket) slave (read_one address) [fc_read_holding_registers OR 0x80, c] n'"
  shows "\<exists>st. read_registers (tcp_write_request net) (tcp_read_response net) slave address garbage (tcp_stream_ctor socket) =
    Return (make_error_code (uint c), garbage) st"
  using tcp_read_registers_exception [OF stream_ok [OF assms(1)] assms(2), of socket address garbage c n'] assms(3-5)
  by (auto simp: read_one_def byte_one)

lemma client_broadcast:
  assumes "net_write net (mbap_frame 0 0 0 (read_one address)) socket = (ec, n)" "\<not> failed ec" "length garbage = 2"
  shows "\<exists>st. read_registers (tcp_write_request net) (tcp_read_response net) 0 address garbage (tcp_stream_ctor socket) =
    Return (no_error, garbage) st"
  using assms
  by (simp add: read_registers_def values_forms read_holding_pdu_req_init_def tcp_write_request_form bind_op_def
      tcp_stream_ctor_def read_one_def byte_one tcp_read_response_def read_coils_pdu_resp_ctor_def whole_span_def
      failed_def success_def make_error_code_def)

section \<open>Properties\<close>

text \<open>C25. The example client shows the register of the example server: when its frame reaches the server with
  data and what the server writes reaches the client, it prints the two bytes of the register at the address
  in hexadecimal, from which they can be read back, or the message for an illegal data address when the
  server has no such register.\<close>

theorem client_shows_register:
  assumes "asio_contract net" "opt_host opts = Some host" "\<not> opt_help opts"
    and "connect host (show_int (opt_port opts)) = Inr socket" "length garbage = 2"
    and "slave = ucast (opt_slave opts)" "slave \<noteq> 0"
    and "frame = mbap_frame 0 0 slave (read_one (opt_address opts))"
    and "net_write net frame socket = (ec, n1)" "\<not> failed ec"
    and "session_ok ses" "m_protocol (mothbus_stream ses) = 0"
    and "m_next_layer (mothbus_stream ses) = \<lparr>incoming = frame, outgoing = []\<rparr>"
    and "message_turn wire_net (data_handler wire_net native regs) ses = Return True ses'"
    and "receives_frame net n1 (outgoing (m_next_layer (mothbus_stream ses'))) n'"
    and "a = unat (opt_address opts)" "value = [hi8 (regs ! a), lo8 (regs ! a)]"
  shows "client_main net connect usage other_message opts garbage =
      Prints (if a < length regs then report other_message host (opt_port opts) (opt_address opts) no_error value
        else report other_message host (opt_port opts) (opt_address opts) (make_error_code illegal_data_address) garbage)
    \<and> read_bytes_of (show_bytes value) = value"
proof -
  let ?v = "Read_holding \<lparr>rh_starting_address = opt_address opts, rh_quantity_of_registers = 1\<rparr>"
  have frame: "frame = mbap_frame 0 0 slave [fc_read_holding_registers, hi8 (opt_address opts), lo8 (opt_address opts), hi8 1, lo8 1]"
    by (simp add: assms(8) read_one_def byte_one)
  have "answers net (tcp_stream_ctor socket) slave (read_one (opt_address opts)) (register_reply regs ?v) n'"
    using wire_turn_output [OF assms(11) assms(13) [unfolded frame] assms(14)] assms(8-10,12,15)
    by (simp add: answers_def tcp_stream_ctor_def)
  moreover have "register_reply regs ?v =
      (if a < length regs then [fc_read_holding_registers, 2, hi8 (regs ! a), lo8 (regs ! a)]
       else [fc_read_holding_registers OR 0x80, 2])"
    using take_Suc_conv_app_nth [of 0 "drop a regs"]
    by (auto simp: Let_def assms(16) exception_pdu_def values_pdu_def illegal_data_address_def)
  ultimately have "\<exists>st. read_registers (tcp_write_request net) (tcp_read_response net) slave (opt_address opts) garbage
      (tcp_stream_ctor socket) =
      Return (if a < length regs then (no_error, value) else (make_error_code illegal_data_address, garbage)) st"
    using client_value [OF assms(1,7,5)] client_exception [OF assms(1,7,5), of 2]
    by (auto simp: assms(17) illegal_data_address_def)
  then show ?thesis
    using client_call [of opts host connect socket, OF assms(2-4)] assms(6) read_show_bytes by (auto split: if_splits)
qed

text \<open>The client with the default options, on a connection in which an answer waits.\<close>

definition one_register_options :: client_options where
  "one_register_options = \<lparr>opt_help = False, opt_port = 502, opt_length = 1, opt_address = 1, opt_slave = 255,
     opt_host = Some ''h''\<rparr>"

definition client_run :: "u8 list \<Rightarrow> client_options \<Rightarrow> u8 list \<Rightarrow> outcome" where
  "client_run answer opts garbage =
     client_main wire_net (\<lambda>_ _. Inr \<lparr>incoming = answer, outgoing = []\<rparr>) [] (\<lambda>_. []) opts garbage"

lemma client_run_evaluated:
  "report (\<lambda>_. []) ''h'' 502 1 no_error [0x12, 0xAB] =
     ''Host: h:502'' @ newline @ ''register address: 1 amount: 2'' @ newline @ ''---------------'' @ newline
     @ ''    value: 12ab'' @ newline"
  by (simp add: report_def show_int_def show_nat.simps digit_def show_bytes_def show_byte_def no_error_def failed_def)

theorem client_shows_register_witness:
  "\<exists>ses'. message_turn wire_net (data_handler wire_net little [5, 0x12AB])
      (session_start \<lparr>incoming = mbap_frame 0 0 255 [3, 0, 1, 0, 1], outgoing = []\<rparr>) = Return True ses'
    \<and> client_run (outgoing (m_next_layer (mothbus_stream ses'))) one_register_options [0, 0] =
      Prints (''Host: h:502'' @ newline @ ''register address: 1 amount: 2'' @ newline @ ''---------------'' @ newline
        @ ''    value: 12ab'' @ newline)"
proof -
  let ?frame = "mbap_frame 0 0 255 [3, 0, 1, 0, 1]"
  let ?ses = "session_start \<lparr>incoming = ?frame, outgoing = []\<rparr>"
  let ?v = "Read_holding \<lparr>rh_starting_address = 1, rh_quantity_of_registers = 1\<rparr>"
  have sock: "m_next_layer (mothbus_stream ?ses) = \<lparr>incoming = ?frame, outgoing = []\<rparr>"
      "m_protocol (mothbus_stream ?ses) = 0"
    by (simp_all add: session_start_def tcp_stream_ctor_def)
  have bytes: "[3, 0, 1, 0, 1] = pdu_req_bytes ?v"
    by (simp add: pdu_req_bytes_def encodings protocol_consts byte_one)
  have "receives_frame wire_net (m_next_layer (mothbus_stream ?ses)) (mbap_frame 0 0 255 (pdu_req_bytes ?v))
      ((m_next_layer (mothbus_stream ?ses))\<lparr>incoming := []\<rparr>)"
    by (rule wire_receives) (simp_all add: sock bytes [symmetric])
  from data.turn_answers [OF wire_contract session_ok_start _ _ _ this, of ?v "[]" little "[5, 0x12AB]"]
  obtain ses' where turn: "message_turn wire_net (data_handler wire_net little [5, 0x12AB]) ?ses = Return True ses'"
      "outgoing (m_next_layer (mothbus_stream ses')) = mbap_frame 0 0 255 (register_reply [5, 0x12AB] ?v)"
    by (auto simp: pdu_req_bytes_def encodings header_of_frame sock)
  let ?w = "\<lparr>incoming = outgoing (m_next_layer (mothbus_stream ses')), outgoing = []\<rparr>"
  have recv: "receives_frame wire_net \<lparr>incoming = outgoing (m_next_layer (mothbus_stream ses')), outgoing = ?frame\<rparr>
      (outgoing (m_next_layer (mothbus_stream ses'))) \<lparr>incoming = [], outgoing = ?frame\<rparr>"
    unfolding turn(2) by (simp add: receives_frame_def wire_read_def)
  have "client_main wire_net (\<lambda>_ _. Inr ?w) [] (\<lambda>_. []) one_register_options [0, 0] =
      Prints (report (\<lambda>_. []) ''h'' 502 1 no_error [0x12, 0xAB])"
    using client_shows_register [OF wire_contract _ _ _ _ refl _ _ _ _ session_ok_start sock(2) sock(1) turn(1) recv refl refl,
        of one_register_options "''h''" "\<lambda>_ _. Inr ?w" ?w "[0, 0]" no_error "[]" "\<lambda>_. []"]
    by (simp add: one_register_options_def read_one_def byte_one protocol_consts hi8_def lo8_def take_bit_eq_mod)
  then show ?thesis
    using turn(1) by (auto simp only: client_run_def client_run_evaluated)
qed

text \<open>The option slave has 16 bits and the parameter of \<^verbatim>\<open>read_registers\<close> has 8: for every multiple of 256
  the request goes out as a broadcast, no answer is read whatever the server sends, and the program prints as
  the value of the register what the uninitialised array contained.\<close>

lemma client_slave_narrowed:
  assumes "opt_host opts = Some host" "\<not> opt_help opts"
    and "connect host (show_int (opt_port opts)) = Inr socket" "length garbage = 2"
    and "unat (opt_slave opts) mod 256 = 0"
    and "net_write net (mbap_frame 0 0 0 (read_one (opt_address opts))) socket = (ec, n)" "\<not> failed ec"
  shows "client_main net connect usage other_message opts garbage =
    Prints (report other_message host (opt_port opts) (opt_address opts) no_error garbage)"
proof -
  have "unat (ucast (opt_slave opts) :: u8) = 0"
    using assms(5) by (simp add: unsigned_ucast_eq take_bit_eq_mod)
  then have slave: "(ucast (opt_slave opts) :: u8) = 0"
    by (simp only: unsigned_eq_0_iff)
  show ?thesis
    using client_broadcast [OF assms(6,7,4)] client_call [of opts host connect socket, OF assms(1-3)]
    by (auto simp: slave)
qed

end
