(* ===== verification/Rtu_Race.thy ===== *)
theory Rtu_Race
  imports Rtu_Laws
begin

text \<open>
  The inside of \<^verbatim>\<open>rtu::stream::read_byte_with_timeout\<close>: an asynchronous read of one byte and a timer whose
  handlers run in \<^verbatim>\<open>m_io_context.run()\<close>. Both handlers hold references to local variables of the function, and
  each tries to cancel the other operation, which comes too late when that one has already completed and
  its handler waits to be run. \<open>Rtu\<close> sees the race from outside, as one transfer of the network layer; here it
  is a step relation, and the outside view is proved from it. \<^verbatim>\<open>run()\<close> would also run handlers of other users of
  the same \<^verbatim>\<open>io_context\<close>; they cannot reach the local variables, and the model leaves them out.
\<close>

section \<open>States\<close>

text \<open>An operation is under way, has completed so that its handler can run, or its handler has run.\<close>

datatype read_op = Read_pending | Read_ready error_code "u8 list" | Read_handled error_code "u8 list"

datatype timer_op = Timer_pending | Timer_ready error_code | Timer_handled error_code

record race =
  read_op :: read_op
  timer_op :: timer_op
  bytes_read :: nat

definition race_start :: race where
  "race_start = \<lparr>read_op = Read_pending, timer_op = Timer_pending, bytes_read = 0\<rparr>"

text \<open>\<^verbatim>\<open>boost::asio::error::operation_aborted\<close>.\<close>

definition operation_aborted :: error_code where
  "operation_aborted = \<lparr>ec_value = 125, ec_category = system_category\<rparr>"

text \<open>\<^verbatim>\<open>timer.cancel()\<close> and \<^verbatim>\<open>m_next_layer.cancel()\<close>.\<close>

fun cancel_timer :: "timer_op \<Rightarrow> timer_op" where
  "cancel_timer Timer_pending = Timer_ready operation_aborted"
| "cancel_timer t = t"

fun cancel_read :: "read_op \<Rightarrow> read_op" where
  "cancel_read Read_pending = Read_ready operation_aborted []"
| "cancel_read p = p"

section \<open>Handlers and steps\<close>

definition byte_handler :: "error_code \<Rightarrow> nat \<Rightarrow> race \<Rightarrow> race" where
  "byte_handler e n r =
     (if \<not> failed e \<and> n > 0 then r\<lparr>bytes_read := n, timer_op := cancel_timer (timer_op r)\<rparr> else r)"

definition timer_handler :: "error_code \<Rightarrow> race \<Rightarrow> race" where
  "timer_handler e r = (if e \<noteq> operation_aborted then r\<lparr>read_op := cancel_read (read_op r)\<rparr> else r)"

text \<open>The read completes by itself, within the contract of a transfer of one byte, or the timer expires; or
  \<^verbatim>\<open>run()\<close> calls the handler of an operation that has completed.\<close>

inductive race_step :: "race \<Rightarrow> race \<Rightarrow> bool" where
  read_completes: "read_op r = Read_pending \<Longrightarrow> length bs \<le> 1 \<Longrightarrow> failed e \<or> length bs = 1 \<Longrightarrow>
    race_step r (r\<lparr>read_op := Read_ready e bs\<rparr>)"
| timer_expires: "timer_op r = Timer_pending \<Longrightarrow> race_step r (r\<lparr>timer_op := Timer_ready no_error\<rparr>)"
| runs_byte_handler: "read_op r = Read_ready e bs \<Longrightarrow>
    race_step r (byte_handler e (length bs) (r\<lparr>read_op := Read_handled e bs\<rparr>))"
| runs_timer_handler: "timer_op r = Timer_ready e \<Longrightarrow>
    race_step r (timer_handler e (r\<lparr>timer_op := Timer_handled e\<rparr>))"

inductive_cases race_stepE: "race_step r r'"

text \<open>\<^verbatim>\<open>run()\<close> returns when both handlers have run.\<close>

fun handled_read :: "read_op \<Rightarrow> bool" where
  "handled_read (Read_handled e bs) \<longleftrightarrow> True"
| "handled_read _ \<longleftrightarrow> False"

fun handled_timer :: "timer_op \<Rightarrow> bool" where
  "handled_timer (Timer_handled e) \<longleftrightarrow> True"
| "handled_timer _ \<longleftrightarrow> False"

definition race_over :: "race \<Rightarrow> bool" where
  "race_over r \<longleftrightarrow> handled_read (read_op r) \<and> handled_timer (timer_op r)"

section \<open>Invariant\<close>

definition counted :: "error_code \<Rightarrow> u8 list \<Rightarrow> nat" where
  "counted e bs = (if \<not> failed e \<and> length bs > 0 then length bs else 0)"

fun read_result_ok :: "error_code \<Rightarrow> u8 list \<Rightarrow> bool" where
  "read_result_ok e bs \<longleftrightarrow> length bs \<le> 1 \<and> (failed e \<or> length bs = 1)"

text \<open>Only a byte that was received cancels the timer, and a timer that was handled after it expired leaves
  no read under way.\<close>

definition race_inv :: "race \<Rightarrow> bool" where
  "race_inv r \<longleftrightarrow>
     (case read_op r of
        Read_pending \<Rightarrow> bytes_read r = 0 \<and> timer_op r \<in> {Timer_pending, Timer_ready no_error}
      | Read_ready e bs \<Rightarrow> bytes_read r = 0 \<and> read_result_ok e bs \<and>
          timer_op r \<in> {Timer_pending, Timer_ready no_error, Timer_handled no_error}
      | Read_handled e bs \<Rightarrow> bytes_read r = counted e bs \<and> read_result_ok e bs \<and>
          (if 0 < counted e bs
           then timer_op r \<in> {Timer_ready no_error, Timer_handled no_error,
             Timer_ready operation_aborted, Timer_handled operation_aborted}
           else timer_op r \<in> {Timer_pending, Timer_ready no_error, Timer_handled no_error}))"

lemma aborted_facts [simp]: "failed operation_aborted" "no_error \<noteq> operation_aborted" "operation_aborted \<noteq> no_error"
  by (simp_all add: operation_aborted_def failed_def no_error_def)

lemma race_inv_start: "race_inv race_start"
  by (simp add: race_inv_def race_start_def)

lemma race_inv_step: "race_step r r' \<Longrightarrow> race_inv r \<Longrightarrow> race_inv r'"
  by (erule race_stepE)
    (auto simp: race_inv_def byte_handler_def timer_handler_def counted_def split: read_op.splits if_splits)

lemma race_inv_reachable: "race_step\<^sup>*\<^sup>* race_start r \<Longrightarrow> race_inv r"
  by (induction rule: rtranclp_induct) (auto intro: race_inv_start race_inv_step)

text \<open>Every step brings one of the two operations forward.\<close>

fun read_left :: "read_op \<Rightarrow> nat" where
  "read_left Read_pending = 2"
| "read_left (Read_ready e bs) = 1"
| "read_left (Read_handled e bs) = 0"

fun timer_left :: "timer_op \<Rightarrow> nat" where
  "timer_left Timer_pending = 2"
| "timer_left (Timer_ready e) = 1"
| "timer_left (Timer_handled e) = 0"

definition race_left :: "race \<Rightarrow> nat" where
  "race_left r = read_left (read_op r) + timer_left (timer_op r)"

lemma cancel_left: "timer_left (cancel_timer t) \<le> timer_left t" "read_left (cancel_read p) \<le> read_left p"
  by (cases t, simp_all) (cases p, simp_all)

lemma race_left_step: "race_step r r' \<Longrightarrow> race_left r' < race_left r"
proof (erule race_stepE)
qed (use cancel_left(1) [of "timer_op r"] cancel_left(2) [of "read_op r"]
    in \<open>auto simp: race_left_def byte_handler_def timer_handler_def\<close>)

lemma race_left_steps: "(race_step ^^ k) r r' \<Longrightarrow> k + race_left r' \<le> race_left r"
  by (induction k arbitrary: r') (auto dest!: race_left_step, fastforce dest!: race_left_step)

definition handler_ready :: "race \<Rightarrow> bool" where
  "handler_ready r \<longleftrightarrow> (\<exists>e bs. read_op r = Read_ready e bs) \<or> (\<exists>e. timer_op r = Timer_ready e)"

lemma race_over_stays: "race_over r \<Longrightarrow> \<not> race_step r r'"
  by (auto simp: race_over_def elim: race_stepE)

section \<open>Properties\<close>

lemma race_progress: "\<not> race_over r \<Longrightarrow> \<exists>r'. race_step r r'"
proof (cases "read_op r")
  case Read_pending
  then show ?thesis
    using read_completes [of r "[]" operation_aborted] by auto
next
  case (Read_ready e bs)
  then show ?thesis by (blast intro: runs_byte_handler)
next
  case (Read_handled e bs)
  assume "\<not> race_over r"
  with Read_handled show ?thesis
    by (cases "timer_op r") (auto simp: race_over_def intro: timer_expires runs_timer_handler)
qed

text \<open>C28. The race between the byte and the timer comes to an end: every execution has at most four steps, as
  long as it is not over some step is possible, and once it is over nothing is: the two handlers, which
  refer to local variables of \<^verbatim>\<open>read_byte_with_timeout\<close>, have run when the function returns and are not run
  again. Once the timer has expired nothing more has to happen on the line: a handler is always ready to run.\<close>

theorem read_race_ends:
  assumes "(race_step ^^ k) race_start r"
  shows "k \<le> 4 \<and> (race_over r \<longleftrightarrow> \<not> (\<exists>r'. race_step r r'))
    \<and> (timer_op r \<noteq> Timer_pending \<longrightarrow> \<not> race_over r \<longrightarrow> handler_ready r)"
proof (intro conjI impI)
  show "k \<le> 4"
    using race_left_steps [OF assms] by (simp add: race_left_def race_start_def)
  show "race_over r \<longleftrightarrow> \<not> (\<exists>r'. race_step r r')"
    using race_progress [of r] race_over_stays [of r] by blast
  have "race_inv r"
    using assms by (intro race_inv_reachable) (rule relpowp_imp_rtranclp)
  then show "handler_ready r" if "timer_op r \<noteq> Timer_pending" "\<not> race_over r"
    using that by (auto simp: race_inv_def race_over_def handler_ready_def split: read_op.splits if_splits)
qed

theorem read_race_ends_witness:
  "handler_ready \<lparr>read_op = Read_pending, timer_op = Timer_ready no_error, bytes_read = 0\<rparr>"
proof -
  have "(race_step ^^ 1) race_start \<lparr>read_op = Read_pending, timer_op = Timer_ready no_error, bytes_read = 0\<rparr>"
    using timer_expires [of race_start] unfolding relpowp_1 by (simp add: race_start_def)
  from read_race_ends [OF this] show ?thesis
    by (simp add: race_over_def)
qed

text \<open>C29. The race is the transfer of the network layer that the model of the stream uses: when it is over, the read
  has delivered a result within the contract of a transfer of one byte, and the function returns what
  \<open>read_byte_with_timeout\<close> returns for this result. A byte cannot be lost to a timer that expires while its
  handler waits. An error of the line is only noticed when the timer has expired.\<close>

theorem read_race_refines:
  assumes "race_step\<^sup>*\<^sup>* race_start r" "race_over r" "output_start source < length (message_buffer source)"
  shows "\<exists>e bs. read_op r = Read_handled e bs \<and> length bs \<le> 1 \<and> (failed e \<or> length bs = 1)
    \<and> (net_read_until net timeout 1 n = (e, bs, n') \<longrightarrow>
        (\<exists>source'. read_byte_with_timeout net timeout (source, n) = Return (bytes_read r) (source', n')))
    \<and> (failed e \<longrightarrow> timer_op r = Timer_handled no_error)"
proof -
  obtain e bs where r: "read_op r = Read_handled e bs"
    using assms(2) by (cases "read_op r") (auto simp: race_over_def)
  have inv: "race_inv r"
    by (rule race_inv_reachable [OF assms(1)])
  then show ?thesis
    using r assms(2,3)
    by (auto simp: race_inv_def race_over_def counted_def read_byte_with_timeout_def buffer_prepare_def store_region_def
        Let_def split: if_splits)
qed

theorem read_race_refines_witness:
  "\<exists>source'. read_byte_with_timeout wire_net 5 (buffer_of [0], \<lparr>incoming = [7], outgoing = []\<rparr>) =
    Return 1 (source', \<lparr>incoming = [], outgoing = []\<rparr>)"
proof -
  let ?ready = "race_start\<lparr>read_op := Read_ready no_error [7]\<rparr>"
  let ?counted = "\<lparr>read_op = Read_handled no_error [7], timer_op = Timer_ready operation_aborted, bytes_read = 1\<rparr>"
  let ?over = "?counted\<lparr>timer_op := Timer_handled operation_aborted\<rparr>"
  have "race_step race_start ?ready"
    by (rule read_completes) (simp_all add: race_start_def)
  moreover have "race_step ?ready ?counted"
    using runs_byte_handler [of ?ready no_error "[7]"] by (simp add: byte_handler_def race_start_def)
  moreover have "race_step ?counted ?over"
    using runs_timer_handler [of ?counted operation_aborted] by (simp add: timer_handler_def)
  ultimately have "race_step\<^sup>*\<^sup>* race_start ?over"
    by (meson converse_rtranclp_into_rtranclp rtranclp.rtrancl_refl)
  from read_race_refines [OF this, of "buffer_of [0]" wire_net 5 "\<lparr>incoming = [7], outgoing = []\<rparr>"
      "\<lparr>incoming = [], outgoing = []\<rparr>"]
  show ?thesis
    by (simp add: race_over_def buffer_of_def wire_read_def)
qed

end
