(* ===== verification/Buffer_Queue.thy ===== *)
theory Buffer_Queue
  imports Transport
begin

text \<open>
  The message buffer of \<^verbatim>\<open>adu/buffer.h\<close> the way the streams receive with it: transfers into \<^verbatim>\<open>prepare\<close>,
  each followed by \<^verbatim>\<open>commit\<close> when it succeeded, and single bytes taken with \<^verbatim>\<open>get\<close>, in any order. Seen
  from outside this is a queue of bytes that can take as many as the array has.
\<close>

text \<open>A transfer that stores bytes and succeeds or fails, and a \<^verbatim>\<open>get\<close> into a variable.\<close>

datatype buffer_use = Transfer "u8 list" bool | Get u8

fun buffer_uses :: "buffer_use list \<Rightarrow> buffer \<Rightarrow> ((error_code \<times> u8) list \<times> buffer) option" where
  "buffer_uses [] b = Some ([], b)"
| "buffer_uses (Transfer bs good # us) b = do {
     b \<leftarrow> store_region (buffer_prepare b (length bs)) bs b;
     buffer_uses us (if good then buffer_commit (length bs) b else b)
   }"
| "buffer_uses (Get out # us) b = do {
     (ec, out, b) \<leftarrow> buffer_get b out;
     (rs, b) \<leftarrow> buffer_uses us b;
     Some ((ec, out) # rs, b)
   }"

text \<open>The queue.\<close>

fun queue_uses :: "buffer_use list \<Rightarrow> u8 list \<Rightarrow> (error_code \<times> u8) list \<times> u8 list" where
  "queue_uses [] q = ([], q)"
| "queue_uses (Transfer bs good # us) q = queue_uses us (if good then q @ bs else q)"
| "queue_uses (Get out # us) [] =
     (let (rs, q) = queue_uses us [] in ((make_error_code too_many_bytes_received, out) # rs, q))"
| "queue_uses (Get out # us) (b # q) = (let (rs, q) = queue_uses us q in ((no_error, b) # rs, q))"

text \<open>Every transfer fits the part of the array that no earlier transfer has used. Taking bytes makes no
  room.\<close>

fun uses_fit :: "buffer_use list \<Rightarrow> nat \<Rightarrow> bool" where
  "uses_fit [] room \<longleftrightarrow> True"
| "uses_fit (Transfer bs good # us) room \<longleftrightarrow>
     length bs \<le> room \<and> uses_fit us (if good then room - length bs else room)"
| "uses_fit (Get out # us) room \<longleftrightarrow> uses_fit us room"

text \<open>The class invariant of a buffer that only receives.\<close>

definition receiving :: "nat \<Rightarrow> buffer \<Rightarrow> bool" where
  "receiving k b \<longleftrightarrow> length (message_buffer b) = k \<and> input_start b \<le> input_end b \<and>
     output_start b = input_end b \<and> input_end b \<le> k"

lemma receiving_start: "receiving (length array) (buffer_of array)"
  by (simp add: receiving_def buffer_of_def)

lemma receiving_get:
  assumes "receiving k b"
  shows "case buffer_pending b of
      [] \<Rightarrow> buffer_get b out = Some (make_error_code too_many_bytes_received, out, b)
    | x # q \<Rightarrow> \<exists>b'. buffer_get b out = Some (no_error, x, b') \<and> receiving k b' \<and> buffer_pending b' = q \<and>
        output_start b' = output_start b"
proof (cases "input_start b < input_end b")
  case True
  have "buffer_ok b"
    using assms by (auto simp: receiving_def buffer_ok_def)
  from buffer_pending_Cons [OF this True] show ?thesis
    using True assms by (auto simp: buffer_get_def receiving_def)
next
  case False
  then show ?thesis
    by (simp add: buffer_pending_def buffer_get_def)
qed

lemma receiving_transfer:
  assumes "receiving k b"
  shows "case store_region (buffer_prepare b (length bs)) bs b of
      None \<Rightarrow> k - output_start b < length bs
    | Some b' \<Rightarrow> length bs \<le> k - output_start b \<and> receiving k b' \<and> buffer_pending b' = buffer_pending b \<and>
        output_start b' = output_start b \<and>
        receiving k (buffer_commit (length bs) b') \<and> buffer_pending (buffer_commit (length bs) b') = buffer_pending b @ bs"
proof (cases "length bs \<le> k - output_start b")
  case True
  let ?mb = "overwrite (input_end b) bs (message_buffer b)"
  have "take (input_end b) ?mb = take (input_end b) (message_buffer b)"
      "take (input_end b + length bs) ?mb = take (input_end b) (message_buffer b) @ bs"
    using True assms by (auto simp: receiving_def overwrite_def)
  then have "take (input_end b - input_start b) (drop (input_start b) ?mb) = buffer_pending b"
      "take (input_end b + length bs - input_start b) (drop (input_start b) ?mb) = buffer_pending b @ bs"
    using assms by (auto simp: buffer_pending_def receiving_def take_drop)
  with True assms show ?thesis
    by (auto simp: store_region_def buffer_prepare_def buffer_commit_def receiving_def buffer_pending_def)
next
  case False
  with assms show ?thesis
    by (auto simp: store_region_def buffer_prepare_def receiving_def)
qed

lemma receiving_uses:
  "receiving k b \<Longrightarrow>
   (case buffer_uses us b of
      None \<Rightarrow> \<not> uses_fit us (k - output_start b)
    | Some (rs, b') \<Rightarrow> uses_fit us (k - output_start b) \<and> receiving k b' \<and>
        queue_uses us (buffer_pending b) = (rs, buffer_pending b'))"
proof (induction us arbitrary: b)
  case Nil
  then show ?case by simp
next
  case (Cons u us)
  show ?case
  proof (cases u)
    case (Transfer bs good)
    show ?thesis
    proof (cases "store_region (buffer_prepare b (length bs)) bs b")
      case None
      with receiving_transfer [OF Cons.prems, of bs] show ?thesis
        by (simp add: Transfer)
    next
      case (Some b1)
      with receiving_transfer [OF Cons.prems, of bs]
        Cons.IH [of "if good then buffer_commit (length bs) b1 else b1"] show ?thesis
        by (cases good) (auto simp: Transfer buffer_commit_def split: option.splits)
    qed
  next
    case (Get out)
    show ?thesis
    proof (cases "buffer_pending b")
      case Nil
      with receiving_get [OF Cons.prems, of out] Cons.IH [OF Cons.prems] show ?thesis
        by (auto simp: Get split: option.splits)
    next
      case (Cons x q)
      with receiving_get [OF Cons.prems, of out] obtain b' where b': "buffer_get b out = Some (no_error, x, b')"
          "receiving k b'" "buffer_pending b' = q" "output_start b' = output_start b"
        by auto
      with Cons.IH [OF b'(2)] show ?thesis
        by (auto simp: Get Cons split: option.splits)
    qed
  qed
qed

section \<open>Property\<close>

text \<open>C30. A message buffer that receives stays well formed, its cursors in order and inside the array, and is a
  queue of bytes: in any sequence of transfers and reads from a new buffer, the bytes of the transfers
  that succeeded are read once, in order, an empty buffer is reported as such, and the only way to
  undefined behaviour is a transfer longer than what earlier ones left of the array.\<close>

theorem buffer_is_queue:
  "case buffer_uses us (buffer_of array) of
     None \<Rightarrow> \<not> uses_fit us (length array)
   | Some (rs, b) \<Rightarrow> uses_fit us (length array) \<and> queue_uses us [] = (rs, buffer_pending b) \<and>
       length (message_buffer b) = length array \<and> input_start b \<le> input_end b \<and>
       output_start b = input_end b \<and> input_end b \<le> length array"
  using receiving_uses [OF receiving_start, of us array]
  by (auto simp: receiving_def buffer_of_def buffer_pending_def split: option.splits)

end
