(* ===== verification/Library_Tests.thy ===== *)
theory Library_Tests
  imports Master_Laws
begin

text \<open>
  The test cases of the library, \<^verbatim>\<open>src/test/pdu.cpp\<close>, \<^verbatim>\<open>src/test/crc.cpp\<close> and \<^verbatim>\<open>src/test/tcp.cpp\<close>, with the
  classes they supply: a source and a sink over vectors, which are instances of the interfaces
  \<open>byte_source\<close> and \<open>byte_sink\<close>, and a stream over vectors below \<^verbatim>\<open>boost::asio\<close>. A test is a boolean, true when
  its assertions hold. \<^verbatim>\<open>pdu.cpp\<close> does not compile as it is (\<^verbatim>\<open>boost::get\<close> of a \<^verbatim>\<open>std::variant\<close>, and \<^verbatim>\<open>std::to_byte\<close>,
  which does not exist); the model takes the evident intent.
\<close>

section \<open>A source over a vector\<close>

record vector_source =
  source_values :: "u8 list"
  source_current :: nat

definition vector_source_ctor :: "u8 list \<Rightarrow> vector_source" where
  "vector_source_ctor bs = \<lparr>source_values = bs, source_current = 0\<rparr>"

text \<open>\<^verbatim>\<open>*_current++\<close>; there is no check, so reading past the last value is undefined.\<close>

definition vector_source_get :: "vector_source \<Rightarrow> (u8 \<times> vector_source) option" where
  "vector_source_get src =
     (if source_current src < length (source_values src)
      then Some (source_values src ! source_current src, src\<lparr>source_current := source_current src + 1\<rparr>)
      else None)"

definition vector_read :: "vector_source read8" where
  "vector_read src v = do { (v, src) \<leftarrow> vector_source_get src; Some (no_error, v, src) }"

definition vector_pending :: "vector_source \<Rightarrow> u8 list" where
  "vector_pending src = drop (source_current src) (source_values src)"

interpretation vec: byte_source vector_read vector_pending "\<lambda>_. True" "\<lambda>_. None"
proof unfold_locales
  fix src :: vector_source and v :: u8
  show "read_sim vector_pending (\<lambda>_. True) (vector_read src v) (list_read (\<lambda>_. None) (vector_pending src) v)"
  proof (cases "source_current src < length (source_values src)")
    case True
    then have "vector_pending src = source_values src ! source_current src # drop (source_current src + 1) (source_values src)"
      by (simp add: vector_pending_def Cons_nth_drop_Suc)
    with True show ?thesis
      by (simp add: vector_read_def vector_source_get_def read_sim_def vector_pending_def)
  next
    case False
    then show ?thesis
      by (simp add: vector_read_def vector_source_get_def read_sim_def vector_pending_def)
  qed
qed

section \<open>A sink over a vector\<close>

record vector_sink =
  sink_values :: "u8 list"

definition vector_sink_init :: vector_sink where
  "vector_sink_init = \<lparr>sink_values = []\<rparr>"

definition vector_put :: "vector_sink put8" where
  "vector_put s v = Some (s\<lparr>sink_values := sink_values s @ [v]\<rparr>)"

interpretation vec_sink: byte_sink vector_put sink_values "\<lambda>_. \<infinity>" "\<lambda>_. True"
  by unfold_locales (simp_all add: vector_put_def)

lemma vector_put_all: "put_all vector_put bs s = Some (s\<lparr>sink_values := sink_values s @ bs\<rparr>)"
  by (induction bs arbitrary: s) (simp_all add: vector_put_def)

text \<open>Every request written to a sink is read back from a source of its bytes.\<close>

lemma request_through_vectors:
  assumes "pdu_req_wf v" "pdu_req_writable v"
  shows "\<exists>out src. write_pdu_req vector_put v vector_sink_init = Some out
    \<and> read_pdu_req vector_read (vector_source_ctor (sink_values out)) v0 = Some (no_error, v, src)
    \<and> vector_pending src = []"
proof -
  let ?src = "vector_source_ctor (pdu_req_bytes v)"
  have "read_sim vector_pending (\<lambda>_. True) (read_pdu_req vector_read ?src v0) (Some (no_error, v, []))"
    using vec.sim_pdu_req [of ?src v0] read_pdu_req_bytes [OF assms(1), of "\<lambda>_. None" "[]" v0]
    by (simp add: vector_pending_def vector_source_ctor_def)
  from read_simD [OF this] show ?thesis
    using assms(2) by (auto simp: write_pdu_req_form vector_put_all vector_sink_init_def)
qed

section \<open>A stream over vectors\<close>

record sync_stream =
  ss_in :: "u8 list"
  inIndex :: nat
  ss_out :: "u8 list"
  outIndex :: nat

definition sync_stream_init :: sync_stream where
  "sync_stream_init = \<lparr>ss_in = [], inIndex = 0, ss_out = [], outIndex = 0\<rparr>"

text \<open>One element per buffer of the sequence: the size of a mutable one, the content of a constant one.
  \<open>read_some\<close> also returns what it stores in the buffers.\<close>

fun read_some :: "nat list \<Rightarrow> sync_stream \<Rightarrow> nat \<times> u8 list list \<times> sync_stream" where
  "read_some [] s = (0, [], s)"
| "read_some (k # ks) s =
     (let len = min (length (ss_in s) - inIndex s) k;
          stored = take len (drop (inIndex s) (ss_in s));
          (totalRead, rest, s) = read_some ks (s\<lparr>inIndex := inIndex s + len\<rparr>)
      in (len + totalRead, stored # rest, s))"

fun write_some :: "u8 list list \<Rightarrow> sync_stream \<Rightarrow> nat \<times> sync_stream" where
  "write_some [] s = (0, s)"
| "write_some (bs # bss) s =
     (let out = vector_resize (length (ss_out s) + length bs) 0 (ss_out s);
          len = min (length out - outIndex s) (length bs);
          (total, s) = write_some bss
            (s\<lparr>ss_out := overwrite (outIndex s) (take len bs) out, outIndex := outIndex s + len\<rparr>)
      in (len + total, s))"

lemma write_some_appends:
  "outIndex s = length (ss_out s) \<Longrightarrow>
   write_some [bs] s = (length bs, s\<lparr>ss_out := ss_out s @ bs, outIndex := length (ss_out s) + length bs\<rparr>)"
  by (simp add: vector_resize_def overwrite_def Let_def)

lemma read_some_full:
  "inIndex s + n \<le> length (ss_in s) \<Longrightarrow>
   read_some [n] s = (n, [take n (drop (inIndex s) (ss_in s))], s\<lparr>inIndex := inIndex s + n\<rparr>)"
  by simp

text \<open>\<^verbatim>\<open>boost::asio::read\<close> and \<^verbatim>\<open>boost::asio::write\<close> call these two functions until the buffer is filled or
  empty, so a first call that does it all is the whole transfer. One call is for 65536 bytes at most.\<close>

definition sync_layer :: "sync_stream network \<Rightarrow> bool" where
  "sync_layer net \<longleftrightarrow>
     (\<forall>bs s s'. length bs \<le> 65536 \<longrightarrow> write_some [bs] s = (length bs, s') \<longrightarrow> net_write net bs s = (no_error, s'))
   \<and> (\<forall>n bs s s'. n \<le> 65536 \<longrightarrow> read_some [n] s = (n, [bs], s') \<longrightarrow> net_read net n s = (no_error, bs, s'))"

section \<open>The tests\<close>

definition test_canReadHoldingRegister :: bool where
  "test_canReadHoldingRegister =
     (case read_pdu_req vector_read (vector_source_ctor [0x03, 0x00, 0x6b, 0x00, 0x03]) pdu_req_init of
        Some (_, Read_holding realReq, _) \<Rightarrow> rh_starting_address realReq = 107 \<and> rh_quantity_of_registers realReq = 3
      | _ \<Rightarrow> False)"

definition test_canWriteHoldingRegister :: bool where
  "test_canWriteHoldingRegister =
     (let req = read_holding_pdu_req_init\<lparr>rh_starting_address := 107, rh_quantity_of_registers := 3\<rparr>;
          expected = [0x03, 0x00, 0x6b, 0x00, 0x03]
      in case read_holding_pdu_req_write vector_put req vector_sink_init of
           None \<Rightarrow> False
         | Some out \<Rightarrow> expected = sink_values out)"

definition test_canReadHoldingResponse :: "u8 list \<Rightarrow> bool" where
  "test_canReadHoldingResponse buffer =
     (case read_pdu_resp vector_read fc_read_holding_registers read_holding_pdu_resp_read
             (vector_source_ctor [0x03, 0x06, 0x02, 0x2B, 0x00, 0x00, 0x00, 0x04])
             (read_holding_pdu_resp_ctor (whole_span buffer)) of
        None \<Rightarrow> False
      | Some (_, resp, _) \<Rightarrow>
          byte_count resp = 6 \<and>
          (let vs = span_elems (resp_values resp)
           in vs ! 0 = 0x02 \<and> vs ! 1 = 0x2B \<and> vs ! 2 = 0x00 \<and> vs ! 3 = 0x00 \<and> vs ! 4 = 0x00 \<and> vs ! 5 = 0x04))"

definition test_canWriteHoldingResponse :: bool where
  "test_canWriteHoldingResponse =
     (let expected = [0x03, 0x06, 0x02, 0x2B, 0x00, 0x00, 0x00, 0x04];
          buffer = [0x02, 0x2B, 0x00, 0x00, 0x00, 0x04];
          resp = read_holding_pdu_resp_ctor (whole_span buffer)
      in case read_holding_pdu_resp_write vector_put resp vector_sink_init of
           None \<Rightarrow> False
         | Some out \<Rightarrow> expected = sink_values out)"

definition test_crc :: bool where
  "test_crc = (CRC16 [0, 0x42, 0x21, 0] = 0x60B8)"

text \<open>The result of \<^verbatim>\<open>read_registers\<close> is not looked at.\<close>

definition test_stream_call :: "sync_stream network \<Rightarrow> u8 list \<Rightarrow> (sync_stream tcp_stream, error_code \<times> u8 list) result" where
  "test_stream_call net singleRegister =
     (let stream = sync_stream_init\<lparr>ss_in := [0x00, 0x00, 0x00, 0x00, 0x00, 0x05, 0xff, 0x03, 0x02, 0x02, 0x2B]\<rparr>
      in read_registers (tcp_write_request net) (tcp_read_response net) 255 1 singleRegister (tcp_stream_ctor stream))"

definition test_stream :: "sync_stream network \<Rightarrow> u8 list \<Rightarrow> bool" where
  "test_stream net singleRegister =
     (case test_stream_call net singleRegister of
        Return (_, singleRegister) _ \<Rightarrow> singleRegister ! 0 = 0x02 \<and> singleRegister ! 1 = 0x2B
      | _ \<Rightarrow> False)"

section \<open>The layer below the stream, evaluated\<close>

text \<open>A layer that takes what one call delivers.\<close>

definition sync_net :: "sync_stream network" where
  "sync_net =
     (let rd = (\<lambda>n s. case read_some [n] s of
            (transferred, stored, s) \<Rightarrow> (if transferred = n then no_error else wire_eof, concat stored, s))
      in \<lparr>net_write = (\<lambda>bs s. (no_error, snd (write_some [bs] s))), net_read = rd, net_read_until = (\<lambda>_. rd)\<rparr>)"

lemma sync_net_layer: "sync_layer sync_net"
  by (auto simp del: read_some.simps write_some.simps simp: sync_layer_def sync_net_def Let_def)

lemma sync_net_contract: "asio_contract sync_net"
  by (simp add: asio_contract_def sync_net_def Let_def)

lemma sync_layer_write:
  "sync_layer net \<Longrightarrow> outIndex s = length (ss_out s) \<Longrightarrow> length bs \<le> 65536 \<Longrightarrow>
   net_write net bs s = (no_error, s\<lparr>ss_out := ss_out s @ bs, outIndex := length (ss_out s) + length bs\<rparr>)"
  using write_some_appends [of s bs] unfolding sync_layer_def by blast

lemma sync_layer_read:
  "sync_layer net \<Longrightarrow> inIndex s + n \<le> length (ss_in s) \<Longrightarrow> n \<le> 65536 \<Longrightarrow>
   net_read net n s = (no_error, take n (drop (inIndex s) (ss_in s)), s\<lparr>inIndex := inIndex s + n\<rparr>)"
  using read_some_full [of s n] unfolding sync_layer_def by blast

section \<open>Properties\<close>

text \<open>The test of the TCP client passes, whatever its array contains before the call: over any layer that
  moves bytes with the functions of \<^verbatim>\<open>Sync_Stream\<close>, the call succeeds with the two bytes of the register,
  has read the whole input and has written the request for one register at address 1 of slave 255.\<close>

lemma stream_test_passes:
  assumes "asio_contract net" "sync_layer net" "length singleRegister = 2"
  shows "test_stream net singleRegister \<and>
    (\<exists>st. test_stream_call net singleRegister = Return (no_error, [0x02, 0x2B]) st \<and>
      inIndex (m_next_layer st) = 11 \<and>
      ss_out (m_next_layer st) = [0, 0, 0, 0, 0, 6, 0xff, 3, 0, 1, 0, 1])"
proof -
  let ?in = "[0x00, 0x00, 0x00, 0x00, 0x00, 0x05, 0xff, 0x03, 0x02, 0x02, 0x2B] :: u8 list"
  let ?frame = "[0, 0, 0, 0, 0, 6, 0xff, 3, 0, 1, 0, 1] :: u8 list"
  let ?n = "\<lparr>ss_in = ?in, inIndex = 11, ss_out = ?frame, outIndex = 12\<rparr>"
  have frames: "mbap_frame 0 0 255 [3, 0, 1, 0, 1] = ?frame" "mbap_frame 0 0 255 [3, 2, 2, 0x2B] = ?in"
    by (simp_all add: mbap_frame_def hi8_def lo8_def)
  have sent: "net_write net ?frame (sync_stream_init\<lparr>ss_in := ?in\<rparr>) =
      (no_error, \<lparr>ss_in = ?in, inIndex = 0, ss_out = ?frame, outIndex = 12\<rparr>)"
    by (simp add: sync_layer_write [OF assms(2)] sync_stream_init_def)
  have "receives_frame net \<lparr>ss_in = ?in, inIndex = 0, ss_out = ?frame, outIndex = 12\<rparr> ?in ?n"
    by (simp add: receives_frame_def sync_layer_read [OF assms(2)])
  then have "answers net (tcp_stream_ctor (sync_stream_init\<lparr>ss_in := ?in\<rparr>)) 255 [3, 0, 1, 0, 1] [3, 2, 2, 0x2B] ?n"
    unfolding answers_def using sent frames by (simp add: tcp_stream_ctor_def)
  then have "\<exists>st. test_stream_call net singleRegister = Return (no_error, [2, 0x2B]) st \<and> m_next_layer st = ?n"
    using tcp_read_registers [of net "tcp_stream_ctor (sync_stream_init\<lparr>ss_in := ?in\<rparr>)" 255 "[2, 0x2B]" singleRegister 1 ?n]
    by (simp add: streams_ok_ctor assms protocol_consts hi8_def lo8_def test_stream_call_def Let_def)
  then show ?thesis
    by (auto simp: test_stream_def)
qed

text \<open>The tests of the library pass, whatever the arrays of the two response tests contain before the call and
  over any layer that moves bytes with the functions of \<^verbatim>\<open>Sync_Stream\<close>.\<close>

lemma library_tests_pass:
  assumes "asio_contract net" "sync_layer net"
  shows "test_canReadHoldingRegister \<and> test_canWriteHoldingRegister \<and> test_canReadHoldingResponse [a, b, c, d, e, f]
    \<and> test_canWriteHoldingResponse \<and> test_crc \<and> test_stream net [g, h]"
proof (intro conjI)
  show test_canReadHoldingRegister test_canWriteHoldingRegister test_canWriteHoldingResponse test_crc
    by code_simp+
  show "test_canReadHoldingResponse [a, b, c, d, e, f]"
    by code_simp
  show "test_stream net [g, h]"
    using stream_test_passes [OF assms] by simp
qed

end
