(* ===== verification/Spec2Isabelle.thy ===== *)
theory Spec2Isabelle
  imports Tcp_Session Master_Refusals Rtu_Damage Callback_Server Example_Client Rtu_Race Buffer_Queue Library_Tests
begin

text \<open>
  \<^bold>\<open>mothbus\<close> is a C++ library for the Modbus protocol: the protocol data units (PDU) with their readers
  and writers, the framing for TCP (MBAP header) and for serial lines (slave address and checksum), a
  master (client) with one function per Modbus function code, and an asynchronous reader of requests
  for servers. This development models the library under \<^verbatim>\<open>src/include/mothbus\<close> in full, header by
  header, the example servers and the example client under \<^verbatim>\<open>src/examples\<close> and the tests under
  \<^verbatim>\<open>src/test\<close>, and proves what the parts promise each other and their callers.

  \<^bold>\<open>How code is modelled.\<close> Classes are records, the request variant is a datatype, integers keep their
  width (\<open>u8\<close>, \<open>u16\<close>), except sizes and cursors of type \<^verbatim>\<open>size_t\<close>, which are natural numbers: none of them
  comes near \<open>2 ^ 32\<close> in an execution without undefined behaviour. Templates over a reader or a sink
  take the operation they use of it as an argument. A reading function returns the error code, the out
  parameter as it is left, and the reader. Undefined behaviour (an access outside an array, the value of
  an uninitialised variable) is \<open>None\<close> in the lower layers and \<open>Undefined\<close> in the streams and the master; a
  failed \<^verbatim>\<open>assert\<close> is \<open>None\<close> in the writers and constructors of the PDU layer and \<open>Assert_failed\<close> in the
  master (a writer's would show as \<open>Undefined\<close> in a stream, but the master calls none whose assertion fails); an exception thrown by the network layer is \<open>Throw\<close>. Enumerations that are cast from bytes of the
  wire are the underlying integers with one constant per enumerator.

  \<^bold>\<open>Theories\<close>, in the order of the layers:
  \<^item> \<open>Moth_Prelude\<close>: types, the collections of rewrite rules, byte pairs and overwritten lists.
  \<^item> \<open>Moth_Error\<close> (\<^verbatim>\<open>error.h\<close>), \<open>Moth_Util\<close> (\<^verbatim>\<open>mothbus.h\<close> and the byte order helpers of \<^verbatim>\<open>adu/master.h\<close>).
  \<^item> \<open>Reader_Writer\<close> (\<^verbatim>\<open>pdu/reader.h\<close>, \<^verbatim>\<open>pdu/writer.h\<close>): the primitive readers and writers. The locale
    \<open>byte_sink\<close> says what a sink promises (bytes are appended until the room is used up), the locale
    \<open>byte_source\<close> that reading from a source simulates reading from the list of its pending bytes; every
    later fact about reading is proved on lists and carried over by the simulation.
  \<^item> \<open>Pdu_Base\<close>, \<open>Pdu_Requests\<close>, \<open>Pdu_Responses\<close>, \<open>Pdu\<close> (\<^verbatim>\<open>pdu.h\<close>, \<^verbatim>\<open>pdu/req_*.h\<close>, \<^verbatim>\<open>pdu/resp_*.h\<close>): the
    function codes, the nine requests and nine responses, the variant of requests, exceptions.
    \<open>Pdu_Request_Laws\<close> states the contract of a request class, the locales \<open>pdu_decoder\<close> and
    \<open>request_codec\<close>, and interprets it for the nine classes; \<open>Pdu\<close> interprets it for the variant, and says
    for all bytes what reading them gives (\<open>request_result\<close>, with \<open>request_size\<close>, the number of bytes announced).
  \<^item> \<open>Adu_Buffer\<close> (\<^verbatim>\<open>adu/buffer.h\<close>): the message buffer, as a \<open>byte_source\<close> and as a \<open>byte_sink\<close>.
  \<^item> \<open>Crc\<close> (\<^verbatim>\<open>adu/crc.h\<close>): the tables and the loop, against the bitwise definition of the checksum.
  \<^item> \<open>Transport\<close>: outcomes of operations with state, and the network layer \<^verbatim>\<open>boost::asio\<close> as an argument
    with the contract \<open>asio_contract\<close>; \<open>Wire\<close> is a concrete network layer that meets it.
    \<open>Response_Reader\<close> states what the streams need of a response class, the locale \<open>response_reader\<close>, and
    interprets it for the nine classes.
  \<^item> \<open>Tcp\<close>, \<open>Tcp_Laws\<close>, \<open>Tcp_Server\<close> (\<^verbatim>\<open>adu/tcp.h\<close>): the client side with the specification
    \<open>tcp_response_spec\<close> that \<open>read_response\<close> refines; the server side, \<^verbatim>\<open>async_read_request\<close> and its handlers,
    as a state machine (\<open>read_step\<close>, \<open>read_run\<close>) whose events are the completions of the network layer, and
    run over a network layer (\<open>transfer\<close>, \<open>drive\<close>) against \<open>request_received\<close>, what reading one request amounts to.
  \<^item> \<open>Rtu\<close>, \<open>Rtu_Laws\<close> (\<^verbatim>\<open>adu/rtu.h\<close>): the serial line stream with the specification \<open>rtu_body_verdict\<close>.
    The receiving loop is a terminating function: every turn fills a byte of the buffer.
    \<open>Rtu_Race\<close> opens up \<^verbatim>\<open>read_byte_with_timeout\<close>, the race of a byte against a timer, as a step relation.
  \<^item> \<open>Master\<close>, \<open>Master_Laws\<close> (\<^verbatim>\<open>adu/master.h\<close>): the functions of the master over any stream. The locale
    \<open>modbus_stream\<close> (interpreted for both streams) and its extension \<open>safe_stream\<close> (interpreted for TCP)
    say what the master relies on.
  \<^item> \<open>Buffer_Queue\<close>: the message buffer in use as a queue of bytes (\<open>queue_uses\<close>).
  \<^item> \<open>Rtu_Master\<close>: the bound on the turns of the receiving loop on the serial line.
  \<^item> \<open>Master_Spec\<close>: what the functions of the master make of every answer. \<open>values_answer\<close> and \<open>echo_answer\<close> are
    the specifications, functions from bytes to results. \<open>run_reading\<close>, \<open>tcp_writing\<close> and \<open>rtu_writing\<close> only choose one
    of the functions of \<open>Master\<close>.
  \<^item> \<open>Master_Refinement\<close>: the functions of the master refine \<open>reading_spec\<close> and \<open>writing_spec\<close>, transactions with
    the network layer without message buffers (\<open>tcp_transaction\<close>, \<open>rtu_transaction\<close>), in the sense of \<open>agrees\<close>. The
    locale \<open>transacting_stream\<close> and its extension for responses with values, \<open>transacting_values\<close>, are the
    contract of a stream, interpreted for both streams. \<open>rtu_reception\<close> is the specification of \<^verbatim>\<open>read_response\<close> on
    the serial line for every response class.
  \<^item> \<open>Master_Registers\<close>: the same for the functions on register values, that every function is safe over TCP, and
    exactly when a function of the master on the serial line is undefined (\<open>rtu_unsafe\<close>).
  \<^item> \<open>Master_Calls\<close>: every function of the master as one kind of call, with the request of the variant that it
    stands for (\<open>call_message\<close>), what it makes of an answer (\<open>call_answer\<close>, \<open>rtu_call_answer\<close>) and of a refusal
    (\<open>call_failed\<close>), and calls one after the other (\<open>run_calls\<close>).
  \<^item> \<open>Master_Refusals\<close>: what a refused answer leaves behind for the calls that follow, on both streams.
  \<^item> \<open>Rtu_Damage\<close>: answers damaged on the serial line, for every call.
  \<^item> \<open>Example_Server\<close>, \<open>Example_Server_Laws\<close> (\<^verbatim>\<open>examples/tcpserver*.cpp\<close>): the request handlers, a turn of the
    coroutine \<^verbatim>\<open>handle_message\<close>, and the posted updates of the registers. The locale \<open>answering\<close> is the contract
    of a handler (one answer per request), interpreted for both coroutine servers; a turn refines \<open>turn_spec\<close>.
  \<^item> \<open>Accept_Loop\<close>: what the three servers have in common, an accept loop and connections that react to the
    completions of their transfers, as runs over sequences of events. The locales \<open>connection_invariant\<close> and
    its extension \<open>guarded_connection\<close> carry an invariant of one connection to a server with any number.
  \<^item> \<open>Coroutine_Server\<close> (\<^verbatim>\<open>examples/tcpserver_coroutine*.cpp\<close>): \<^verbatim>\<open>handle_message\<close> at its two suspension points,
    and the programs \<open>data_server\<close> and \<open>zero_server\<close>. The locale \<open>serving\<close> extends \<open>answering\<close>; every instance of it is a
    \<open>guarded_connection\<close>.
  \<^item> \<open>Tcp_Loop\<close>: a master and the running server with data, joined: \<open>loop_net\<close> is a network layer of the master
    whose state contains the server, and whose waits let the server handle any events.
  \<^item> \<open>Tcp_Session\<close>: sessions of calls of any functions over this joint system, against \<open>calls_spec\<close>, a store of one
    value.
  \<^item> \<open>Callback_Server\<close> (\<^verbatim>\<open>examples/tcpserver.cpp\<close>): the classes \<^verbatim>\<open>connection\<close> and \<^verbatim>\<open>server\<close> on top of the request
    reader of \<open>Tcp\<close>, an instance of \<open>guarded_connection\<close>.
  \<^item> \<open>Example_Client\<close> (\<^verbatim>\<open>examples/tcpclient.cpp\<close>): the call of the master and the text that is printed.
  \<^item> \<open>Library_Tests\<close> (\<^verbatim>\<open>test/*.cpp\<close>): the test cases as booleans; their helper classes are a \<open>byte_source\<close>, a
    \<open>byte_sink\<close> and a layer below \<^verbatim>\<open>boost::asio\<close>.
  \<^item> this theory: properties that span client and server.

  \<^bold>\<open>What is shown.\<close> Requests survive the way from the client's call to the server's callback (C3), the values of the
  example server the way back to a client that reads or prints them (C4, C25), and a whole session of a master
  with the running server, with calls of any functions and among other connections and posted updates, is a
  session with a store of one value that never goes back (C1). What the master returns is specified for every
  behaviour of the network layer, over TCP (C2, C6, C7, C16) and over the serial line (C7, C17, C18, C36), as a
  function of the bytes of the answer. The functions of the master stay inside their buffers over TCP (C12), and it
  is said exactly when they do not over the serial line (C13) or with too many registers (C14). For every network layer
  within its contract and every sequence of bytes a peer may send, the request reader stays inside its buffer,
  the callback is called, and success or an error has the stated meaning (C10, C11, C15, C21, C22, C33 to C35).
  The example servers are followed as whole programs with any number of connections and any interleaving: what they
  answer (C5, C23, C24, C31), and the only ways in which they leave their buffers (C8, C9). Encoded requests are
  read back (C19), coils are packed (C32), the message buffer is a queue (C30). The checksum is the one of the
  Modbus specification (C20); the serial line stream sends it (C37), refuses answers damaged behind their byte
  count and does not wait for ever (C26 to C29). Several theorems pin down behaviour that departs from the protocol or the documentation: C2, C6 to C9, C13, C14, C16 to C18, C38 and C39.

  \<^bold>\<open>Not modelled.\<close> \<^verbatim>\<open>boost::asio\<close> itself: transfers are an argument with the contract \<open>asio_contract\<close>, and the order in
  which its handlers run is the sequence of events of a run, over which the theorems quantify. How long
  anything takes (in \<open>Rtu_Race\<close> a timer may expire at any moment), handlers of other users of the \<^verbatim>\<open>io_context\<close> that
  \<^verbatim>\<open>read_byte_with_timeout\<close> runs, name resolution, connecting, \<^verbatim>\<open>boost::program_options\<close>, the test framework and
  console output other than the client's result are left out or arguments. \<^verbatim>\<open>adu/tcp.h\<close>, the example servers and \<^verbatim>\<open>test/pdu.cpp\<close> do not compile as
  they are (see \<open>Tcp\<close>, \<open>Example_Server\<close>, \<open>Callback_Server\<close>, \<open>Library_Tests\<close>); the model takes the evident intent, and
  the overloads that the visitor of \<^verbatim>\<open>tcpserver.cpp\<close> lacks are an argument. An exception in a coroutine that was
  spawned \<^verbatim>\<open>detached\<close> ends this coroutine. In \<open>Tcp_Loop\<close> no more bytes than a message buffer takes wait on any connection
  (\<open>calm_event\<close>; C8 covers the others) and the program is not stopped. The array that \<^verbatim>\<open>tcpclient.cpp\<close> never initialises is an argument.

  \<^bold>\<open>Loops.\<close> No definition of the model uses fuel: every loop of the library is structural recursion or has a
  proof of termination. \<open>receive_rest_within\<close> bounds the turns of the receiving loop for the statement of
  C27 only; the number of free bytes and one is enough. The number in \<open>drive\<close> counts completions of the network
  layer; two are enough (C33). Endless loops (\<^verbatim>\<open>handle_message\<close>, the accept loops) are
  modelled by the events they handle, and the theorems hold for sequences of every length.
\<close>

section \<open>A client and a server over TCP\<close>

text \<open>C3. A well formed request that the client writes reaches the callback of the server unchanged: the
  frame \<^verbatim>\<open>write_request\<close> sends, delivered to \<^verbatim>\<open>async_read_request\<close> as header and body, ends in one call of
  the callback with the client's transaction identifier and slave, no error, and the request the client
  built.\<close>

theorem request_reaches_server:
  assumes "tcp_ok net st" "pdu_req_wf v" "pdu_req_writable v" "length (pdu_req_bytes v) \<le> 253" "length array = 320"
    and "frame = mbap_frame (m_transaction_id st) (m_protocol st) slave (pdu_req_bytes v)"
    and "net_write net frame (m_next_layer st) = (ec, n')" "\<not> failed ec"
  shows "\<exists>st' op. tcp_write_request net slave (write_pdu_req buffer_put v) st = Return (m_transaction_id st) st'
    \<and> m_next_layer st' = n'
    \<and> read_run (server_start array v0) [(no_error, take 7 frame), (no_error, drop 7 frame)]
        (Called (m_transaction_id st) slave no_error op) \<and> op_request op = v"
proof -
  have form: "write_pdu_req buffer_put v = put_all buffer_put (pdu_req_bytes v)"
    using assms(3) by (intro ext) (simp add: write_pdu_req_form)
  have "\<exists>st'. tcp_write_request net slave (write_pdu_req buffer_put v) st = Return (m_transaction_id st) st' \<and>
      m_next_layer st' = n'"
    using assms(1,4,6-8) unfolding form by (simp add: tcp_write_request_form tcp_ok_def Let_def)
  moreover have len: "1 \<le> length (pdu_req_bytes v)"
    by (simp add: pdu_req_bytes_def)
  have "unat (hdr_length (header_of (take 7 frame))) - 1 = length (pdu_req_bytes v)"
    using unat_of_nat_u16 [of "1 + length (pdu_req_bytes v)"] assms(4)
    by (simp only: assms(6) header_of_frame) simp
  then have "\<exists>op. read_run (server_start array v0) [(no_error, take 7 frame), (no_error, drop 7 frame)]
      (Called (hdr_transaction_id (header_of (take 7 frame))) (hdr_unit_id (header_of (take 7 frame))) no_error op)
      \<and> op_request op = v"
    using assms(5) frame_valid_length [OF len assms(4)] read_pdu_req_bytes [OF assms(2), of checked_end "[]" v0]
    by (intro server_accepts [where rest = "[]"]) (simp_all add: assms(6) mbap_frame_parts(2))
  ultimately show ?thesis
    unfolding assms(6) header_of_frame by auto
qed

theorem request_reaches_server_witness:
  "\<exists>st' op. tcp_write_request wire_net 9 (write_pdu_req buffer_put (Read_input
        \<lparr>ri_starting_address = 0, ri_quantity_of_registers = 1\<rparr>)) (tcp_stream_ctor \<lparr>incoming = [], outgoing = []\<rparr>) =
      Return 0 st'
    \<and> read_run (server_start (replicate 320 0) pdu_req_init)
        [(no_error, [0, 0, 0, 0, 0, 6, 9]), (no_error, [4, 0, 0, 0, 1])] (Called 0 9 no_error op)
    \<and> op_request op = Read_input \<lparr>ri_starting_address = 0, ri_quantity_of_registers = 1\<rparr>"
  using request_reaches_server [of wire_net "tcp_stream_ctor \<lparr>incoming = [], outgoing = []\<rparr>"
      "Read_input \<lparr>ri_starting_address = 0, ri_quantity_of_registers = 1\<rparr>" "replicate 320 0"
      "[0, 0, 0, 0, 0, 6, 9, 4, 0, 0, 0, 1]" 9 no_error
      "\<lparr>incoming = [], outgoing = [0, 0, 0, 0, 0, 6, 9, 4, 0, 0, 0, 1]\<rparr>" pdu_req_init]
  by (auto simp: wire_eval pdu_req_bytes_def encodings)

text \<open>The values a server writes as a response to a read of holding registers with \<^verbatim>\<open>write_response\<close>
  are the values the client's \<^verbatim>\<open>read_response\<close> stores, for up to 246 bytes of values and any two network
  layers that carry the frame from one to the other.\<close>

lemma response_reaches_client:
  assumes "tcp_ok cnet cst" "length (m_message_buffer sst) = 320" "m_protocol sst = m_protocol cst" "slave \<noteq> 0"
    and "length vals \<le> 246" "length out = length vals"
    and "frame = mbap_frame tid (m_protocol sst) slave (fc_read_holding_registers # of_nat (length vals) # vals)"
    and "receives_frame cnet (m_next_layer cst) frame n'"
  shows "tcp_write_response snet tid slave
      (read_holding_pdu_resp_write buffer_put (read_holding_pdu_resp_ctor (whole_span vals))) sst =
    Return () (sst\<lparr>m_message_buffer := overwrite 0 frame (m_message_buffer sst),
      m_next_layer := snd (net_write snet frame (m_next_layer sst))\<rparr>)
    \<and> (\<exists>cst'. tcp_read_response cnet tid slave fc_read_holding_registers read_holding_pdu_resp_read
        (read_holding_pdu_resp_ctor (whole_span out)) cst =
      Return (make_error_code success, \<lparr>byte_count = of_nat (length vals),
        resp_values = \<lparr>span_array = vals, span_size = length vals\<rparr>\<rparr>) cst' \<and> m_next_layer cst' = n')"
proof
  let ?pdu = "fc_read_holding_registers # of_nat (length vals) # vals"
  have "read_holding_pdu_resp_write buffer_put (read_holding_pdu_resp_ctor (whole_span vals)) = put_all buffer_put ?pdu"
    unfolding read_holding_pdu_resp_write_form values_ctors_eq values_ctor_over
    by (simp only: values_pdu_resp_body_def values_pdu_resp.simps span_elems_def whole_span_def byte_span.simps
        take_all order_refl)
  then show "tcp_write_response snet tid slave
      (read_holding_pdu_resp_write buffer_put (read_holding_pdu_resp_ctor (whole_span vals))) sst =
    Return () (sst\<lparr>m_message_buffer := overwrite 0 frame (m_message_buffer sst),
      m_next_layer := snd (net_write snet frame (m_next_layer sst))\<rparr>)"
    using assms(2,5,7) by (simp only: tcp_write_response_form) (simp add: Let_def)
  have "holding_resp.read_resp ?pdu (read_holding_pdu_resp_ctor (whole_span out)) =
      Some (no_error, \<lparr>byte_count = of_nat (length vals),
        resp_values = \<lparr>span_array = vals, span_size = length vals\<rparr>\<rparr>, [])"
    unfolding values_reads_eq values_ctors_eq using assms(5,6) by (intro values_response) simp_all
  from tcp_response_of_frame [where rsp = holding_resp.read_resp, OF _ assms(4) _ _ this, of cnet cst tid n'] assms
  show "\<exists>cst'. tcp_read_response cnet tid slave fc_read_holding_registers read_holding_pdu_resp_read
        (read_holding_pdu_resp_ctor (whole_span out)) cst =
      Return (make_error_code success, \<lparr>byte_count = of_nat (length vals),
        resp_values = \<lparr>span_array = vals, span_size = length vals\<rparr>\<rparr>) cst' \<and> m_next_layer cst' = n'"
    by (simp add: holding_resp.tcp_read_response_refines tcp_ok_def)
qed

text \<open>C4. A master that reads 1 to 123 holding registers from the server with data, over any network layer
  that carries its frame to the server and what the server wrote back to it, obtains exactly the registers
  of the server from the address on, on servers of either byte order; when the range leaves the data, it
  obtains the exception for an illegal data address and its array is untouched.\<close>

theorem client_reads_server_registers:
  assumes "tcp_ok net st" "slave \<noteq> 0" "1 \<le> length out" "length out \<le> 123"
    and "frame = mbap_frame (m_transaction_id st) (m_protocol st) slave
      [fc_read_holding_registers, hi8 address, lo8 address, hi8 (of_nat (length out)), lo8 (of_nat (length out))]"
    and "net_write net frame (m_next_layer st) = (ec, n1)" "\<not> failed ec"
    and "session_ok ses" "m_protocol (mothbus_stream ses) = m_protocol st"
    and "m_next_layer (mothbus_stream ses) = \<lparr>incoming = frame, outgoing = []\<rparr>"
    and "message_turn wire_net (data_handler wire_net native regs) ses = Return True ses'"
    and "receives_frame net n1 (outgoing (m_next_layer (mothbus_stream ses'))) n'"
  shows "\<exists>st'. read_registers_uint16 (tcp_write_request net) (tcp_read_response net) slave address out st =
    Return (if unat address + length out \<le> length regs
      then (no_error, take (length out) (drop (unat address) regs))
      else (make_error_code illegal_data_address, out)) st' \<and> m_next_layer st' = n'"
proof -
  let ?v = "Read_holding \<lparr>rh_starting_address = address, rh_quantity_of_registers = of_nat (length out)\<rparr>"
  have "answers net st slave
      [fc_read_holding_registers, hi8 address, lo8 address, hi8 (of_nat (length out)), lo8 (of_nat (length out))]
      (register_reply regs ?v) n'"
    using wire_turn_output [OF assms(8) assms(10) [unfolded assms(5)] assms(11)] assms(6,7,9,12)
    by (simp only: answers_def assms(5)) simp
  moreover have "tcp_at net (m_protocol st) st"
    using assms(1) by (simp add: tcp_at_def)
  ultimately show ?thesis
    using read_registers_call [of net "m_protocol st" st slave out address regs n'] assms(2-4)
    by (auto simp: pdu_req_bytes_def encodings)
qed

theorem client_reads_server_registers_witness:
  "\<exists>ses' st'. message_turn wire_net (data_handler wire_net little [5, 6, 0x1234])
      (session_start \<lparr>incoming = [0, 0, 0, 0, 0, 6, 9, 3, 0, 1, 0, 2], outgoing = []\<rparr>) = Return True ses'
    \<and> read_registers_uint16 (tcp_write_request wire_net) (tcp_read_response wire_net) 9 1 [0, 0]
      (tcp_stream_ctor \<lparr>incoming = outgoing (m_next_layer (mothbus_stream ses')), outgoing = []\<rparr>) =
    Return (no_error, [6, 0x1234]) st'"
proof -
  let ?frame = "[0, 0, 0, 0, 0, 6, 9, 3, 0, 1, 0, 2] :: u8 list"
  let ?v = "Read_holding \<lparr>rh_starting_address = 1, rh_quantity_of_registers = 2\<rparr>"
  let ?ses = "session_start \<lparr>incoming = ?frame, outgoing = []\<rparr>"
  have sock: "m_next_layer (mothbus_stream ?ses) = \<lparr>incoming = ?frame, outgoing = []\<rparr>"
      "m_protocol (mothbus_stream ?ses) = 0"
    by (simp_all add: session_start_def tcp_stream_ctor_def)
  have frame: "?frame = mbap_frame 0 0 9 (pdu_req_bytes ?v)"
    by (simp add: wire_eval pdu_req_bytes_def encodings)
  have "receives_frame wire_net (m_next_layer (mothbus_stream ?ses)) (mbap_frame 0 0 9 (pdu_req_bytes ?v))
      ((m_next_layer (mothbus_stream ?ses))\<lparr>incoming := []\<rparr>)"
    unfolding frame [symmetric] by (rule wire_receives) (simp_all add: sock)
  from data.turn_answers [OF wire_contract session_ok_start _ _ _ this, of ?v "[]" little "[5, 6, 0x1234]"]
  obtain ses' where turn: "message_turn wire_net (data_handler wire_net little [5, 6, 0x1234]) ?ses = Return True ses'"
      "outgoing (m_next_layer (mothbus_stream ses')) = mbap_frame 0 0 9 (register_reply [5, 6, 0x1234] ?v)"
    by (auto simp: pdu_req_bytes_def encodings header_of_frame sock)
  have "receives_frame wire_net \<lparr>incoming = outgoing (m_next_layer (mothbus_stream ses')), outgoing = ?frame\<rparr>
      (outgoing (m_next_layer (mothbus_stream ses'))) \<lparr>incoming = [], outgoing = ?frame\<rparr>"
    unfolding turn(2) by (simp add: receives_frame_def wire_read_def)
  from client_reads_server_registers [OF _ _ _ _ _ _ _ session_ok_start _ sock(1) turn(1) this,
      of "tcp_stream_ctor \<lparr>incoming = outgoing (m_next_layer (mothbus_stream ses')), outgoing = []\<rparr>" 9 "[0, 0]" 1]
  show ?thesis
    using turn(1) sock(2) by (auto simp: wire_eval)
qed

end
